theory Spec2Isabelle
  imports Main "HOL-Library.Char_ord" "HOL-Library.List_Lexorder"
begin

section \<open>Go strings and errors\<close>

text \<open>
  A Go string is a sequence of bytes: \<^typ>\<open>string\<close>. The functions of this section
  are the ones of Go's \<open>strings\<close>, \<open>fmt\<close> and \<open>errors\<close> packages that the
  commands call, written for byte strings that hold UTF-8.
\<close>

subsection \<open>\<open>strings.TrimSpace\<close>\<close>

text \<open>
  \<open>strings.TrimSpace\<close> removes the leading and the trailing white space, as
  \<open>unicode.IsSpace\<close> defines it: the six ASCII bytes tab, line feed, vertical tab,
  form feed, carriage return and space, U+0085 and U+00A0 (two bytes each in UTF-8), and
  U+1680, U+2000 to U+200A, U+2028, U+2029, U+202F, U+205F and U+3000 (three bytes
  each). A byte sequence that is not the UTF-8 encoding of one of these decodes to another
  rune (or to the replacement rune) and stops the trimming.
\<close>

definition asciiSpace :: "nat \<Rightarrow> bool" where
  "asciiSpace b \<longleftrightarrow> b = 9 \<or> b = 10 \<or> b = 11 \<or> b = 12 \<or> b = 13 \<or> b = 32"

definition space2 :: "nat \<Rightarrow> nat \<Rightarrow> bool" where
  "space2 b0 b1 \<longleftrightarrow> b0 = 0xC2 \<and> (b1 = 0x85 \<or> b1 = 0xA0)"

definition space3 :: "nat \<Rightarrow> nat \<Rightarrow> nat \<Rightarrow> bool" where
  "space3 b0 b1 b2 \<longleftrightarrow>
     (b0 = 0xE1 \<and> b1 = 0x9A \<and> b2 = 0x80)
     \<or> (b0 = 0xE2 \<and> b1 = 0x80 \<and> 0x80 \<le> b2 \<and> b2 \<le> 0x8A)
     \<or> (b0 = 0xE2 \<and> b1 = 0x80 \<and> (b2 = 0xA8 \<or> b2 = 0xA9 \<or> b2 = 0xAF))
     \<or> (b0 = 0xE2 \<and> b1 = 0x81 \<and> b2 = 0x9F)
     \<or> (b0 = 0xE3 \<and> b1 = 0x80 \<and> b2 = 0x80)"

text \<open>
  The width in bytes of the white-space rune a string starts with, and of the one it ends
  with; 0 when the first (last) rune is not white space.
\<close>

fun leadingSpace :: "nat list \<Rightarrow> nat" where
  "leadingSpace [] = 0"
| "leadingSpace [b0] = (if asciiSpace b0 then 1 else 0)"
| "leadingSpace [b0, b1] = (if asciiSpace b0 then 1 else if space2 b0 b1 then 2 else 0)"
| "leadingSpace (b0 # b1 # b2 # _) =
     (if asciiSpace b0 then 1 else if space2 b0 b1 then 2 else if space3 b0 b1 b2 then 3 else 0)"

fun trailingSpace :: "nat list \<Rightarrow> nat" where
  "trailingSpace [] = 0"
| "trailingSpace [b0] = (if asciiSpace b0 then 1 else 0)"
| "trailingSpace [b0, b1] = (if asciiSpace b0 then 1 else if space2 b1 b0 then 2 else 0)"
| "trailingSpace (b0 # b1 # b2 # _) =
     (if asciiSpace b0 then 1 else if space2 b1 b0 then 2 else if space3 b2 b1 b0 then 3 else 0)"

definition bytes :: "string \<Rightarrow> nat list" where
  "bytes s = map of_char s"

lemma leadingSpace_le: "leadingSpace bs \<le> length bs"
  by (induction bs rule: leadingSpace.induct) auto

lemma trailingSpace_le: "trailingSpace bs \<le> length bs"
  by (induction bs rule: trailingSpace.induct) auto

function trimLeftSpace :: "string \<Rightarrow> string" where
  "trimLeftSpace s =
     (if leadingSpace (bytes s) = 0 then s
      else trimLeftSpace (drop (leadingSpace (bytes s)) s))"
  by pat_completeness auto
termination
proof (relation "measure length")
  show "wf (measure length)" by simp
next
  fix s :: string
  assume "leadingSpace (bytes s) \<noteq> 0"
  moreover have "leadingSpace (bytes s) \<le> length s"
    using leadingSpace_le [of "bytes s"] by (simp add: bytes_def)
  ultimately show "(drop (leadingSpace (bytes s)) s, s) \<in> measure length"
    by simp
qed

function trimRightSpace :: "string \<Rightarrow> string" where
  "trimRightSpace s =
     (if trailingSpace (rev (bytes s)) = 0 then s
      else trimRightSpace (take (length s - trailingSpace (rev (bytes s))) s))"
  by pat_completeness auto
termination
proof (relation "measure length")
  show "wf (measure length)" by simp
next
  fix s :: string
  assume "trailingSpace (rev (bytes s)) \<noteq> 0"
  moreover have "trailingSpace (rev (bytes s)) \<le> length s"
    using trailingSpace_le [of "rev (bytes s)"] by (simp add: bytes_def)
  ultimately show "(take (length s - trailingSpace (rev (bytes s))) s, s) \<in> measure length"
    by simp
qed

declare trimLeftSpace.simps [simp del] trimRightSpace.simps [simp del]

definition TrimSpace :: "string \<Rightarrow> string" where
  "TrimSpace s = trimRightSpace (trimLeftSpace s)"

subsection \<open>\<open>strings.ToUpper\<close>\<close>

text \<open>
  \<open>strings.ToUpper\<close> maps every rune to its upper case. The code compares the result
  with ASCII constants only, so what matters is which runes become ASCII letters: the
  ASCII lower-case letters, U+0131 (bytes C4 B1, upper case \<open>I\<close>) and U+017F (bytes C5
  BF, upper case \<open>S\<close>). Every other rune beyond ASCII stays beyond ASCII; the model
  leaves its bytes as they are.
\<close>

definition upperASCII :: "char \<Rightarrow> char" where
  "upperASCII c =
     (if 97 \<le> (of_char c :: nat) \<and> (of_char c :: nat) \<le> 122
      then char_of ((of_char c :: nat) - 32) else c)"

fun ToUpper :: "string \<Rightarrow> string" where
  "ToUpper [] = []"
| "ToUpper [c] = [upperASCII c]"
| "ToUpper (c # d # cs) =
     (if c = CHR 0xC4 \<and> d = CHR 0xB1 then CHR ''I'' # ToUpper cs
      else if c = CHR 0xC5 \<and> d = CHR 0xBF then CHR ''S'' # ToUpper cs
      else upperASCII c # ToUpper (d # cs))"

subsection \<open>Integers in decimal (\<open>%d\<close>)\<close>

function natToDec :: "nat \<Rightarrow> string" where
  "natToDec n =
     (if n < 10 then [char_of (48 + n)]
      else natToDec (n div 10) @ [char_of (48 + n mod 10)])"
  by pat_completeness auto
termination
  by (relation "measure id") auto

declare natToDec.simps [simp del]

definition Itoa :: "int \<Rightarrow> string" where
  "Itoa i = (if i < 0 then CHR ''-'' # natToDec (nat (- i)) else natToDec (nat i))"

subsection \<open>Errors\<close>

text \<open>
  A Go \<open>error\<close>: an error returned by a call of the API client, with its text and
  whether the API reported the resource as not found; an error made by
  \<open>fmt.Errorf("<prefix>: %w", err)\<close>, which wraps \<open>err\<close>; an error made from a text
  alone; and \<open>shared.NewReportedError(err)\<close>.
\<close>

datatype go_error =
    ApiError bool string
  | Wrapped string go_error
  | Errorf string
  | ReportedError go_error

text \<open>The text of an error, as \<open>err.Error()\<close> and the verb \<open>%v\<close> give it.\<close>

fun Error :: "go_error \<Rightarrow> string" where
  "Error (ApiError _ msg) = msg"
| "Error (Wrapped prefix err) = prefix @ '': '' @ Error err"
| "Error (Errorf msg) = msg"
| "Error (ReportedError err) = Error err"

text \<open>
  Modelled from the spec: \<open>asc.IsNotFound\<close>, which is declared in package \<open>asc\<close>.
  The remote service's failures are "distinguished only by a binary not-found signal
  versus other"; wrapping keeps the signal of the wrapped error.
\<close>

fun IsNotFound :: "go_error \<Rightarrow> bool" where
  "IsNotFound (ApiError notFound _) = notFound"
| "IsNotFound (Wrapped _ err) = IsNotFound err"
| "IsNotFound (Errorf _) = False"
| "IsNotFound (ReportedError err) = IsNotFound err"

section \<open>Records of the \<open>validate\<close> commands\<close>

text \<open>
  Several Go structs share field names (\<open>ID\<close>, \<open>Name\<close>, \<open>State\<close>, \<open>AppID\<close>). The
  records keep the names of the source; a field of this section is written with its
  record's name in front (\<open>IAP.ID\<close>, \<open>validateIAPOptions.AppID\<close>).

  \<open>validation.IAP\<close>, \<open>validation.Subscription\<close> and the two inputs of package
  \<open>validation\<close>, as \<open>runValidateIAP\<close> and \<open>runValidateSubscriptions\<close> fill them.
\<close>

record IAP =
  ID :: string
  Name :: string
  ProductID :: string
  Type :: string
  State :: string

record Subscription =
  ID :: string
  Name :: string
  ProductID :: string
  State :: string
  GroupID :: string

record IAPInput =
  AppID :: string
  IAPs :: "IAP list"

record SubscriptionsInput =
  AppID :: string
  Subscriptions :: "Subscription list"

record validateIAPOptions =
  AppID :: string
  Strict :: bool
  Output :: string
  Pretty :: bool

record validateSubscriptionsOptions =
  AppID :: string
  Strict :: bool
  Output :: string
  Pretty :: bool

text \<open>The attributes of the API's in-app purchases and subscriptions that are read.\<close>

record InAppPurchaseV2Attributes =
  Name :: string
  ProductID :: string
  InAppPurchaseType :: string
  State :: string

record SubscriptionAttributes =
  Name :: string
  ProductID :: string
  State :: string

section \<open>Records of the status dashboard\<close>

text \<open>
  The sections of \<open>dashboardResponse\<close>, with the field names of the source; a field of
  this section is written with its record's name in front. A section that is a \<open>nil\<close>
  pointer is \<open>None\<close>.
\<close>

record includeSet =
  builds :: bool
  testflight :: bool
  appstore :: bool
  submission :: bool
  review :: bool
  phasedRelease :: bool
  links :: bool

record statusApp =
  ID :: string
  BundleID :: string
  Name :: string

record latestBuild =
  ID :: string
  Version :: string
  BuildNumber :: string
  ProcessingState :: string
  UploadedDate :: string
  Platform :: string

record buildsSection =
  Latest :: "latestBuild option"

record testFlightSection =
  LatestDistributedBuildID :: string
  BetaReviewState :: string
  ExternalBuildState :: string
  SubmittedDate :: string

record appStoreSection =
  VersionID :: string
  Version :: string
  State :: string
  Platform :: string
  CreatedDate :: string

record submissionSection =
  InFlight :: bool
  BlockingIssues :: "string list"

record reviewSection =
  LatestSubmissionID :: string
  State :: string
  SubmittedDate :: string
  Platform :: string

record phasedReleaseSection =
  Configured :: bool
  ID :: string
  State :: string
  StartDate :: string
  CurrentDayNumber :: int
  TotalPauseDuration :: int

record linksSection =
  AppStoreConnect :: string
  TestFlight :: string
  Review :: string

record dashboardResponse =
  App :: statusApp
  Builds :: "buildsSection option"
  TestFlight :: "testFlightSection option"
  AppStore :: "appStoreSection option"
  Submission :: "submissionSection option"
  Review :: "reviewSection option"
  PhasedRelease :: "phasedReleaseSection option"
  Links :: "linksSection option"

text \<open>The attributes of an app and of a phased release that \<open>status\<close> reads.\<close>

record AppAttributes =
  BundleID :: string
  Name :: string

record AppStoreVersionPhasedReleaseAttributes =
  PhasedReleaseState :: string
  StartDate :: string
  CurrentDayNumber :: int
  TotalPauseDuration :: int

section \<open>Resources and the latest-item selector (status dashboard)\<close>

text \<open>
  Go strings are byte sequences and are compared bytewise with \<open><\<close>, \<open>>\<close> and
  \<open>==\<close>; \<^typ>\<open>string\<close> with the lexicographic order of \<open>List_Lexorder\<close> over the
  byte order of \<open>Char_ord\<close> is that comparison.

  \<open>asc.Resource[T]\<close> is a resource identifier with typed attributes.
\<close>

record 'a Resource =
  ID :: string
  Attributes :: 'a

text \<open>
  The attributes of an App Store version: the platform, the version string, the date the
  selector compares, and the \<open>appVersionState\<close> attribute of the test fixtures. The
  struct itself is declared in package \<open>asc\<close>; only what the code below reads is kept.
\<close>

record AppStoreVersionAttributes =
  Platform :: string
  VersionString :: string
  CreatedDate :: string
  AppVersionState :: string

text \<open>
  The loop of \<open>selectLatestAppStoreVersion\<close> over \<open>versions[1:]\<close>, with the running
  \<open>best\<close> as its accumulator: a strictly later date replaces \<open>best\<close> (and
  \<open>continue\<close>s); an equal date with a greater identifier replaces it too.
\<close>

fun selectLatestAppStoreVersion_loop ::
  "AppStoreVersionAttributes Resource \<Rightarrow> AppStoreVersionAttributes Resource list
    \<Rightarrow> AppStoreVersionAttributes Resource" where
  "selectLatestAppStoreVersion_loop best [] = best"
| "selectLatestAppStoreVersion_loop best (current # rest) =
     (if CreatedDate (Attributes current) > CreatedDate (Attributes best)
      then selectLatestAppStoreVersion_loop current rest
      else if CreatedDate (Attributes current) = CreatedDate (Attributes best) \<and> ID current > ID best
      then selectLatestAppStoreVersion_loop current rest
      else selectLatestAppStoreVersion_loop best rest)"

text \<open>
  \<open>selectLatestAppStoreVersion\<close>: \<open>nil\<close> for the empty slice, otherwise a pointer to a
  copy of the selected element. The slice is only read.
\<close>

definition selectLatestAppStoreVersion ::
  "AppStoreVersionAttributes Resource list \<Rightarrow> AppStoreVersionAttributes Resource option" where
  "selectLatestAppStoreVersion versions =
     (case versions of
        [] \<Rightarrow> None
      | first # rest \<Rightarrow> Some (selectLatestAppStoreVersion_loop first rest))"

section \<open>The API client\<close>

text \<open>
  The commands reach App Store Connect through client methods only. A run is modelled with
  the list of the requests it has issued so far, oldest first; every client method is a
  function of that list and of its arguments, so the service may answer the same request
  differently at different moments (as the tests' transports do, which count requests), and
  the number and the order of the requests a command issues can be stated.
\<close>

datatype page_query = WithLimit nat | WithNextURL string

datatype request =
    ReqAppStoreVersion string
  | ReqAppStoreVersionBuild string
  | ReqAppStoreVersionLocalizations string nat
  | ReqAppScreenshotSets string
  | ReqAppScreenshots string
  | ReqAppInfos string
  | ReqAppInfoLocalizations string nat
  | ReqAgeRatingDeclaration string
  | ReqInAppPurchasesV2 string page_query
  | ReqSubscriptionGroups string page_query
  | ReqSubscriptions string page_query

text \<open>A response document: its \<open>data\<close>. A page of a collection adds \<open>links.next\<close>.\<close>

record 'a Response =
  Data :: 'a

record 'a Page = "'a list Response" +
  Links_Next :: string

record LocaleAttributes =
  Locale :: string

record AppStoreVersionLocalizationAttributes = LocaleAttributes +
  Description :: string
  Keywords :: string

record AppInfoLocalizationAttributes = LocaleAttributes +
  Name :: string
  PrivacyPolicyURL :: string

record AppScreenshotSetAttributes =
  ScreenshotDisplayType :: string

text \<open>
  The methods of \<open>*asc.Client\<close> that \<open>submit validate\<close> calls. The build and the age
  rating declaration are fetched for their existence alone, and screenshots and app infos
  for their number and identifiers.
\<close>

record asc_client =
  GetAppStoreVersion ::
    "request list \<Rightarrow> string \<Rightarrow> go_error + AppStoreVersionAttributes Resource Response"
  GetAppStoreVersionBuild ::
    "request list \<Rightarrow> string \<Rightarrow> go_error + unit Resource Response"
  GetAppStoreVersionLocalizations ::
    "request list \<Rightarrow> string \<Rightarrow> nat
      \<Rightarrow> go_error + AppStoreVersionLocalizationAttributes Resource list Response"
  GetAppScreenshotSets ::
    "request list \<Rightarrow> string \<Rightarrow> go_error + AppScreenshotSetAttributes Resource list Response"
  GetAppScreenshots ::
    "request list \<Rightarrow> string \<Rightarrow> go_error + unit Resource list Response"
  GetAppInfos ::
    "request list \<Rightarrow> string \<Rightarrow> go_error + unit Resource list Response"
  GetAppInfoLocalizations ::
    "request list \<Rightarrow> string \<Rightarrow> nat
      \<Rightarrow> go_error + AppInfoLocalizationAttributes Resource list Response"
  GetAgeRatingDeclarationForAppStoreVersion ::
    "request list \<Rightarrow> string \<Rightarrow> go_error + unit Resource Response"

section \<open>The readiness validator (\<open>submit validate\<close>)\<close>

record SubmitValidateIssue =
  Check :: string
  Severity :: string
  Message :: string

text \<open>
  \<open>ErrorCount\<close> and \<open>WarnCount\<close> are Go \<open>int\<close>s that count the issues of a slice held
  in memory; they are far from the 64-bit bound, and are modelled as integers.
\<close>

record SubmitValidateResult =
  AppID :: string
  VersionID :: string
  Platform :: string
  Issues :: "SubmitValidateIssue list"
  ErrorCount :: int
  WarnCount :: int
  Ready :: bool

definition addError :: "string \<Rightarrow> string \<Rightarrow> SubmitValidateResult \<Rightarrow> SubmitValidateResult" where
  "addError check message r =
     r\<lparr>Issues := Issues r @ [\<lparr>Check = check, Severity = ''error'', Message = message\<rparr>],
       ErrorCount := ErrorCount r + 1\<rparr>"

definition addWarning :: "string \<Rightarrow> string \<Rightarrow> SubmitValidateResult \<Rightarrow> SubmitValidateResult" where
  "addWarning check message r =
     r\<lparr>Issues := Issues r @ [\<lparr>Check = check, Severity = ''warning'', Message = message\<rparr>],
       WarnCount := WarnCount r + 1\<rparr>"

definition isEditableState :: "string \<Rightarrow> bool" where
  "isEditableState state \<longleftrightarrow>
     ToUpper state \<in> set [''PREPARE_FOR_SUBMISSION'', ''DEVELOPER_REJECTED'', ''REJECTED'',
       ''METADATA_REJECTED'', ''INVALID_BINARY'', ''DEVELOPER_REMOVED_FROM_SALE'']"

text \<open>
  Every check takes the requests issued so far and the running result, and returns both,
  updated: the Go code appends to \<open>*result\<close> in place.
\<close>

type_synonym run_state = "request list \<times> SubmitValidateResult"

definition checkBuildAttached :: "asc_client \<Rightarrow> string \<Rightarrow> run_state \<Rightarrow> run_state" where
  "checkBuildAttached client versionID st =
     (case st of (log, result) \<Rightarrow>
        (case GetAppStoreVersionBuild client log versionID of
           Inl err \<Rightarrow>
             (log @ [ReqAppStoreVersionBuild versionID],
              if IsNotFound err
              then addError ''build'' ''no build attached to this version'' result
              else addWarning ''build'' (''unable to check build: '' @ Error err) result)
         | Inr _ \<Rightarrow> (log @ [ReqAppStoreVersionBuild versionID], result)))"

text \<open>The body of the loop of \<open>checkScreenshots\<close> over the screenshot sets.\<close>

definition checkScreenshots_set ::
  "asc_client \<Rightarrow> string \<Rightarrow> AppScreenshotSetAttributes Resource \<Rightarrow> run_state \<Rightarrow> run_state" where
  "checkScreenshots_set client locale aset st =
     (case st of (log, result) \<Rightarrow>
        (case GetAppScreenshots client log (ID aset) of
           Inl err \<Rightarrow>
             (log @ [ReqAppScreenshots (ID aset)],
              addWarning ''screenshots''
                (''locale '' @ locale @ '' ('' @ ScreenshotDisplayType (Attributes aset)
                   @ ''): unable to check: '' @ Error err) result)
         | Inr screenshots \<Rightarrow>
             (log @ [ReqAppScreenshots (ID aset)],
              if length (Data screenshots) = 0
              then addWarning ''screenshots''
                (''locale '' @ locale @ '' ('' @ ScreenshotDisplayType (Attributes aset)
                   @ ''): empty screenshot set'') result
              else result)))"

definition checkScreenshots :: "asc_client \<Rightarrow> string \<Rightarrow> string \<Rightarrow> run_state \<Rightarrow> run_state" where
  "checkScreenshots client localizationID locale st =
     (case st of (log, result) \<Rightarrow>
        (case GetAppScreenshotSets client log localizationID of
           Inl err \<Rightarrow>
             (log @ [ReqAppScreenshotSets localizationID],
              addWarning ''screenshots''
                (''locale '' @ locale @ '': unable to check screenshots: '' @ Error err) result)
         | Inr sets \<Rightarrow>
             if length (Data sets) = 0
             then (log @ [ReqAppScreenshotSets localizationID],
                   addError ''screenshots''
                     (''locale '' @ locale @ '': no screenshot sets found'') result)
             else fold (checkScreenshots_set client locale) (Data sets)
                    (log @ [ReqAppScreenshotSets localizationID], result)))"

text \<open>The body of the loop of \<open>checkVersionLocalizations\<close> over the localizations.\<close>

definition checkVersionLocalizations_loc ::
  "asc_client \<Rightarrow> AppStoreVersionLocalizationAttributes Resource \<Rightarrow> run_state \<Rightarrow> run_state" where
  "checkVersionLocalizations_loc client loc st =
     (case st of (log, result) \<Rightarrow>
        (let locale = Locale (Attributes loc);
             result1 = (if TrimSpace (Description (Attributes loc)) = ''''
                        then addError ''description''
                               (''locale '' @ locale @ '': description is empty'') result
                        else result);
             result2 = (if TrimSpace (Keywords (Attributes loc)) = ''''
                        then addWarning ''keywords''
                               (''locale '' @ locale @ '': keywords are empty'') result1
                        else result1)
         in checkScreenshots client (ID loc) locale (log, result2)))"

definition checkVersionLocalizations :: "asc_client \<Rightarrow> string \<Rightarrow> run_state \<Rightarrow> run_state" where
  "checkVersionLocalizations client versionID st =
     (case st of (log, result) \<Rightarrow>
        (case GetAppStoreVersionLocalizations client log versionID 200 of
           Inl err \<Rightarrow>
             (log @ [ReqAppStoreVersionLocalizations versionID 200],
              addWarning ''version_localizations'' (''unable to fetch: '' @ Error err) result)
         | Inr resp \<Rightarrow>
             if length (Data resp) = 0
             then (log @ [ReqAppStoreVersionLocalizations versionID 200],
                   addError ''version_localizations'' ''no version localizations found'' result)
             else fold (checkVersionLocalizations_loc client) (Data resp)
                    (log @ [ReqAppStoreVersionLocalizations versionID 200], result)))"

text \<open>The body of the loop of \<open>checkAppInfoLocalizations\<close>; it issues no request.\<close>

definition checkAppInfoLocalizations_loc ::
  "AppInfoLocalizationAttributes Resource \<Rightarrow> SubmitValidateResult \<Rightarrow> SubmitValidateResult" where
  "checkAppInfoLocalizations_loc loc result =
     (let locale = Locale (Attributes loc);
          result1 = (if TrimSpace (Name (Attributes loc)) = ''''
                     then addError ''name'' (''locale '' @ locale @ '': app name is empty'') result
                     else result)
      in if TrimSpace (PrivacyPolicyURL (Attributes loc)) = ''''
         then addWarning ''privacy_policy_url''
                (''locale '' @ locale @ '': privacy policy URL is empty'') result1
         else result1)"

definition checkAppInfoLocalizations :: "asc_client \<Rightarrow> string \<Rightarrow> run_state \<Rightarrow> run_state" where
  "checkAppInfoLocalizations client appID st =
     (case st of (log, result) \<Rightarrow>
        (case GetAppInfos client log appID of
           Inl err \<Rightarrow>
             (log @ [ReqAppInfos appID],
              addWarning ''app_info'' (''unable to fetch app info: '' @ Error err) result)
         | Inr appInfoResp \<Rightarrow>
             (case Data appInfoResp of
                [] \<Rightarrow> (log @ [ReqAppInfos appID],
                        addError ''app_info'' ''no app info records found'' result)
              | info # _ \<Rightarrow>
                  (let appInfoID = ID info;
                       log1 = log @ [ReqAppInfos appID]
                   in case GetAppInfoLocalizations client log1 appInfoID 200 of
                        Inl err \<Rightarrow>
                          (log1 @ [ReqAppInfoLocalizations appInfoID 200],
                           addWarning ''app_info_localizations''
                             (''unable to fetch: '' @ Error err) result)
                      | Inr locs \<Rightarrow>
                          if length (Data locs) = 0
                          then (log1 @ [ReqAppInfoLocalizations appInfoID 200],
                                addError ''app_info_localizations''
                                  ''no app info localizations found'' result)
                          else (log1 @ [ReqAppInfoLocalizations appInfoID 200],
                                fold checkAppInfoLocalizations_loc (Data locs) result)))))"

definition checkAgeRating :: "asc_client \<Rightarrow> string \<Rightarrow> run_state \<Rightarrow> run_state" where
  "checkAgeRating client versionID st =
     (case st of (log, result) \<Rightarrow>
        (case GetAgeRatingDeclarationForAppStoreVersion client log versionID of
           Inl err \<Rightarrow>
             (log @ [ReqAgeRatingDeclaration versionID],
              if IsNotFound err
              then addError ''age_rating'' ''no age rating declaration found'' result
              else addWarning ''age_rating'' (''unable to check: '' @ Error err) result)
         | Inr _ \<Rightarrow> (log @ [ReqAgeRatingDeclaration versionID], result)))"

text \<open>
  \<open>runValidation\<close>. \<open>shared.ResolveAppStoreVersionState\<close> is declared in package
  \<open>shared\<close> and is a parameter here: any function from the version's attributes to its
  state. The first component of the result is the list of the requests issued.
\<close>

definition runValidation ::
  "asc_client \<Rightarrow> (AppStoreVersionAttributes \<Rightarrow> string) \<Rightarrow> request list
    \<Rightarrow> string \<Rightarrow> string \<Rightarrow> string \<Rightarrow> run_state" where
  "runValidation client ResolveAppStoreVersionState log appID versionID platform =
     (let result = \<lparr>AppID = appID, VersionID = versionID, Platform = platform,
                     Issues = [], ErrorCount = 0, WarnCount = 0, Ready = False\<rparr>
      in case GetAppStoreVersion client log versionID of
           Inl err \<Rightarrow>
             (log @ [ReqAppStoreVersion versionID],
              addError ''version'' (''failed to fetch version: '' @ Error err) result)
         | Inr versionResp \<Rightarrow>
             (let state = ResolveAppStoreVersionState (Attributes (Data versionResp));
                  st0 = (log @ [ReqAppStoreVersion versionID],
                         if \<not> isEditableState state
                         then addError ''version_state''
                                (''version is in non-editable state: '' @ state) result
                         else result);
                  st1 = checkBuildAttached client versionID st0;
                  st2 = checkVersionLocalizations client versionID st1;
                  st3 = checkAppInfoLocalizations client appID st2;
                  st4 = checkAgeRating client versionID st3
              in (fst st4, (snd st4)\<lparr>Ready := (ErrorCount (snd st4) = 0)\<rparr>)))"

section \<open>The paginated traversals of \<open>validate iap\<close> and \<open>validate subscriptions\<close>\<close>

text \<open>
  The client that \<open>clientFactory\<close> returns: each method fetches one page of a
  collection, either the first one with a page-size limit or the one a next-page link
  points to.
\<close>

record validate_client =
  GetInAppPurchasesV2 ::
    "request list \<Rightarrow> string \<Rightarrow> page_query \<Rightarrow> go_error + InAppPurchaseV2Attributes Resource Page"
  GetSubscriptionGroups ::
    "request list \<Rightarrow> string \<Rightarrow> page_query \<Rightarrow> go_error + unit Resource Page"
  GetSubscriptions ::
    "request list \<Rightarrow> string \<Rightarrow> page_query \<Rightarrow> go_error + SubscriptionAttributes Resource Page"

text \<open>
  What the commands use and this repository's sources do not hold: the client factory,
  the validators of package \<open>validation\<close> with the \<open>Summary.Blocking\<close> count of their
  report, and \<open>shared.PrintOutput\<close>. They are parameters; \<open>'r\<close> is the type of a report.
\<close>

record 'r externals =
  clientFactory :: "go_error + validate_client"
  ValidateIAP :: "IAPInput \<Rightarrow> bool \<Rightarrow> 'r"
  ValidateSubscriptions :: "SubscriptionsInput \<Rightarrow> bool \<Rightarrow> 'r"
  SummaryBlocking :: "'r \<Rightarrow> int"
  PrintOutput :: "'r \<Rightarrow> string \<Rightarrow> bool \<Rightarrow> go_error option"

text \<open>
  What a command run leaves: the requests issued, the reports handed to
  \<open>shared.PrintOutput\<close>, and the error returned (\<open>None\<close> for \<open>nil\<close>).
\<close>

record 'r outcome =
  Requests :: "request list"
  Reports :: "'r list"
  Returned :: "go_error option"

definition pageLimit :: nat where
  "pageLimit = 200"

definition toIAP :: "InAppPurchaseV2Attributes Resource \<Rightarrow> IAP" where
  "toIAP item =
     \<lparr>IAP.ID = Resource.ID item,
      IAP.Name = InAppPurchaseV2Attributes.Name (Attributes item),
      IAP.ProductID = InAppPurchaseV2Attributes.ProductID (Attributes item),
      IAP.Type = InAppPurchaseType (Attributes item),
      IAP.State = InAppPurchaseV2Attributes.State (Attributes item)\<rparr>"

text \<open>
  The \<open>for\<close> loop of \<open>runValidateIAP\<close>, entered with the requests issued so far, the
  current \<open>nextURL\<close> and the accumulated \<open>iaps\<close>. The loop has no bound: it runs for as
  long as the service returns next-page links, and \<open>None\<close> is the run that never ends.
\<close>

partial_function (option) runValidateIAP_loop ::
  "validate_client \<Rightarrow> string \<Rightarrow> request list \<Rightarrow> string \<Rightarrow> IAP list
    \<Rightarrow> (request list \<times> (go_error + IAP list)) option" where
  "runValidateIAP_loop client appID log nextURL iaps =
     (let query = (if TrimSpace nextURL \<noteq> '''' then WithNextURL nextURL else WithLimit pageLimit)
      in case GetInAppPurchasesV2 client log appID query of
           Inl err \<Rightarrow>
             Some (log @ [ReqInAppPurchasesV2 appID query],
                   Inl (Wrapped ''validate iap: failed to fetch in-app purchases'' err))
         | Inr resp \<Rightarrow>
             (let iaps1 = iaps @ map toIAP (Data resp);
                  nextURL1 = TrimSpace (Links_Next resp)
              in if nextURL1 = ''''
                 then Some (log @ [ReqInAppPurchasesV2 appID query], Inr iaps1)
                 else runValidateIAP_loop client appID
                        (log @ [ReqInAppPurchasesV2 appID query]) nextURL1 iaps1))"

declare runValidateIAP_loop.simps [code]

definition runValidateIAP ::
  "'r externals \<Rightarrow> request list \<Rightarrow> validateIAPOptions \<Rightarrow> 'r outcome option" where
  "runValidateIAP ext log opts =
     (case clientFactory ext of
        Inl err \<Rightarrow>
          Some \<lparr>Requests = log, Reports = [], Returned = Some (Wrapped ''validate iap'' err)\<rparr>
      | Inr client \<Rightarrow>
          (case runValidateIAP_loop client (validateIAPOptions.AppID opts) log '''' [] of
             None \<Rightarrow> None
           | Some (log1, Inl err) \<Rightarrow>
               Some \<lparr>Requests = log1, Reports = [], Returned = Some err\<rparr>
           | Some (log1, Inr iaps) \<Rightarrow>
               (let report = ValidateIAP ext
                      \<lparr>IAPInput.AppID = validateIAPOptions.AppID opts, IAPs = iaps\<rparr>
                      (validateIAPOptions.Strict opts)
                in case PrintOutput ext report (validateIAPOptions.Output opts)
                          (validateIAPOptions.Pretty opts) of
                     Some err \<Rightarrow>
                       Some \<lparr>Requests = log1, Reports = [report], Returned = Some err\<rparr>
                   | None \<Rightarrow>
                       if SummaryBlocking ext report > 0
                       then Some \<lparr>Requests = log1, Reports = [report],
                              Returned = Some (ReportedError (Errorf
                                (''validate iap: found '' @ Itoa (SummaryBlocking ext report)
                                   @ '' blocking issue(s)'')))\<rparr>
                       else Some \<lparr>Requests = log1, Reports = [report], Returned = None\<rparr>)))"

text \<open>
  The first loop of \<open>runValidateSubscriptions\<close>, over the pages of subscription groups;
  a group whose identifier is blank is skipped.
\<close>

partial_function (option) runValidateSubscriptions_groups ::
  "validate_client \<Rightarrow> string \<Rightarrow> request list \<Rightarrow> string \<Rightarrow> string list
    \<Rightarrow> (request list \<times> (go_error + string list)) option" where
  "runValidateSubscriptions_groups client appID log nextGroupsURL groupIDs =
     (let query = (if TrimSpace nextGroupsURL \<noteq> ''''
                   then WithNextURL nextGroupsURL else WithLimit pageLimit)
      in case GetSubscriptionGroups client log appID query of
           Inl err \<Rightarrow>
             Some (log @ [ReqSubscriptionGroups appID query],
                   Inl (Wrapped ''validate subscriptions: failed to fetch subscription groups'' err))
         | Inr groupsResp \<Rightarrow>
             (let groupIDs1 = groupIDs @
                    map Resource.ID
                      (filter (\<lambda>group. TrimSpace (Resource.ID group) \<noteq> '''') (Data groupsResp));
                  nextGroupsURL1 = TrimSpace (Links_Next groupsResp)
              in if nextGroupsURL1 = ''''
                 then Some (log @ [ReqSubscriptionGroups appID query], Inr groupIDs1)
                 else runValidateSubscriptions_groups client appID
                        (log @ [ReqSubscriptionGroups appID query]) nextGroupsURL1 groupIDs1))"

declare runValidateSubscriptions_groups.simps [code]

definition toSubscription :: "string \<Rightarrow> SubscriptionAttributes Resource \<Rightarrow> Subscription" where
  "toSubscription groupID sub =
     \<lparr>Subscription.ID = Resource.ID sub,
      Subscription.Name = SubscriptionAttributes.Name (Attributes sub),
      Subscription.ProductID = SubscriptionAttributes.ProductID (Attributes sub),
      Subscription.State = SubscriptionAttributes.State (Attributes sub),
      Subscription.GroupID = groupID\<rparr>"

text \<open>The inner loop of \<open>runValidateSubscriptions\<close>, over the pages of one group.\<close>

partial_function (option) runValidateSubscriptions_subs ::
  "validate_client \<Rightarrow> string \<Rightarrow> request list \<Rightarrow> string \<Rightarrow> Subscription list
    \<Rightarrow> (request list \<times> (go_error + Subscription list)) option" where
  "runValidateSubscriptions_subs client groupID log nextSubsURL subs =
     (let query = (if TrimSpace nextSubsURL \<noteq> ''''
                   then WithNextURL nextSubsURL else WithLimit pageLimit)
      in case GetSubscriptions client log groupID query of
           Inl err \<Rightarrow>
             Some (log @ [ReqSubscriptions groupID query],
                   Inl (Wrapped (''validate subscriptions: failed to fetch subscriptions for group ''
                                  @ groupID) err))
         | Inr subsResp \<Rightarrow>
             (let subs1 = subs @ map (toSubscription groupID) (Data subsResp);
                  nextSubsURL1 = TrimSpace (Links_Next subsResp)
              in if nextSubsURL1 = ''''
                 then Some (log @ [ReqSubscriptions groupID query], Inr subs1)
                 else runValidateSubscriptions_subs client groupID
                        (log @ [ReqSubscriptions groupID query]) nextSubsURL1 subs1))"

declare runValidateSubscriptions_subs.simps [code]

text \<open>The loop of \<open>runValidateSubscriptions\<close> over the group identifiers.\<close>

fun runValidateSubscriptions_each ::
  "validate_client \<Rightarrow> string list \<Rightarrow> request list \<Rightarrow> Subscription list
    \<Rightarrow> (request list \<times> (go_error + Subscription list)) option" where
  "runValidateSubscriptions_each client [] log subs = Some (log, Inr subs)"
| "runValidateSubscriptions_each client (groupID # rest) log subs =
     (case runValidateSubscriptions_subs client groupID log '''' subs of
        None \<Rightarrow> None
      | Some (log1, Inl err) \<Rightarrow> Some (log1, Inl err)
      | Some (log1, Inr subs1) \<Rightarrow> runValidateSubscriptions_each client rest log1 subs1)"

definition runValidateSubscriptions ::
  "'r externals \<Rightarrow> request list \<Rightarrow> validateSubscriptionsOptions \<Rightarrow> 'r outcome option" where
  "runValidateSubscriptions ext log opts =
     (case clientFactory ext of
        Inl err \<Rightarrow>
          Some \<lparr>Requests = log, Reports = [],
                 Returned = Some (Wrapped ''validate subscriptions'' err)\<rparr>
      | Inr client \<Rightarrow>
          (case runValidateSubscriptions_groups client
                  (validateSubscriptionsOptions.AppID opts) log '''' [] of
             None \<Rightarrow> None
           | Some (log1, Inl err) \<Rightarrow>
               Some \<lparr>Requests = log1, Reports = [], Returned = Some err\<rparr>
           | Some (log1, Inr groupIDs) \<Rightarrow>
               (case runValidateSubscriptions_each client groupIDs log1 [] of
                  None \<Rightarrow> None
                | Some (log2, Inl err) \<Rightarrow>
                    Some \<lparr>Requests = log2, Reports = [], Returned = Some err\<rparr>
                | Some (log2, Inr subs) \<Rightarrow>
                    (let report = ValidateSubscriptions ext
                           \<lparr>SubscriptionsInput.AppID = validateSubscriptionsOptions.AppID opts,
                            Subscriptions = subs\<rparr>
                           (validateSubscriptionsOptions.Strict opts)
                     in case PrintOutput ext report (validateSubscriptionsOptions.Output opts)
                               (validateSubscriptionsOptions.Pretty opts) of
                          Some err \<Rightarrow>
                            Some \<lparr>Requests = log2, Reports = [report], Returned = Some err\<rparr>
                        | None \<Rightarrow>
                            if SummaryBlocking ext report > 0
                            then Some \<lparr>Requests = log2, Reports = [report],
                                   Returned = Some (ReportedError (Errorf
                                     (''validate subscriptions: found ''
                                        @ Itoa (SummaryBlocking ext report)
                                        @ '' blocking issue(s)'')))\<rparr>
                            else Some \<lparr>Requests = log2, Reports = [report],
                                   Returned = None\<rparr>))))"

section \<open>The section aggregator of the status dashboard\<close>

text \<open>
  A section task: a name and a closure. The closures of \<open>collectDashboard\<close> write to
  the snapshot \<open>resp\<close> they share and return an error or \<open>nil\<close>, so a closure is a
  function from the snapshot to an optional error and the snapshot as the task leaves it.
  \<open>'w\<close> is the type of what the closures share.
\<close>

record 'w sectionTask =
  name :: string
  run :: "'w \<Rightarrow> go_error option \<times> 'w"

text \<open>
  What one goroutine of \<open>runTasks\<close> does once it holds a slot of the semaphore: it runs
  the task and, when the task fails, sends the error wrapped with the task's name to
  \<open>errCh\<close>. The channel has room for one error per task, so the send never waits.
\<close>

definition runTasks_goroutine ::
  "'w sectionTask list \<Rightarrow> nat \<Rightarrow> go_error list \<times> 'w \<Rightarrow> go_error list \<times> 'w" where
  "runTasks_goroutine tasks i st =
     (case st of (errCh, w) \<Rightarrow>
        (case run (tasks ! i) w of
           (None, w1) \<Rightarrow> (errCh, w1)
         | (Some err, w1) \<Rightarrow> (errCh @ [Wrapped (name (tasks ! i)) err], w1)))"

text \<open>
  \<open>runTasks\<close> starts one goroutine per task, waits for all of them and returns the first
  error of \<open>errCh\<close>, or \<open>nil\<close>. The goroutines run side by side; what the function
  returns depends on the scheduling only through the order in which the tasks complete,
  which is the parameter \<open>order\<close>: the indices of the tasks, each once, first completed
  first. The tasks write disjoint fields of what they share and do not read it, so their
  writes are applied in that order. An \<open>order\<close> that is not an arrangement of the tasks'
  indices is no run of the program: the result is \<open>None\<close>. The semaphore bounds how many
  tasks run at once; \<open>limit\<close> does not enter the result.
\<close>

definition runTasks ::
  "'w sectionTask list \<Rightarrow> int \<Rightarrow> nat list \<Rightarrow> 'w \<Rightarrow> (go_error option \<times> 'w) option" where
  "runTasks tasks limit order w =
     (if length tasks = 0 then Some (None, w)
      else if sort order \<noteq> [0..<length tasks] then None
      else (case fold (runTasks_goroutine tasks) order ([], w) of
              ([], w1) \<Rightarrow> Some (None, w1)
            | (err # _, w1) \<Rightarrow> Some (Some err, w1)))"

text \<open>
  The client methods that the modelled part of \<open>status\<close> calls. The sections are fetched
  side by side, so no order of requests is recorded here.
\<close>

record status_client =
  GetApp :: "string \<Rightarrow> go_error + AppAttributes Resource Response"
  GetAppStoreVersions ::
    "string \<Rightarrow> nat \<Rightarrow> go_error + AppStoreVersionAttributes Resource list Response"
  GetAppStoreVersionPhasedRelease ::
    "string \<Rightarrow> go_error + AppStoreVersionPhasedReleaseAttributes Resource Response"

text \<open>
  What \<open>collectDashboard\<close> uses and is taken as a parameter:
  \<open>shared.ResolveAppStoreVersionState\<close>, declared in package \<open>shared\<close>; and the two
  section functions \<open>fillBuildsAndTestFlight\<close> and \<open>fillSubmissionAndReview\<close>, which
  decode JSON relationships and compare states with constants of package \<open>asc\<close>. Each of
  the two is any function of the app identifier, the include set and the snapshot that
  may fail and may update the snapshot.
\<close>

record status_externals =
  ResolveState :: "AppStoreVersionAttributes \<Rightarrow> string"
  fillBuildsAndTestFlight ::
    "string \<Rightarrow> includeSet \<Rightarrow> dashboardResponse \<Rightarrow> go_error option \<times> dashboardResponse"
  fillSubmissionAndReview ::
    "string \<Rightarrow> includeSet \<Rightarrow> dashboardResponse \<Rightarrow> go_error option \<times> dashboardResponse"

definition unconfigured :: phasedReleaseSection where
  "unconfigured = \<lparr>Configured = False, phasedReleaseSection.ID = '''',
     phasedReleaseSection.State = '''', phasedReleaseSection.StartDate = '''',
     phasedReleaseSection.CurrentDayNumber = 0, phasedReleaseSection.TotalPauseDuration = 0\<rparr>"

text \<open>
  \<open>fillAppStoreAndPhasedRelease\<close>. It may set \<open>resp.AppStore\<close> and then fail on the
  phased release: the snapshot it leaves is then partly filled.
\<close>

definition fillAppStoreAndPhasedRelease ::
  "status_client \<Rightarrow> status_externals \<Rightarrow> string \<Rightarrow> includeSet \<Rightarrow> dashboardResponse
    \<Rightarrow> go_error option \<times> dashboardResponse" where
  "fillAppStoreAndPhasedRelease client ext appID includes resp =
     (case GetAppStoreVersions client appID 200 of
        Inl err \<Rightarrow> (Some err, resp)
      | Inr versions \<Rightarrow>
          (let latestVersion = selectLatestAppStoreVersion (Data versions);
               resp1 =
                 (if appstore includes
                  then resp\<lparr>dashboardResponse.AppStore := Some
                         (case latestVersion of
                            None \<Rightarrow>
                              \<lparr>appStoreSection.VersionID = '''', appStoreSection.Version = '''',
                               appStoreSection.State = '''', appStoreSection.Platform = '''',
                               appStoreSection.CreatedDate = ''''\<rparr>
                          | Some v \<Rightarrow>
                              \<lparr>appStoreSection.VersionID = Resource.ID v,
                               appStoreSection.Version = VersionString (Attributes v),
                               appStoreSection.State = ResolveState ext (Attributes v),
                               appStoreSection.Platform =
                                 AppStoreVersionAttributes.Platform (Attributes v),
                               appStoreSection.CreatedDate =
                                 AppStoreVersionAttributes.CreatedDate (Attributes v)\<rparr>)\<rparr>
                  else resp)
           in if \<not> phasedRelease includes then (None, resp1)
              else (case latestVersion of
                      None \<Rightarrow> (None, resp1\<lparr>dashboardResponse.PhasedRelease := Some unconfigured\<rparr>)
                    | Some v \<Rightarrow>
                        (case GetAppStoreVersionPhasedRelease client (Resource.ID v) of
                           Inl phaseErr \<Rightarrow>
                             if \<not> IsNotFound phaseErr then (Some phaseErr, resp1)
                             else (None,
                                   resp1\<lparr>dashboardResponse.PhasedRelease := Some unconfigured\<rparr>)
                         | Inr phaseResp \<Rightarrow>
                             (None, resp1\<lparr>dashboardResponse.PhasedRelease := Some
                                \<lparr>Configured = True,
                                 phasedReleaseSection.ID = Resource.ID (Data phaseResp),
                                 phasedReleaseSection.State =
                                   PhasedReleaseState (Attributes (Data phaseResp)),
                                 phasedReleaseSection.StartDate =
                                   AppStoreVersionPhasedReleaseAttributes.StartDate
                                     (Attributes (Data phaseResp)),
                                 phasedReleaseSection.CurrentDayNumber =
                                   AppStoreVersionPhasedReleaseAttributes.CurrentDayNumber
                                     (Attributes (Data phaseResp)),
                                 phasedReleaseSection.TotalPauseDuration =
                                   AppStoreVersionPhasedReleaseAttributes.TotalPauseDuration
                                     (Attributes (Data phaseResp))\<rparr>\<rparr>)))))"

text \<open>The \<open>tasks\<close> slice that \<open>collectDashboard\<close> builds from the include set.\<close>

definition collectDashboard_tasks ::
  "status_client \<Rightarrow> status_externals \<Rightarrow> string \<Rightarrow> includeSet
    \<Rightarrow> dashboardResponse sectionTask list" where
  "collectDashboard_tasks client ext appID includes =
     (if builds includes \<or> testflight includes
      then [\<lparr>name = ''builds/testflight'', run = fillBuildsAndTestFlight ext appID includes\<rparr>]
      else [])
     @ (if appstore includes \<or> phasedRelease includes
        then [\<lparr>name = ''appstore/phased-release'',
               run = fillAppStoreAndPhasedRelease client ext appID includes\<rparr>]
        else [])
     @ (if submission includes \<or> review includes
        then [\<lparr>name = ''submission/review'', run = fillSubmissionAndReview ext appID includes\<rparr>]
        else [])"

text \<open>The snapshot before the tasks run: the app, and the links when they are included.\<close>

definition collectDashboard_init ::
  "AppAttributes Resource Response \<Rightarrow> string \<Rightarrow> includeSet \<Rightarrow> dashboardResponse" where
  "collectDashboard_init appResp appID includes =
     \<lparr>App = \<lparr>statusApp.ID = Resource.ID (Data appResp),
              statusApp.BundleID = AppAttributes.BundleID (Attributes (Data appResp)),
              statusApp.Name = AppAttributes.Name (Attributes (Data appResp))\<rparr>,
      Builds = None, dashboardResponse.TestFlight = None, AppStore = None, Submission = None,
      dashboardResponse.Review = None, PhasedRelease = None,
      Links = (if links includes
               then Some \<lparr>AppStoreConnect = ''https://appstoreconnect.apple.com/apps/'' @ appID,
                          linksSection.TestFlight =
                            ''https://appstoreconnect.apple.com/apps/'' @ appID @ ''/testflight/ios'',
                          linksSection.Review =
                            ''https://appstoreconnect.apple.com/apps/'' @ appID @ ''/appstore/review''\<rparr>
               else None)\<rparr>"

text \<open>
  \<open>collectDashboard\<close>: \<open>Inl\<close> is the return of \<open>nil\<close> and an error, \<open>Inr\<close> the return
  of the snapshot and \<open>nil\<close>.
\<close>

definition collectDashboard ::
  "status_client \<Rightarrow> status_externals \<Rightarrow> string \<Rightarrow> includeSet \<Rightarrow> nat list
    \<Rightarrow> (go_error + dashboardResponse) option" where
  "collectDashboard client ext appID includes order =
     (case GetApp client appID of
        Inl err \<Rightarrow> Some (Inl err)
      | Inr appResp \<Rightarrow>
          (case runTasks (collectDashboard_tasks client ext appID includes) 3 order
                  (collectDashboard_init appResp appID includes) of
             None \<Rightarrow> None
           | Some (Some err, resp) \<Rightarrow> Some (Inl err)
           | Some (None, resp) \<Rightarrow> Some (Inr resp)))"

section \<open>The latest-item selector returns the latest item\<close>

text \<open>
  The order the selector maximises: by date, and by identifier among equal dates.
\<close>

definition not_later :: "'a AppStoreVersionAttributes_scheme Resource \<Rightarrow>
    'a AppStoreVersionAttributes_scheme Resource \<Rightarrow> bool" where
  "not_later x y \<longleftrightarrow>
     CreatedDate (Attributes x) < CreatedDate (Attributes y)
     \<or> (CreatedDate (Attributes x) = CreatedDate (Attributes y) \<and> ID x \<le> ID y)"

lemma not_later_refl: "not_later x x"
  by (simp add: not_later_def)

lemma not_later_trans: "not_later x y \<Longrightarrow> not_later y z \<Longrightarrow> not_later x z"
  unfolding not_later_def by (elim disjE conjE) (auto dest: less_trans order_trans)

lemma loop_member: "selectLatestAppStoreVersion_loop best xs \<in> set (best # xs)"
  by (induction xs arbitrary: best) (auto split: if_splits)

lemma loop_keeps_best: "not_later best (selectLatestAppStoreVersion_loop best xs)"
proof (induction xs arbitrary: best)
  case Nil
  show ?case by (simp add: not_later_refl)
next
  case (Cons current rest)
  show ?case
  proof (cases "CreatedDate (Attributes current) > CreatedDate (Attributes best)
        \<or> (CreatedDate (Attributes current) = CreatedDate (Attributes best) \<and> ID current > ID best)")
    case True
    then have "not_later best current" by (auto simp: not_later_def)
    moreover have "not_later current (selectLatestAppStoreVersion_loop current rest)"
      by (rule Cons.IH)
    ultimately have "not_later best (selectLatestAppStoreVersion_loop current rest)"
      by (rule not_later_trans)
    with True show ?thesis by auto
  next
    case False
    then show ?thesis using Cons.IH [of best] by auto
  qed
qed

lemma loop_dominates:
  "x \<in> set xs \<Longrightarrow> not_later x (selectLatestAppStoreVersion_loop best xs)"
proof (induction xs arbitrary: best)
  case Nil
  then show ?case by simp
next
  case (Cons current rest)
  show ?case
  proof (cases "CreatedDate (Attributes current) > CreatedDate (Attributes best)
        \<or> (CreatedDate (Attributes current) = CreatedDate (Attributes best) \<and> ID current > ID best)")
    case True
    then have eq: "selectLatestAppStoreVersion_loop best (current # rest)
        = selectLatestAppStoreVersion_loop current rest" by auto
    show ?thesis
    proof (cases "x = current")
      case True
      then show ?thesis unfolding eq by (simp add: loop_keeps_best)
    next
      case False
      with Cons.prems have "x \<in> set rest" by simp
      then show ?thesis unfolding eq by (rule Cons.IH)
    qed
  next
    case False
    then have eq: "selectLatestAppStoreVersion_loop best (current # rest)
        = selectLatestAppStoreVersion_loop best rest" by auto
    show ?thesis
    proof (cases "x = current")
      case True
      from False have "not_later current best" by (auto simp: not_later_def)
      then have "not_later current (selectLatestAppStoreVersion_loop best rest)"
        using loop_keeps_best by (rule not_later_trans)
      with True show ?thesis unfolding eq by simp
    next
      case False
      with Cons.prems have "x \<in> set rest" by simp
      then show ?thesis unfolding eq by (rule Cons.IH)
    qed
  qed
qed

text \<open>
  Claim C4. For every non-empty list the selector returns an element of the list whose
  date string is maximal, and whose identifier is maximal among the elements with that
  date; for the empty list it returns the absent value \<open>None\<close>, which is not an error.
  The selector is a function of the list alone and returns a copy of the chosen element:
  the input is read, never written or reordered.
\<close>

theorem selectLatestAppStoreVersion_latest:
  "selectLatestAppStoreVersion [] = None \<and>
   (versions \<noteq> [] \<longrightarrow>
      (\<exists>best. selectLatestAppStoreVersion versions = Some best
         \<and> best \<in> set versions
         \<and> (\<forall>x \<in> set versions. CreatedDate (Attributes x) \<le> CreatedDate (Attributes best))
         \<and> (\<forall>x \<in> set versions.
               CreatedDate (Attributes x) = CreatedDate (Attributes best) \<longrightarrow> ID x \<le> ID best)))"
proof (intro conjI impI)
  show "selectLatestAppStoreVersion [] = None"
    by (simp add: selectLatestAppStoreVersion_def)
next
  assume "versions \<noteq> []"
  then obtain first rest where vs: "versions = first # rest"
    by (cases versions) auto
  define best where "best = selectLatestAppStoreVersion_loop first rest"
  have sel: "selectLatestAppStoreVersion versions = Some best"
    by (simp add: selectLatestAppStoreVersion_def vs best_def)
  have mem: "best \<in> set versions"
    unfolding best_def vs by (rule loop_member)
  have dom: "not_later x best" if "x \<in> set versions" for x
  proof (cases "x = first")
    case True
    then show ?thesis unfolding best_def by (simp add: loop_keeps_best)
  next
    case False
    with that vs have "x \<in> set rest" by simp
    then show ?thesis unfolding best_def by (rule loop_dominates)
  qed
  have date: "\<forall>x \<in> set versions. CreatedDate (Attributes x) \<le> CreatedDate (Attributes best)"
  proof
    fix x assume "x \<in> set versions"
    then have "not_later x best" by (rule dom)
    then show "CreatedDate (Attributes x) \<le> CreatedDate (Attributes best)"
      by (auto simp: not_later_def)
  qed
  have ident: "\<forall>x \<in> set versions.
      CreatedDate (Attributes x) = CreatedDate (Attributes best) \<longrightarrow> ID x \<le> ID best"
  proof
    fix x assume "x \<in> set versions"
    then have "not_later x best" by (rule dom)
    then show "CreatedDate (Attributes x) = CreatedDate (Attributes best) \<longrightarrow> ID x \<le> ID best"
      by (auto simp: not_later_def)
  qed
  show "\<exists>best. selectLatestAppStoreVersion versions = Some best
         \<and> best \<in> set versions
         \<and> (\<forall>x \<in> set versions. CreatedDate (Attributes x) \<le> CreatedDate (Attributes best))
         \<and> (\<forall>x \<in> set versions.
               CreatedDate (Attributes x) = CreatedDate (Attributes best) \<longrightarrow> ID x \<le> ID best)"
    using sel mem date ident by blast
qed

text \<open>
  The tie of \<open>TestSelectLatestAppStoreVersion_DeterministicTieBreak\<close>: two versions
  created at the same instant, \<open>ver-1\<close> and \<open>ver-2\<close>; the selection is \<open>ver-2\<close>.
\<close>

definition tie_versions :: "AppStoreVersionAttributes Resource list" where
  "tie_versions =
     [\<lparr>ID = ''ver-1'', Attributes = \<lparr>AppStoreVersionAttributes.Platform = ''IOS'', VersionString = '''',
          CreatedDate = ''2026-02-20T00:00:00Z'', AppVersionState = ''''\<rparr>\<rparr>,
      \<lparr>ID = ''ver-2'', Attributes = \<lparr>AppStoreVersionAttributes.Platform = ''IOS'', VersionString = '''',
          CreatedDate = ''2026-02-20T00:00:00Z'', AppVersionState = ''''\<rparr>\<rparr>]"

theorem selectLatestAppStoreVersion_latest_witness:
  "tie_versions \<noteq> []
   \<and> map_option ID (selectLatestAppStoreVersion tie_versions) = Some ''ver-2''
   \<and> (\<exists>best. selectLatestAppStoreVersion tie_versions = Some best \<and> best \<in> set tie_versions)"
proof -
  have ne: "tie_versions \<noteq> []" by (simp add: tie_versions_def)
  have run: "map_option ID (selectLatestAppStoreVersion tie_versions) = Some ''ver-2''"
    by (simp add: tie_versions_def selectLatestAppStoreVersion_def)
  from selectLatestAppStoreVersion_latest [of tie_versions] ne
  have "\<exists>best. selectLatestAppStoreVersion tie_versions = Some best \<and> best \<in> set tie_versions"
    by blast
  with ne run show ?thesis by blast
qed

section \<open>The readiness validator: requests issued, counts and the ready flag\<close>

lemma addError_simps:
  "Issues (addError c m r) = Issues r @ [\<lparr>Check = c, Severity = ''error'', Message = m\<rparr>]"
  "ErrorCount (addError c m r) = ErrorCount r + 1"
  "WarnCount (addError c m r) = WarnCount r"
  "Ready (addError c m r) = Ready r"
  "AppID (addError c m r) = AppID r"
  "VersionID (addError c m r) = VersionID r"
  "Platform (addError c m r) = Platform r"
  by (simp_all add: addError_def)

lemma addWarning_simps:
  "Issues (addWarning c m r) = Issues r @ [\<lparr>Check = c, Severity = ''warning'', Message = m\<rparr>]"
  "ErrorCount (addWarning c m r) = ErrorCount r"
  "WarnCount (addWarning c m r) = WarnCount r + 1"
  "Ready (addWarning c m r) = Ready r"
  "AppID (addWarning c m r) = AppID r"
  "VersionID (addWarning c m r) = VersionID r"
  "Platform (addWarning c m r) = Platform r"
  by (simp_all add: addWarning_def)










text \<open>
  The counters agree with the issue list: \<open>ErrorCount\<close> is the number of issues of
  severity \<open>error\<close>, \<open>WarnCount\<close> the number of severity \<open>warning\<close>.
\<close>

definition counted :: "SubmitValidateResult \<Rightarrow> bool" where
  "counted r \<longleftrightarrow>
     ErrorCount r = int (length (filter (\<lambda>i. Severity i = ''error'') (Issues r)))
     \<and> WarnCount r = int (length (filter (\<lambda>i. Severity i = ''warning'') (Issues r)))"

lemma counted_addError: "counted r \<Longrightarrow> counted (addError c m r)"
  by (simp add: counted_def addError_simps)

lemma counted_addWarning: "counted r \<Longrightarrow> counted (addWarning c m r)"
  by (simp add: counted_def addWarning_simps)

lemma counted_checkBuildAttached:
  "counted (snd st) \<Longrightarrow> counted (snd (checkBuildAttached client v st))"
  by (cases st)
    (simp add: checkBuildAttached_def counted_addError counted_addWarning split: sum.splits)

lemma counted_checkAgeRating:
  "counted (snd st) \<Longrightarrow> counted (snd (checkAgeRating client v st))"
  by (cases st)
    (simp add: checkAgeRating_def counted_addError counted_addWarning split: sum.splits)

lemma counted_checkScreenshots_set:
  "counted (snd st) \<Longrightarrow> counted (snd (checkScreenshots_set client lc aset st))"
  by (cases st)
    (simp add: checkScreenshots_set_def counted_addWarning split: sum.splits)

lemma counted_fold_checkScreenshots_set:
  "counted (snd st) \<Longrightarrow> counted (snd (fold (checkScreenshots_set client lc) sets st))"
  by (induction sets arbitrary: st) (simp_all add: counted_checkScreenshots_set)

lemma counted_checkScreenshots:
  "counted (snd st) \<Longrightarrow> counted (snd (checkScreenshots client lid lc st))"
  by (cases st)
    (simp add: checkScreenshots_def counted_addError counted_addWarning
       counted_fold_checkScreenshots_set split: sum.splits)

lemma counted_checkVersionLocalizations_loc:
  "counted (snd st) \<Longrightarrow> counted (snd (checkVersionLocalizations_loc client loc st))"
  by (cases st)
    (simp add: checkVersionLocalizations_loc_def Let_def counted_addError counted_addWarning
       counted_checkScreenshots)

lemma counted_fold_checkVersionLocalizations_loc:
  "counted (snd st)
    \<Longrightarrow> counted (snd (fold (checkVersionLocalizations_loc client) locs st))"
  by (induction locs arbitrary: st) (simp_all add: counted_checkVersionLocalizations_loc)

lemma counted_checkVersionLocalizations:
  "counted (snd st) \<Longrightarrow> counted (snd (checkVersionLocalizations client v st))"
  by (cases st)
    (simp add: checkVersionLocalizations_def counted_addError counted_addWarning
       counted_fold_checkVersionLocalizations_loc split: sum.splits)

lemma counted_checkAppInfoLocalizations_loc:
  "counted r \<Longrightarrow> counted (checkAppInfoLocalizations_loc loc r)"
  by (simp add: checkAppInfoLocalizations_loc_def Let_def counted_addError counted_addWarning)

lemma counted_fold_checkAppInfoLocalizations_loc:
  "counted r \<Longrightarrow> counted (fold checkAppInfoLocalizations_loc locs r)"
  by (induction locs arbitrary: r) (simp_all add: counted_checkAppInfoLocalizations_loc)

lemma counted_checkAppInfoLocalizations:
  "counted (snd st) \<Longrightarrow> counted (snd (checkAppInfoLocalizations client a st))"
  by (cases st)
    (simp add: checkAppInfoLocalizations_def Let_def counted_addError counted_addWarning
       counted_fold_checkAppInfoLocalizations_loc split: sum.splits list.splits)

lemma counted_Ready_update: "counted (r\<lparr>Ready := b\<rparr>) = counted r"
  by (simp add: counted_def)

lemma counted_runValidation:
  "counted (snd (runValidation client resolve log appID versionID platform))"
proof (cases "GetAppStoreVersion client log versionID")
  case (Inl err)
  then show ?thesis
    by (simp add: runValidation_def counted_def addError_simps)
next
  case (Inr versionResp)
  define result0 where "result0 = \<lparr>AppID = appID, VersionID = versionID, Platform = platform,
    Issues = [], ErrorCount = 0, WarnCount = 0, Ready = False\<rparr>"
  have c0: "counted result0"
    by (simp add: counted_def result0_def)
  define st0 where "st0 = (log @ [ReqAppStoreVersion versionID],
     if \<not> isEditableState (resolve (Attributes (Data versionResp)))
     then addError ''version_state''
            (''version is in non-editable state: '' @ resolve (Attributes (Data versionResp))) result0
     else result0)"
  define st4 where "st4 = checkAgeRating client versionID
      (checkAppInfoLocalizations client appID
        (checkVersionLocalizations client versionID
          (checkBuildAttached client versionID st0)))"
  have "counted (snd st0)"
    using c0 by (simp add: st0_def counted_addError)
  then have c4: "counted (snd st4)"
    unfolding st4_def
    by (intro counted_checkAgeRating counted_checkAppInfoLocalizations
        counted_checkVersionLocalizations counted_checkBuildAttached)
  have "runValidation client resolve log appID versionID platform
      = (fst st4, (snd st4)\<lparr>Ready := (ErrorCount (snd st4) = 0)\<rparr>)"
    using Inr by (simp add: runValidation_def Let_def st4_def st0_def result0_def)
  then show ?thesis
    using c4 by (simp add: counted_Ready_update)
qed

lemma no_errors_iff:
  "counted r \<Longrightarrow> ErrorCount r = 0 \<longleftrightarrow> (\<forall>i \<in> set (Issues r). Severity i \<noteq> ''error'')"
  by (simp add: counted_def filter_empty_conv)

lemma runValidation_Ready:
  "Ready (snd (runValidation client resolve log appID versionID platform))
    \<longleftrightarrow> ErrorCount (snd (runValidation client resolve log appID versionID platform)) = 0"
  by (cases "GetAppStoreVersion client log versionID")
    (simp_all add: runValidation_def Let_def addError_simps)


subsection \<open>Every failed fetch is reported\<close>



















subsection \<open>Every localization and every screenshot set is visited\<close>






subsection \<open>Example services\<close>

text \<open>
  The service of \<open>TestSubmitValidateAllChecksPass\<close>: an editable version with a build,
  one complete localization with one non-empty screenshot set, one app info with a complete
  localization, and an age rating declaration.
\<close>

definition fixture_client :: asc_client where
  "fixture_client = \<lparr>
     GetAppStoreVersion = (\<lambda>log versionID. Inr \<lparr>Data = \<lparr>ID = versionID, Attributes =
        \<lparr>AppStoreVersionAttributes.Platform = ''IOS'', VersionString = ''1.0.0'', CreatedDate = '''',
         AppVersionState = ''PREPARE_FOR_SUBMISSION''\<rparr>\<rparr>\<rparr>),
     GetAppStoreVersionBuild =
        (\<lambda>log versionID. Inr \<lparr>Data = \<lparr>ID = ''build-1'', Attributes = ()\<rparr>\<rparr>),
     GetAppStoreVersionLocalizations = (\<lambda>log versionID limit. Inr \<lparr>Data =
        [\<lparr>ID = ''loc-1'', Attributes =
           \<lparr>Locale = ''en-US'', Description = ''A great app'', Keywords = ''app,great''\<rparr>\<rparr>]\<rparr>),
     GetAppScreenshotSets = (\<lambda>log localizationID. Inr \<lparr>Data =
        [\<lparr>ID = ''set-1'', Attributes = \<lparr>ScreenshotDisplayType = ''APP_IPHONE_67''\<rparr>\<rparr>]\<rparr>),
     GetAppScreenshots = (\<lambda>log setID. Inr \<lparr>Data = [\<lparr>ID = ''ss-1'', Attributes = ()\<rparr>]\<rparr>),
     GetAppInfos = (\<lambda>log appID. Inr \<lparr>Data = [\<lparr>ID = ''info-1'', Attributes = ()\<rparr>]\<rparr>),
     GetAppInfoLocalizations = (\<lambda>log appInfoID limit. Inr \<lparr>Data =
        [\<lparr>ID = ''ailoc-1'', Attributes =
           \<lparr>Locale = ''en-US'', Name = ''My App'',
            PrivacyPolicyURL = ''https://example.com/privacy''\<rparr>\<rparr>]\<rparr>),
     GetAgeRatingDeclarationForAppStoreVersion =
        (\<lambda>log versionID. Inr \<lparr>Data = \<lparr>ID = ''age-1'', Attributes = ()\<rparr>\<rparr>)\<rparr>"

text \<open>The same service with no build and no age rating declaration (404 for both).\<close>

definition missing_client :: asc_client where
  "missing_client = fixture_client\<lparr>
     GetAppStoreVersionBuild := (\<lambda>log versionID. Inl (ApiError True ''Not Found'')),
     GetAgeRatingDeclarationForAppStoreVersion :=
        (\<lambda>log versionID. Inl (ApiError True ''Not Found''))\<rparr>"

text \<open>The same service with both of these fetches failing for another reason.\<close>

definition flaky_client :: asc_client where
  "flaky_client = fixture_client\<lparr>
     GetAppStoreVersionBuild := (\<lambda>log versionID. Inl (ApiError False ''timeout'')),
     GetAgeRatingDeclarationForAppStoreVersion :=
        (\<lambda>log versionID. Inl (ApiError False ''timeout''))\<rparr>"

text \<open>A service with empty keywords, unreachable screenshots and app infos; nothing missing.\<close>

definition degraded_client :: asc_client where
  "degraded_client = fixture_client\<lparr>
     GetAppStoreVersionLocalizations := (\<lambda>log versionID limit. Inr \<lparr>Data =
        [\<lparr>ID = ''loc-1'', Attributes =
           \<lparr>Locale = ''en-US'', Description = ''A great app'', Keywords = '' ''\<rparr>\<rparr>]\<rparr>),
     GetAppScreenshotSets := (\<lambda>log localizationID. Inl (ApiError False ''timeout'')),
     GetAppInfos := (\<lambda>log appID. Inl (ApiError False ''timeout''))\<rparr>"


definition empty_result :: SubmitValidateResult where
  "empty_result = \<lparr>AppID = ''app-1'', VersionID = ''ver-1'', Platform = ''IOS'',
     Issues = [], ErrorCount = 0, WarnCount = 0, Ready = False\<rparr>"

subsection \<open>Severity of the build and age-rating checks\<close>

text \<open>
  Claim C8. For the build check and for the age-rating check: when the fetch fails and the
  failure is classified as not found, the check appends one issue of severity \<open>error\<close>
  (and counts one more error); when the fetch fails otherwise, it appends one issue of
  severity \<open>warning\<close> (and counts one more warning, no error); when the fetch succeeds,
  the result is unchanged.
\<close>

theorem attachment_checks_severity:
  "(GetAppStoreVersionBuild client log versionID = Inl err \<and> IsNotFound err \<longrightarrow>
      snd (checkBuildAttached client versionID (log, result))
        = result\<lparr>Issues := Issues result @
              [\<lparr>Check = ''build'', Severity = ''error'',
                Message = ''no build attached to this version''\<rparr>],
            ErrorCount := ErrorCount result + 1\<rparr>)
   \<and> (GetAppStoreVersionBuild client log versionID = Inl err \<and> \<not> IsNotFound err \<longrightarrow>
      snd (checkBuildAttached client versionID (log, result))
        = result\<lparr>Issues := Issues result @
              [\<lparr>Check = ''build'', Severity = ''warning'',
                Message = ''unable to check build: '' @ Error err\<rparr>],
            WarnCount := WarnCount result + 1\<rparr>)
   \<and> (GetAppStoreVersionBuild client log versionID = Inr build \<longrightarrow>
      snd (checkBuildAttached client versionID (log, result)) = result)
   \<and> (GetAgeRatingDeclarationForAppStoreVersion client log versionID = Inl err \<and> IsNotFound err \<longrightarrow>
      snd (checkAgeRating client versionID (log, result))
        = result\<lparr>Issues := Issues result @
              [\<lparr>Check = ''age_rating'', Severity = ''error'',
                Message = ''no age rating declaration found''\<rparr>],
            ErrorCount := ErrorCount result + 1\<rparr>)
   \<and> (GetAgeRatingDeclarationForAppStoreVersion client log versionID = Inl err \<and> \<not> IsNotFound err \<longrightarrow>
      snd (checkAgeRating client versionID (log, result))
        = result\<lparr>Issues := Issues result @
              [\<lparr>Check = ''age_rating'', Severity = ''warning'',
                Message = ''unable to check: '' @ Error err\<rparr>],
            WarnCount := WarnCount result + 1\<rparr>)
   \<and> (GetAgeRatingDeclarationForAppStoreVersion client log versionID = Inr declaration \<longrightarrow>
      snd (checkAgeRating client versionID (log, result)) = result)"
  by (simp add: checkBuildAttached_def checkAgeRating_def addError_def addWarning_def)

theorem attachment_checks_severity_witness:
  "map Severity (Issues (snd (checkBuildAttached missing_client ''ver-1'' ([], empty_result))))
      = [''error'']
   \<and> map Severity (Issues (snd (checkAgeRating missing_client ''ver-1'' ([], empty_result))))
      = [''error'']
   \<and> map Severity (Issues (snd (checkBuildAttached flaky_client ''ver-1'' ([], empty_result))))
      = [''warning'']
   \<and> map Severity (Issues (snd (checkAgeRating flaky_client ''ver-1'' ([], empty_result))))
      = [''warning'']
   \<and> ErrorCount (snd (checkBuildAttached flaky_client ''ver-1'' ([], empty_result))) = 0
   \<and> snd (checkBuildAttached fixture_client ''ver-1'' ([], empty_result)) = empty_result
   \<and> snd (checkAgeRating fixture_client ''ver-1'' ([], empty_result)) = empty_result"
proof -
  have nf: "GetAppStoreVersionBuild missing_client [] ''ver-1'' = Inl (ApiError True ''Not Found'')
      \<and> GetAgeRatingDeclarationForAppStoreVersion missing_client [] ''ver-1''
          = Inl (ApiError True ''Not Found'')
      \<and> IsNotFound (ApiError True ''Not Found'')"
    by (simp add: missing_client_def fixture_client_def)
  have fl: "GetAppStoreVersionBuild flaky_client [] ''ver-1'' = Inl (ApiError False ''timeout'')
      \<and> GetAgeRatingDeclarationForAppStoreVersion flaky_client [] ''ver-1''
          = Inl (ApiError False ''timeout'')
      \<and> \<not> IsNotFound (ApiError False ''timeout'')"
    by (simp add: flaky_client_def fixture_client_def)
  have ok: "GetAppStoreVersionBuild fixture_client [] ''ver-1''
          = Inr \<lparr>Data = \<lparr>ID = ''build-1'', Attributes = ()\<rparr>\<rparr>
      \<and> GetAgeRatingDeclarationForAppStoreVersion fixture_client [] ''ver-1''
          = Inr \<lparr>Data = \<lparr>ID = ''age-1'', Attributes = ()\<rparr>\<rparr>"
    by (simp add: fixture_client_def)
  show ?thesis
    using nf fl ok
      attachment_checks_severity [of missing_client "[]" "''ver-1''"
        "ApiError True ''Not Found''" empty_result]
      attachment_checks_severity [of flaky_client "[]" "''ver-1''"
        "ApiError False ''timeout''" empty_result]
      attachment_checks_severity [of fixture_client "[]" "''ver-1''" _ empty_result
        "\<lparr>Data = \<lparr>ID = ''build-1'', Attributes = ()\<rparr>\<rparr>"
        "\<lparr>Data = \<lparr>ID = ''age-1'', Attributes = ()\<rparr>\<rparr>"]
    by (simp add: empty_result_def)
qed

subsection \<open>The ready flag\<close>

text \<open>
  Claim C7. In every result of a readiness validation the ready flag is true if and only
  if the error count is zero, which is the case if and only if no issue of the list has
  severity \<open>error\<close>. The warning count plays no part: a result with warnings and no
  error is ready.
\<close>

theorem ready_iff_no_error:
  "(Ready (snd (runValidation client resolve log appID versionID platform))
      \<longleftrightarrow> ErrorCount (snd (runValidation client resolve log appID versionID platform)) = 0)
   \<and> (Ready (snd (runValidation client resolve log appID versionID platform))
      \<longleftrightarrow> (\<forall>i \<in> set (Issues (snd (runValidation client resolve log appID versionID platform))).
             Severity i \<noteq> ''error''))"
  using runValidation_Ready [of client resolve log appID versionID platform]
    no_errors_iff [OF counted_runValidation [of client resolve log appID versionID platform]]
  by simp

theorem ready_iff_no_error_witness:
  "WarnCount (snd (runValidation degraded_client AppVersionState [] ''app-1'' ''ver-1'' ''IOS'')) = 3
   \<and> ErrorCount (snd (runValidation degraded_client AppVersionState [] ''app-1'' ''ver-1'' ''IOS'')) = 0
   \<and> Ready (snd (runValidation degraded_client AppVersionState [] ''app-1'' ''ver-1'' ''IOS''))
   \<and> ErrorCount (snd (runValidation missing_client AppVersionState [] ''app-1'' ''ver-1'' ''IOS'')) = 2
   \<and> \<not> Ready (snd (runValidation missing_client AppVersionState [] ''app-1'' ''ver-1'' ''IOS''))"
proof -
  have w: "WarnCount (snd (runValidation degraded_client AppVersionState [] ''app-1'' ''ver-1'' ''IOS'')) = 3"
    by code_simp
  have e: "ErrorCount (snd (runValidation degraded_client AppVersionState [] ''app-1'' ''ver-1'' ''IOS'')) = 0"
    by code_simp
  have m: "ErrorCount (snd (runValidation missing_client AppVersionState [] ''app-1'' ''ver-1'' ''IOS'')) = 2"
    by code_simp
  show ?thesis
    using w e m
      ready_iff_no_error [of degraded_client AppVersionState "[]" "''app-1''" "''ver-1''" "''IOS''"]
      ready_iff_no_error [of missing_client AppVersionState "[]" "''app-1''" "''ver-1''" "''IOS''"]
    by simp
qed

subsection \<open>Which checks run\<close>




section \<open>Trimming: white space and idempotence\<close>

text \<open>
  The UTF-8 encodings of the white-space runes, and the strings made of them alone.
\<close>

definition spaceRunes :: "string list" where
  "spaceRunes =
     [[CHR 0x09], [CHR 0x0A], [CHR 0x0B], [CHR 0x0C], [CHR 0x0D], [CHR 0x20],
      [CHR 0xC2, CHR 0x85], [CHR 0xC2, CHR 0xA0],
      [CHR 0xE1, CHR 0x9A, CHR 0x80],
      [CHR 0xE2, CHR 0x80, CHR 0x80], [CHR 0xE2, CHR 0x80, CHR 0x81],
      [CHR 0xE2, CHR 0x80, CHR 0x82], [CHR 0xE2, CHR 0x80, CHR 0x83],
      [CHR 0xE2, CHR 0x80, CHR 0x84], [CHR 0xE2, CHR 0x80, CHR 0x85],
      [CHR 0xE2, CHR 0x80, CHR 0x86], [CHR 0xE2, CHR 0x80, CHR 0x87],
      [CHR 0xE2, CHR 0x80, CHR 0x88], [CHR 0xE2, CHR 0x80, CHR 0x89],
      [CHR 0xE2, CHR 0x80, CHR 0x8A],
      [CHR 0xE2, CHR 0x80, CHR 0xA8], [CHR 0xE2, CHR 0x80, CHR 0xA9],
      [CHR 0xE2, CHR 0x80, CHR 0xAF],
      [CHR 0xE2, CHR 0x81, CHR 0x9F],
      [CHR 0xE3, CHR 0x80, CHR 0x80]]"

inductive whitespace_only :: "string \<Rightarrow> bool" where
  empty: "whitespace_only []"
| rune: "w \<in> set spaceRunes \<Longrightarrow> whitespace_only s \<Longrightarrow> whitespace_only (w @ s)"

lemma leadingSpace_1: "asciiSpace b0 \<Longrightarrow> leadingSpace (b0 # bs) = 1"
  by (cases "b0 # bs" rule: leadingSpace.cases) auto

lemma leadingSpace_2:
  "\<not> asciiSpace b0 \<Longrightarrow> space2 b0 b1 \<Longrightarrow> leadingSpace (b0 # b1 # bs) = 2"
  by (cases "b0 # b1 # bs" rule: leadingSpace.cases) auto

lemma leadingSpace_3:
  "\<not> asciiSpace b0 \<Longrightarrow> \<not> space2 b0 b1 \<Longrightarrow> space3 b0 b1 b2
    \<Longrightarrow> leadingSpace (b0 # b1 # b2 # bs) = 3"
  by simp

lemma leadingSpace_rune:
  "w \<in> set spaceRunes \<Longrightarrow> leadingSpace (bytes (w @ s)) = length w \<and> w \<noteq> []"
  unfolding spaceRunes_def bytes_def
  by (auto simp: leadingSpace_1 leadingSpace_2 leadingSpace_3 asciiSpace_def space2_def space3_def)

lemma trimLeftSpace_rune:
  assumes "w \<in> set spaceRunes"
  shows "trimLeftSpace (w @ s) = trimLeftSpace s"
proof -
  from leadingSpace_rune [OF assms, of s]
  have l: "leadingSpace (bytes (w @ s)) = length w" and ne: "w \<noteq> []" by auto
  then have "leadingSpace (bytes (w @ s)) \<noteq> 0" by simp
  then have "trimLeftSpace (w @ s) = trimLeftSpace (drop (leadingSpace (bytes (w @ s))) (w @ s))"
    by (subst trimLeftSpace.simps) simp
  then show ?thesis by (simp add: l)
qed

lemma trimLeftSpace_Nil: "trimLeftSpace [] = []"
  by (subst trimLeftSpace.simps) (simp add: bytes_def)

lemma trimRightSpace_Nil: "trimRightSpace [] = []"
  by (subst trimRightSpace.simps) (simp add: bytes_def)

lemma TrimSpace_Nil: "TrimSpace [] = []"
  by (simp add: TrimSpace_def trimLeftSpace_Nil trimRightSpace_Nil)

lemma whitespace_only_TrimSpace: "whitespace_only s \<Longrightarrow> TrimSpace s = []"
proof -
  assume "whitespace_only s"
  then have "trimLeftSpace s = []"
    by induction (simp_all add: trimLeftSpace_Nil trimLeftSpace_rune)
  then show ?thesis by (simp add: TrimSpace_def trimRightSpace_Nil)
qed



lemma leadingSpace_take:
  "leadingSpace bs = 0 \<Longrightarrow> leadingSpace (take k bs) = 0"
proof (induction bs rule: leadingSpace.induct)
  case 1
  then show ?case by simp
next
  case (2 b0)
  then show ?case by (cases k) (auto split: if_splits)
next
  case (3 b0 b1)
  then show ?case
    by (cases k; cases "k - 1") (auto split: if_splits)
next
  case (4 b0 b1 b2 rest)
  then show ?case
    by (cases k; cases "k - 1"; cases "k - 2") (auto split: if_splits)
qed

lemma trimLeftSpace_fixed: "leadingSpace (bytes (trimLeftSpace s)) = 0"
proof (induction s rule: trimLeftSpace.induct)
  case (1 s)
  show ?case
  proof (cases "leadingSpace (bytes s) = 0")
    case True
    then show ?thesis by (subst trimLeftSpace.simps) simp
  next
    case False
    then show ?thesis using 1 by (subst trimLeftSpace.simps) simp
  qed
qed

lemma trimRightSpace_fixed: "trailingSpace (rev (bytes (trimRightSpace s))) = 0"
proof (induction s rule: trimRightSpace.induct)
  case (1 s)
  show ?case
  proof (cases "trailingSpace (rev (bytes s)) = 0")
    case True
    then show ?thesis by (subst trimRightSpace.simps) simp
  next
    case False
    then show ?thesis using 1 by (subst trimRightSpace.simps) simp
  qed
qed

lemma trimRightSpace_take: "\<exists>k. trimRightSpace s = take k s"
proof (induction s rule: trimRightSpace.induct)
  case (1 s)
  show ?case
  proof (cases "trailingSpace (rev (bytes s)) = 0")
    case True
    then have "trimRightSpace s = take (length s) s"
      by (subst trimRightSpace.simps) simp
    then show ?thesis by blast
  next
    case False
    with 1 obtain k where "trimRightSpace (take (length s - trailingSpace (rev (bytes s))) s)
        = take k (take (length s - trailingSpace (rev (bytes s))) s)"
      by blast
    with False have "trimRightSpace s = take (min k (length s - trailingSpace (rev (bytes s)))) s"
      by (subst trimRightSpace.simps) (simp add: min.commute)
    then show ?thesis by blast
  qed
qed

lemma TrimSpace_idem: "TrimSpace (TrimSpace s) = TrimSpace s"
proof -
  define u where "u = trimLeftSpace s"
  define t where "t = trimRightSpace u"
  obtain k where k: "t = take k u"
    unfolding t_def using trimRightSpace_take by blast
  have "leadingSpace (bytes u) = 0"
    unfolding u_def by (rule trimLeftSpace_fixed)
  then have "leadingSpace (bytes t) = 0"
    unfolding k bytes_def by (simp add: take_map [symmetric] leadingSpace_take)
  then have l: "trimLeftSpace t = t"
    by (subst trimLeftSpace.simps) simp
  have "trailingSpace (rev (bytes t)) = 0"
    unfolding t_def by (rule trimRightSpace_fixed)
  then have r: "trimRightSpace t = t"
    by (subst trimRightSpace.simps) simp
  show ?thesis
    using l r by (simp add: TrimSpace_def t_def u_def)
qed

section \<open>The traversal of \<open>validate iap\<close>\<close>

text \<open>
  The query of an iteration: the next-page link when \<open>nextURL\<close> is not blank, the page-size
  limit otherwise.
\<close>

definition next_query :: "string \<Rightarrow> page_query" where
  "next_query nextURL = (if TrimSpace nextURL \<noteq> '''' then WithNextURL nextURL else WithLimit pageLimit)"

lemma next_query_empty: "next_query '''' = WithLimit 200"
  by (simp add: next_query_def TrimSpace_Nil pageLimit_def)

lemma iap_fail:
  assumes "GetInAppPurchasesV2 client log appID (next_query nextURL) = Inl err"
  shows "runValidateIAP_loop client appID log nextURL iaps
    = Some (log @ [ReqInAppPurchasesV2 appID (next_query nextURL)],
            Inl (Wrapped ''validate iap: failed to fetch in-app purchases'' err))"
  using assms by (subst runValidateIAP_loop.simps) (simp add: next_query_def Let_def)

lemma iap_last:
  assumes "GetInAppPurchasesV2 client log appID (next_query nextURL) = Inr resp"
    and "TrimSpace (Links_Next resp) = ''''"
  shows "runValidateIAP_loop client appID log nextURL iaps
    = Some (log @ [ReqInAppPurchasesV2 appID (next_query nextURL)],
            Inr (iaps @ map toIAP (Data resp)))"
  using assms by (subst runValidateIAP_loop.simps) (simp add: next_query_def Let_def)

lemma iap_more:
  assumes "GetInAppPurchasesV2 client log appID (next_query nextURL) = Inr resp"
    and "TrimSpace (Links_Next resp) \<noteq> ''''"
  shows "runValidateIAP_loop client appID log nextURL iaps
    = runValidateIAP_loop client appID (log @ [ReqInAppPurchasesV2 appID (next_query nextURL)])
        (TrimSpace (Links_Next resp)) (iaps @ map toIAP (Data resp))"
  using assms by (subst runValidateIAP_loop.simps) (simp add: next_query_def Let_def)

inductive iap_page ::
  "validate_client \<Rightarrow> string \<Rightarrow> request list \<times> string \<times> IAP list
    \<Rightarrow> request list \<times> string \<times> IAP list \<Rightarrow> bool"
  for client appID where
  page: "GetInAppPurchasesV2 client log appID (next_query nextURL) = Inr resp
    \<Longrightarrow> TrimSpace (Links_Next resp) \<noteq> ''''
    \<Longrightarrow> iap_page client appID (log, nextURL, iaps)
          (log @ [ReqInAppPurchasesV2 appID (next_query nextURL)],
           TrimSpace (Links_Next resp), iaps @ map toIAP (Data resp))"

definition iap_from ::
  "validate_client \<Rightarrow> string \<Rightarrow> request list \<times> string \<times> IAP list
    \<Rightarrow> (request list \<times> (go_error + IAP list)) option" where
  "iap_from client appID s = (case s of (log, nextURL, iaps) \<Rightarrow>
     runValidateIAP_loop client appID log nextURL iaps)"

lemma iap_page_from: "iap_page client appID s s1 \<Longrightarrow> iap_from client appID s = iap_from client appID s1"
  by (induction rule: iap_page.induct) (simp add: iap_from_def iap_more)

lemma iap_pages_from:
  "(iap_page client appID)\<^sup>*\<^sup>* s s1 \<Longrightarrow> iap_from client appID s = iap_from client appID s1"
  by (induction rule: rtranclp_induct) (simp_all add: iap_page_from)

definition iap_ends ::
  "validate_client \<Rightarrow> string \<Rightarrow> request list \<times> string \<times> IAP list
    \<Rightarrow> request list \<times> (go_error + IAP list) \<Rightarrow> bool" where
  "iap_ends client appID s out \<longleftrightarrow>
     (case s of (log, nextURL, iaps) \<Rightarrow>
        (case GetInAppPurchasesV2 client log appID (next_query nextURL) of
           Inl err \<Rightarrow>
             out = (log @ [ReqInAppPurchasesV2 appID (next_query nextURL)],
                    Inl (Wrapped ''validate iap: failed to fetch in-app purchases'' err))
         | Inr resp \<Rightarrow>
             TrimSpace (Links_Next resp) = ''''
             \<and> out = (log @ [ReqInAppPurchasesV2 appID (next_query nextURL)],
                      Inr (iaps @ map toIAP (Data resp)))))"

lemma iap_ends_from: "iap_ends client appID s out \<Longrightarrow> iap_from client appID s = Some out"
  by (cases s) (auto simp: iap_ends_def iap_from_def iap_fail iap_last split: sum.splits)

lemma iap_returns:
  assumes "runValidateIAP_loop client appID log nextURL iaps = Some out"
  shows "\<exists>s. (iap_page client appID)\<^sup>*\<^sup>* (log, nextURL, iaps) s \<and> iap_ends client appID s out"
proof (rule runValidateIAP_loop.raw_induct
    [where P = "\<lambda>client appID log nextURL iaps out.
        \<exists>s. (iap_page client appID)\<^sup>*\<^sup>* (log, nextURL, iaps) s \<and> iap_ends client appID s out",
     OF _ assms], goal_cases)
  case (1 loop client appID log nextURL iaps out)
  show ?case
  proof (cases "GetInAppPurchasesV2 client log appID (next_query nextURL)")
    case (Inl err)
    with 1(2) have "iap_ends client appID (log, nextURL, iaps) out"
      by (simp add: iap_ends_def next_query_def Let_def)
    then show ?thesis by blast
  next
    case (Inr resp)
    show ?thesis
    proof (cases "TrimSpace (Links_Next resp) = ''''")
      case True
      with 1(2) Inr have "iap_ends client appID (log, nextURL, iaps) out"
        by (simp add: iap_ends_def next_query_def Let_def)
      then show ?thesis by blast
    next
      case False
      with 1(2) Inr have "loop client appID (log @ [ReqInAppPurchasesV2 appID (next_query nextURL)])
          (TrimSpace (Links_Next resp)) (iaps @ map toIAP (Data resp)) = Some out"
        by (simp add: next_query_def Let_def)
      then obtain s where reach: "(iap_page client appID)\<^sup>*\<^sup>*
          (log @ [ReqInAppPurchasesV2 appID (next_query nextURL)],
           TrimSpace (Links_Next resp), iaps @ map toIAP (Data resp)) s"
        and fin: "iap_ends client appID s out"
        using 1(1) by blast
      have st: "iap_page client appID (log, nextURL, iaps)
          (log @ [ReqInAppPurchasesV2 appID (next_query nextURL)],
           TrimSpace (Links_Next resp), iaps @ map toIAP (Data resp))"
        using Inr False by (rule iap_page.page)
      from st reach have "(iap_page client appID)\<^sup>*\<^sup>* (log, nextURL, iaps) s"
        by (rule converse_rtranclp_into_rtranclp)
      with fin show ?thesis by blast
    qed
  qed
qed

lemma iap_returns_iff:
  "runValidateIAP_loop client appID log nextURL iaps = Some out
    \<longleftrightarrow> (\<exists>s. (iap_page client appID)\<^sup>*\<^sup>* (log, nextURL, iaps) s \<and> iap_ends client appID s out)"
proof
  assume "runValidateIAP_loop client appID log nextURL iaps = Some out"
  then show "\<exists>s. (iap_page client appID)\<^sup>*\<^sup>* (log, nextURL, iaps) s \<and> iap_ends client appID s out"
    by (rule iap_returns)
next
  assume "\<exists>s. (iap_page client appID)\<^sup>*\<^sup>* (log, nextURL, iaps) s \<and> iap_ends client appID s out"
  then obtain s where "(iap_page client appID)\<^sup>*\<^sup>* (log, nextURL, iaps) s"
    and "iap_ends client appID s out" by blast
  then have "iap_from client appID (log, nextURL, iaps) = Some out"
    using iap_pages_from iap_ends_from by metis
  then show "runValidateIAP_loop client appID log nextURL iaps = Some out"
    by (simp add: iap_from_def)
qed

section \<open>The traversals of \<open>validate subscriptions\<close>\<close>

subsection \<open>The pages of one subscription group\<close>

lemma sub_fail:
  assumes "GetSubscriptions client log groupID (next_query nextURL) = Inl err"
  shows "runValidateSubscriptions_subs client groupID log nextURL subs
    = Some (log @ [ReqSubscriptions groupID (next_query nextURL)],
            Inl (Wrapped (''validate subscriptions: failed to fetch subscriptions for group '' @ groupID) err))"
  using assms by (subst runValidateSubscriptions_subs.simps) (simp add: next_query_def Let_def)

lemma sub_last:
  assumes "GetSubscriptions client log groupID (next_query nextURL) = Inr resp"
    and "TrimSpace (Links_Next resp) = ''''"
  shows "runValidateSubscriptions_subs client groupID log nextURL subs
    = Some (log @ [ReqSubscriptions groupID (next_query nextURL)],
            Inr (subs @ map (toSubscription groupID) (Data resp)))"
  using assms by (subst runValidateSubscriptions_subs.simps) (simp add: next_query_def Let_def)

lemma sub_more:
  assumes "GetSubscriptions client log groupID (next_query nextURL) = Inr resp"
    and "TrimSpace (Links_Next resp) \<noteq> ''''"
  shows "runValidateSubscriptions_subs client groupID log nextURL subs
    = runValidateSubscriptions_subs client groupID (log @ [ReqSubscriptions groupID (next_query nextURL)])
        (TrimSpace (Links_Next resp)) (subs @ map (toSubscription groupID) (Data resp))"
  using assms by (subst runValidateSubscriptions_subs.simps) (simp add: next_query_def Let_def)

inductive sub_page ::
  "validate_client \<Rightarrow> string \<Rightarrow> request list \<times> string \<times> Subscription list
    \<Rightarrow> request list \<times> string \<times> Subscription list \<Rightarrow> bool"
  for client groupID where
  page: "GetSubscriptions client log groupID (next_query nextURL) = Inr resp
    \<Longrightarrow> TrimSpace (Links_Next resp) \<noteq> ''''
    \<Longrightarrow> sub_page client groupID (log, nextURL, subs)
          (log @ [ReqSubscriptions groupID (next_query nextURL)],
           TrimSpace (Links_Next resp), subs @ map (toSubscription groupID) (Data resp))"

definition sub_from ::
  "validate_client \<Rightarrow> string \<Rightarrow> request list \<times> string \<times> Subscription list
    \<Rightarrow> (request list \<times> (go_error + Subscription list)) option" where
  "sub_from client groupID s = (case s of (log, nextURL, subs) \<Rightarrow>
     runValidateSubscriptions_subs client groupID log nextURL subs)"

lemma sub_page_from: "sub_page client groupID s s1 \<Longrightarrow> sub_from client groupID s = sub_from client groupID s1"
  by (induction rule: sub_page.induct) (simp add: sub_from_def sub_more)

lemma sub_pages_from:
  "(sub_page client groupID)\<^sup>*\<^sup>* s s1 \<Longrightarrow> sub_from client groupID s = sub_from client groupID s1"
  by (induction rule: rtranclp_induct) (simp_all add: sub_page_from)

definition sub_ends ::
  "validate_client \<Rightarrow> string \<Rightarrow> request list \<times> string \<times> Subscription list
    \<Rightarrow> request list \<times> (go_error + Subscription list) \<Rightarrow> bool" where
  "sub_ends client groupID s out \<longleftrightarrow>
     (case s of (log, nextURL, subs) \<Rightarrow>
        (case GetSubscriptions client log groupID (next_query nextURL) of
           Inl err \<Rightarrow>
             out = (log @ [ReqSubscriptions groupID (next_query nextURL)],
                    Inl (Wrapped (''validate subscriptions: failed to fetch subscriptions for group '' @ groupID) err))
         | Inr resp \<Rightarrow>
             TrimSpace (Links_Next resp) = ''''
             \<and> out = (log @ [ReqSubscriptions groupID (next_query nextURL)],
                      Inr (subs @ map (toSubscription groupID) (Data resp)))))"

lemma sub_ends_from: "sub_ends client groupID s out \<Longrightarrow> sub_from client groupID s = Some out"
  by (cases s) (auto simp: sub_ends_def sub_from_def sub_fail sub_last split: sum.splits)

lemma sub_returns:
  assumes "runValidateSubscriptions_subs client groupID log nextURL subs = Some out"
  shows "\<exists>s. (sub_page client groupID)\<^sup>*\<^sup>* (log, nextURL, subs) s \<and> sub_ends client groupID s out"
proof (rule runValidateSubscriptions_subs.raw_induct
    [where P = "\<lambda>client groupID log nextURL subs out.
        \<exists>s. (sub_page client groupID)\<^sup>*\<^sup>* (log, nextURL, subs) s \<and> sub_ends client groupID s out",
     OF _ assms], goal_cases)
  case (1 loop client groupID log nextURL subs out)
  show ?case
  proof (cases "GetSubscriptions client log groupID (next_query nextURL)")
    case (Inl err)
    with 1(2) have "sub_ends client groupID (log, nextURL, subs) out"
      by (simp add: sub_ends_def next_query_def Let_def)
    then show ?thesis by blast
  next
    case (Inr resp)
    show ?thesis
    proof (cases "TrimSpace (Links_Next resp) = ''''")
      case True
      with 1(2) Inr have "sub_ends client groupID (log, nextURL, subs) out"
        by (simp add: sub_ends_def next_query_def Let_def)
      then show ?thesis by blast
    next
      case False
      with 1(2) Inr have "loop client groupID (log @ [ReqSubscriptions groupID (next_query nextURL)])
          (TrimSpace (Links_Next resp)) (subs @ map (toSubscription groupID) (Data resp)) = Some out"
        by (simp add: next_query_def Let_def)
      then obtain s where reach: "(sub_page client groupID)\<^sup>*\<^sup>*
          (log @ [ReqSubscriptions groupID (next_query nextURL)],
           TrimSpace (Links_Next resp), subs @ map (toSubscription groupID) (Data resp)) s"
        and fin: "sub_ends client groupID s out"
        using 1(1) by blast
      have st: "sub_page client groupID (log, nextURL, subs)
          (log @ [ReqSubscriptions groupID (next_query nextURL)],
           TrimSpace (Links_Next resp), subs @ map (toSubscription groupID) (Data resp))"
        using Inr False by (rule sub_page.page)
      from st reach have "(sub_page client groupID)\<^sup>*\<^sup>* (log, nextURL, subs) s"
        by (rule converse_rtranclp_into_rtranclp)
      with fin show ?thesis by blast
    qed
  qed
qed

lemma sub_returns_iff:
  "runValidateSubscriptions_subs client groupID log nextURL subs = Some out
    \<longleftrightarrow> (\<exists>s. (sub_page client groupID)\<^sup>*\<^sup>* (log, nextURL, subs) s \<and> sub_ends client groupID s out)"
proof
  assume "runValidateSubscriptions_subs client groupID log nextURL subs = Some out"
  then show "\<exists>s. (sub_page client groupID)\<^sup>*\<^sup>* (log, nextURL, subs) s \<and> sub_ends client groupID s out"
    by (rule sub_returns)
next
  assume "\<exists>s. (sub_page client groupID)\<^sup>*\<^sup>* (log, nextURL, subs) s \<and> sub_ends client groupID s out"
  then obtain s where "(sub_page client groupID)\<^sup>*\<^sup>* (log, nextURL, subs) s"
    and "sub_ends client groupID s out" by blast
  then have "sub_from client groupID (log, nextURL, subs) = Some out"
    using sub_pages_from sub_ends_from by metis
  then show "runValidateSubscriptions_subs client groupID log nextURL subs = Some out"
    by (simp add: sub_from_def)
qed


subsection \<open>The pages of subscription groups\<close>

lemma group_fail:
  assumes "GetSubscriptionGroups client log appID (next_query nextURL) = Inl err"
  shows "runValidateSubscriptions_groups client appID log nextURL groupIDs
    = Some (log @ [ReqSubscriptionGroups appID (next_query nextURL)],
            Inl (Wrapped ''validate subscriptions: failed to fetch subscription groups'' err))"
  using assms by (subst runValidateSubscriptions_groups.simps) (simp add: next_query_def Let_def)

lemma group_last:
  assumes "GetSubscriptionGroups client log appID (next_query nextURL) = Inr resp"
    and "TrimSpace (Links_Next resp) = ''''"
  shows "runValidateSubscriptions_groups client appID log nextURL groupIDs
    = Some (log @ [ReqSubscriptionGroups appID (next_query nextURL)],
            Inr (groupIDs @ map Resource.ID (filter (\<lambda>group. TrimSpace (Resource.ID group) \<noteq> '''') (Data resp))))"
  using assms by (subst runValidateSubscriptions_groups.simps) (simp add: next_query_def Let_def)

lemma group_more:
  assumes "GetSubscriptionGroups client log appID (next_query nextURL) = Inr resp"
    and "TrimSpace (Links_Next resp) \<noteq> ''''"
  shows "runValidateSubscriptions_groups client appID log nextURL groupIDs
    = runValidateSubscriptions_groups client appID (log @ [ReqSubscriptionGroups appID (next_query nextURL)])
        (TrimSpace (Links_Next resp)) (groupIDs @ map Resource.ID (filter (\<lambda>group. TrimSpace (Resource.ID group) \<noteq> '''') (Data resp)))"
  using assms by (subst runValidateSubscriptions_groups.simps) (simp add: next_query_def Let_def)

inductive group_page ::
  "validate_client \<Rightarrow> string \<Rightarrow> request list \<times> string \<times> string list
    \<Rightarrow> request list \<times> string \<times> string list \<Rightarrow> bool"
  for client appID where
  page: "GetSubscriptionGroups client log appID (next_query nextURL) = Inr resp
    \<Longrightarrow> TrimSpace (Links_Next resp) \<noteq> ''''
    \<Longrightarrow> group_page client appID (log, nextURL, groupIDs)
          (log @ [ReqSubscriptionGroups appID (next_query nextURL)],
           TrimSpace (Links_Next resp), groupIDs @ map Resource.ID (filter (\<lambda>group. TrimSpace (Resource.ID group) \<noteq> '''') (Data resp)))"

definition group_from ::
  "validate_client \<Rightarrow> string \<Rightarrow> request list \<times> string \<times> string list
    \<Rightarrow> (request list \<times> (go_error + string list)) option" where
  "group_from client appID s = (case s of (log, nextURL, groupIDs) \<Rightarrow>
     runValidateSubscriptions_groups client appID log nextURL groupIDs)"

lemma group_page_from: "group_page client appID s s1 \<Longrightarrow> group_from client appID s = group_from client appID s1"
  by (induction rule: group_page.induct) (simp add: group_from_def group_more)

lemma group_pages_from:
  "(group_page client appID)\<^sup>*\<^sup>* s s1 \<Longrightarrow> group_from client appID s = group_from client appID s1"
  by (induction rule: rtranclp_induct) (simp_all add: group_page_from)

definition group_ends ::
  "validate_client \<Rightarrow> string \<Rightarrow> request list \<times> string \<times> string list
    \<Rightarrow> request list \<times> (go_error + string list) \<Rightarrow> bool" where
  "group_ends client appID s out \<longleftrightarrow>
     (case s of (log, nextURL, groupIDs) \<Rightarrow>
        (case GetSubscriptionGroups client log appID (next_query nextURL) of
           Inl err \<Rightarrow>
             out = (log @ [ReqSubscriptionGroups appID (next_query nextURL)],
                    Inl (Wrapped ''validate subscriptions: failed to fetch subscription groups'' err))
         | Inr resp \<Rightarrow>
             TrimSpace (Links_Next resp) = ''''
             \<and> out = (log @ [ReqSubscriptionGroups appID (next_query nextURL)],
                      Inr (groupIDs @ map Resource.ID (filter (\<lambda>group. TrimSpace (Resource.ID group) \<noteq> '''') (Data resp))))))"

lemma group_ends_from: "group_ends client appID s out \<Longrightarrow> group_from client appID s = Some out"
  by (cases s) (auto simp: group_ends_def group_from_def group_fail group_last split: sum.splits)

lemma group_returns:
  assumes "runValidateSubscriptions_groups client appID log nextURL groupIDs = Some out"
  shows "\<exists>s. (group_page client appID)\<^sup>*\<^sup>* (log, nextURL, groupIDs) s \<and> group_ends client appID s out"
proof (rule runValidateSubscriptions_groups.raw_induct
    [where P = "\<lambda>client appID log nextURL groupIDs out.
        \<exists>s. (group_page client appID)\<^sup>*\<^sup>* (log, nextURL, groupIDs) s \<and> group_ends client appID s out",
     OF _ assms], goal_cases)
  case (1 loop client appID log nextURL groupIDs out)
  show ?case
  proof (cases "GetSubscriptionGroups client log appID (next_query nextURL)")
    case (Inl err)
    with 1(2) have "group_ends client appID (log, nextURL, groupIDs) out"
      by (simp add: group_ends_def next_query_def Let_def)
    then show ?thesis by blast
  next
    case (Inr resp)
    show ?thesis
    proof (cases "TrimSpace (Links_Next resp) = ''''")
      case True
      with 1(2) Inr have "group_ends client appID (log, nextURL, groupIDs) out"
        by (simp add: group_ends_def next_query_def Let_def)
      then show ?thesis by blast
    next
      case False
      with 1(2) Inr have "loop client appID (log @ [ReqSubscriptionGroups appID (next_query nextURL)])
          (TrimSpace (Links_Next resp)) (groupIDs @ map Resource.ID (filter (\<lambda>group. TrimSpace (Resource.ID group) \<noteq> '''') (Data resp))) = Some out"
        by (simp add: next_query_def Let_def)
      then obtain s where reach: "(group_page client appID)\<^sup>*\<^sup>*
          (log @ [ReqSubscriptionGroups appID (next_query nextURL)],
           TrimSpace (Links_Next resp), groupIDs @ map Resource.ID (filter (\<lambda>group. TrimSpace (Resource.ID group) \<noteq> '''') (Data resp))) s"
        and fin: "group_ends client appID s out"
        using 1(1) by blast
      have st: "group_page client appID (log, nextURL, groupIDs)
          (log @ [ReqSubscriptionGroups appID (next_query nextURL)],
           TrimSpace (Links_Next resp), groupIDs @ map Resource.ID (filter (\<lambda>group. TrimSpace (Resource.ID group) \<noteq> '''') (Data resp)))"
        using Inr False by (rule group_page.page)
      from st reach have "(group_page client appID)\<^sup>*\<^sup>* (log, nextURL, groupIDs) s"
        by (rule converse_rtranclp_into_rtranclp)
      with fin show ?thesis by blast
    qed
  qed
qed

lemma group_returns_iff:
  "runValidateSubscriptions_groups client appID log nextURL groupIDs = Some out
    \<longleftrightarrow> (\<exists>s. (group_page client appID)\<^sup>*\<^sup>* (log, nextURL, groupIDs) s \<and> group_ends client appID s out)"
proof
  assume "runValidateSubscriptions_groups client appID log nextURL groupIDs = Some out"
  then show "\<exists>s. (group_page client appID)\<^sup>*\<^sup>* (log, nextURL, groupIDs) s \<and> group_ends client appID s out"
    by (rule group_returns)
next
  assume "\<exists>s. (group_page client appID)\<^sup>*\<^sup>* (log, nextURL, groupIDs) s \<and> group_ends client appID s out"
  then obtain s where "(group_page client appID)\<^sup>*\<^sup>* (log, nextURL, groupIDs) s"
    and "group_ends client appID s out" by blast
  then have "group_from client appID (log, nextURL, groupIDs) = Some out"
    using group_pages_from group_ends_from by metis
  then show "runValidateSubscriptions_groups client appID log nextURL groupIDs = Some out"
    by (simp add: group_from_def)
qed

section \<open>Claims about the paginated traversals\<close>

subsection \<open>Example services\<close>

definition item_a :: "InAppPurchaseV2Attributes Resource" where
  "item_a = \<lparr>ID = ''iap-a'', Attributes =
     \<lparr>InAppPurchaseV2Attributes.Name = ''Coins'',
      InAppPurchaseV2Attributes.ProductID = ''com.example.coins'',
      InAppPurchaseType = ''CONSUMABLE'',
      InAppPurchaseV2Attributes.State = ''APPROVED''\<rparr>\<rparr>"

definition item_b :: "InAppPurchaseV2Attributes Resource" where
  "item_b = \<lparr>ID = ''iap-b'', Attributes =
     \<lparr>InAppPurchaseV2Attributes.Name = ''Armor'',
      InAppPurchaseV2Attributes.ProductID = ''com.example.armor'',
      InAppPurchaseType = ''NON_CONSUMABLE'',
      InAppPurchaseV2Attributes.State = ''MISSING_METADATA''\<rparr>\<rparr>"

definition second_url :: string where
  "second_url = ''https://api.appstoreconnect.apple.com/v1/apps/app-1/inAppPurchasesV2?cursor=BQ''"

text \<open>
  A service with two pages of in-app purchases, answering by the number of requests it has
  seen, as the transports of the tests do: the first page holds \<open>item_a\<close> and links to
  the second, which holds \<open>item_b\<close> and \<open>item_a\<close> again and has an empty link. It has no
  subscription groups.
\<close>

definition two_page_client :: validate_client where
  "two_page_client = \<lparr>
     GetInAppPurchasesV2 = (\<lambda>log appID query.
        if length log = 0 then Inr \<lparr>Data = [item_a], Links_Next = second_url\<rparr>
        else Inr \<lparr>Data = [item_b, item_a], Links_Next = ''''\<rparr>),
     GetSubscriptionGroups = (\<lambda>log appID query. Inr \<lparr>Data = [], Links_Next = ''''\<rparr>),
     GetSubscriptions = (\<lambda>log groupID query. Inr \<lparr>Data = [], Links_Next = ''''\<rparr>)\<rparr>"

text \<open>The same service, whose second page cannot be fetched.\<close>

definition broken_page_client :: validate_client where
  "broken_page_client = two_page_client\<lparr>
     GetInAppPurchasesV2 := (\<lambda>log appID query.
        if length log = 0 then Inr \<lparr>Data = [item_a], Links_Next = second_url\<rparr>
        else Inl (ApiError False ''unexpected end of JSON input''))\<rparr>"

text \<open>
  A service whose first page of every collection carries a link of white space only: a
  space, a tab, a no-break space (U+00A0) and a line feed.
\<close>

definition blank_link :: string where
  "blank_link = [CHR 0x20, CHR 0x09, CHR 0xC2, CHR 0xA0, CHR 0x0A]"

definition blank_link_client :: validate_client where
  "blank_link_client = \<lparr>
     GetInAppPurchasesV2 = (\<lambda>log appID query.
        if length log = 0 then Inr \<lparr>Data = [item_a], Links_Next = blank_link\<rparr>
        else Inr \<lparr>Data = [item_b], Links_Next = ''''\<rparr>),
     GetSubscriptionGroups = (\<lambda>log appID query.
        Inr \<lparr>Data = [\<lparr>ID = ''group-1'', Attributes = ()\<rparr>], Links_Next = blank_link\<rparr>),
     GetSubscriptions = (\<lambda>log groupID query. Inr \<lparr>Data = [], Links_Next = blank_link\<rparr>)\<rparr>"

text \<open>
  The parts outside the sources, for the examples: the report of a validation is its input,
  nothing blocks, and printing succeeds.
\<close>

definition example_externals :: "validate_client \<Rightarrow> IAPInput externals" where
  "example_externals client = \<lparr>
     clientFactory = Inr client,
     ValidateIAP = (\<lambda>input strict. input),
     ValidateSubscriptions = (\<lambda>input strict. \<lparr>IAPInput.AppID = SubscriptionsInput.AppID input, IAPs = []\<rparr>),
     SummaryBlocking = (\<lambda>report. 0),
     PrintOutput = (\<lambda>report output pretty. None)\<rparr>"

definition example_options :: validateIAPOptions where
  "example_options = \<lparr>validateIAPOptions.AppID = ''app-1'', validateIAPOptions.Strict = False,
     validateIAPOptions.Output = ''json'', validateIAPOptions.Pretty = False\<rparr>"

lemma next_query_trimmed:
  "TrimSpace link \<noteq> '''' \<Longrightarrow> next_query (TrimSpace link) = WithNextURL (TrimSpace link)"
  by (simp add: next_query_def TrimSpace_idem)

lemma toIAP_eq:
  "toIAP = (\<lambda>item. \<lparr>IAP.ID = Resource.ID item,
                     IAP.Name = InAppPurchaseV2Attributes.Name (Attributes item),
                     IAP.ProductID = InAppPurchaseV2Attributes.ProductID (Attributes item),
                     IAP.Type = InAppPurchaseType (Attributes item),
                     IAP.State = InAppPurchaseV2Attributes.State (Attributes item)\<rparr>)"
  by (rule ext) (simp add: toIAP_def)

subsection \<open>A traversal of two pages\<close>

text \<open>
  Claim C5. Take a traversal whose first page (requested with the page-size limit) returns
  the items \<open>Data page1\<close> and a next-page link that is not blank, and whose second page
  (requested at that link) returns the items \<open>Data page2\<close> and a blank link, the empty
  one in particular. Then the loop of \<open>runValidateIAP\<close> returns the items of the first
  page followed by the items of the second, in fetch order, nothing removed and nothing
  reordered; it issues exactly these two requests; and this list is the one that the
  command hands to the validator. Each item of the list carries the identifier, the name,
  the product identifier, the type and the state of the resource that was fetched.
\<close>

theorem two_page_traversal:
  assumes "clientFactory ext = Inr client"
    and "GetInAppPurchasesV2 client log (validateIAPOptions.AppID opts) (WithLimit 200) = Inr page1"
    and "TrimSpace (Links_Next page1) \<noteq> ''''"
    and "GetInAppPurchasesV2 client
           (log @ [ReqInAppPurchasesV2 (validateIAPOptions.AppID opts) (WithLimit 200)])
           (validateIAPOptions.AppID opts) (WithNextURL (TrimSpace (Links_Next page1))) = Inr page2"
    and "TrimSpace (Links_Next page2) = ''''"
  shows "runValidateIAP_loop client (validateIAPOptions.AppID opts) log '''' []
      = Some (log @ [ReqInAppPurchasesV2 (validateIAPOptions.AppID opts) (WithLimit 200),
                     ReqInAppPurchasesV2 (validateIAPOptions.AppID opts)
                       (WithNextURL (TrimSpace (Links_Next page1)))],
              Inr (map (\<lambda>item.
                     \<lparr>IAP.ID = Resource.ID item,
                      IAP.Name = InAppPurchaseV2Attributes.Name (Attributes item),
                      IAP.ProductID = InAppPurchaseV2Attributes.ProductID (Attributes item),
                      IAP.Type = InAppPurchaseType (Attributes item),
                      IAP.State = InAppPurchaseV2Attributes.State (Attributes item)\<rparr>)
                     (Data page1 @ Data page2)))
    \<and> (\<exists>out. runValidateIAP ext log opts = Some out
          \<and> Requests out
              = log @ [ReqInAppPurchasesV2 (validateIAPOptions.AppID opts) (WithLimit 200),
                       ReqInAppPurchasesV2 (validateIAPOptions.AppID opts)
                         (WithNextURL (TrimSpace (Links_Next page1)))]
          \<and> Reports out
              = [ValidateIAP ext
                   \<lparr>IAPInput.AppID = validateIAPOptions.AppID opts,
                    IAPs = map (\<lambda>item.
                      \<lparr>IAP.ID = Resource.ID item,
                       IAP.Name = InAppPurchaseV2Attributes.Name (Attributes item),
                       IAP.ProductID = InAppPurchaseV2Attributes.ProductID (Attributes item),
                       IAP.Type = InAppPurchaseType (Attributes item),
                       IAP.State = InAppPurchaseV2Attributes.State (Attributes item)\<rparr>)
                      (Data page1 @ Data page2)\<rparr>
                   (validateIAPOptions.Strict opts)])"
proof -
  define appID where "appID = validateIAPOptions.AppID opts"
  define log1 where "log1 = log @ [ReqInAppPurchasesV2 appID (WithLimit 200)]"
  define link where "link = TrimSpace (Links_Next page1)"
  have q1: "next_query '''' = WithLimit 200"
    by (rule next_query_empty)
  have q2: "next_query (TrimSpace (Links_Next page1)) = WithNextURL (TrimSpace (Links_Next page1))"
    using assms(3) by (rule next_query_trimmed)
  have "runValidateIAP_loop client appID log '''' []
      = runValidateIAP_loop client appID log1 link ([] @ map toIAP (Data page1))"
    using iap_more [of client log appID "''''" page1 "[]"] assms(2,3)
    by (simp add: q1 log1_def link_def appID_def)
  also have "\<dots> = Some (log1 @ [ReqInAppPurchasesV2 appID (WithNextURL link)],
      Inr (([] @ map toIAP (Data page1)) @ map toIAP (Data page2)))"
    using iap_last [of client log1 appID link page2 "[] @ map toIAP (Data page1)"] assms(4,5)
    by (simp add: q2 log1_def link_def appID_def)
  finally have loop: "runValidateIAP_loop client appID log '''' []
      = Some (log @ [ReqInAppPurchasesV2 appID (WithLimit 200),
                     ReqInAppPurchasesV2 appID (WithNextURL link)],
              Inr (map toIAP (Data page1) @ map toIAP (Data page2)))"
    by (simp add: log1_def)
  have "\<exists>out. runValidateIAP ext log opts = Some out
      \<and> Requests out = log @ [ReqInAppPurchasesV2 appID (WithLimit 200),
                               ReqInAppPurchasesV2 appID (WithNextURL link)]
      \<and> Reports out = [ValidateIAP ext
           \<lparr>IAPInput.AppID = appID, IAPs = map toIAP (Data page1) @ map toIAP (Data page2)\<rparr>
           (validateIAPOptions.Strict opts)]"
    using assms(1) loop
    by (simp add: runValidateIAP_def Let_def appID_def split: option.splits)
  with loop have "runValidateIAP_loop client appID log '''' []
      = Some (log @ [ReqInAppPurchasesV2 appID (WithLimit 200),
                     ReqInAppPurchasesV2 appID (WithNextURL link)],
              Inr (map toIAP (Data page1 @ Data page2)))
    \<and> (\<exists>out. runValidateIAP ext log opts = Some out
      \<and> Requests out = log @ [ReqInAppPurchasesV2 appID (WithLimit 200),
                               ReqInAppPurchasesV2 appID (WithNextURL link)]
      \<and> Reports out = [ValidateIAP ext
           \<lparr>IAPInput.AppID = appID, IAPs = map toIAP (Data page1 @ Data page2)\<rparr>
           (validateIAPOptions.Strict opts)])"
    by simp
  then show ?thesis
    unfolding appID_def link_def toIAP_eq .
qed

theorem two_page_traversal_witness:
  "runValidateIAP_loop two_page_client ''app-1'' [] '''' []
      = Some ([ReqInAppPurchasesV2 ''app-1'' (WithLimit 200),
               ReqInAppPurchasesV2 ''app-1'' (WithNextURL second_url)],
              Inr [\<lparr>IAP.ID = ''iap-a'', IAP.Name = ''Coins'',
                    IAP.ProductID = ''com.example.coins'', IAP.Type = ''CONSUMABLE'',
                    IAP.State = ''APPROVED''\<rparr>,
                   \<lparr>IAP.ID = ''iap-b'', IAP.Name = ''Armor'',
                    IAP.ProductID = ''com.example.armor'', IAP.Type = ''NON_CONSUMABLE'',
                    IAP.State = ''MISSING_METADATA''\<rparr>,
                   \<lparr>IAP.ID = ''iap-a'', IAP.Name = ''Coins'',
                    IAP.ProductID = ''com.example.coins'', IAP.Type = ''CONSUMABLE'',
                    IAP.State = ''APPROVED''\<rparr>])
   \<and> (\<exists>out. runValidateIAP (example_externals two_page_client) [] example_options = Some out
         \<and> length (Requests out) = 2
         \<and> map (\<lambda>report. map IAP.ID (IAPs report)) (Reports out)
            = [[''iap-a'', ''iap-b'', ''iap-a'']])"
proof -
  have trim: "TrimSpace second_url = second_url"
    unfolding second_url_def by code_simp
  have ne: "second_url \<noteq> ''''"
    by (simp add: second_url_def)
  have f: "clientFactory (example_externals two_page_client) = Inr two_page_client"
    by (simp add: example_externals_def)
  have p1: "GetInAppPurchasesV2 two_page_client [] (validateIAPOptions.AppID example_options)
      (WithLimit 200) = Inr \<lparr>Data = [item_a], Links_Next = second_url\<rparr>"
    by (simp add: two_page_client_def)
  have l1: "TrimSpace (Links_Next \<lparr>Data = [item_a], Links_Next = second_url\<rparr>) \<noteq> ''''"
    using trim ne by simp
  have p2: "GetInAppPurchasesV2 two_page_client
      ([] @ [ReqInAppPurchasesV2 (validateIAPOptions.AppID example_options) (WithLimit 200)])
      (validateIAPOptions.AppID example_options)
      (WithNextURL (TrimSpace (Links_Next \<lparr>Data = [item_a], Links_Next = second_url\<rparr>)))
      = Inr \<lparr>Data = [item_b, item_a], Links_Next = ''''\<rparr>"
    by (simp add: two_page_client_def)
  have l2: "TrimSpace (Links_Next \<lparr>Data = [item_b, item_a], Links_Next = ''''\<rparr>) = ''''"
    by (simp add: TrimSpace_Nil)
  from two_page_traversal [OF f p1 l1 p2 l2]
  show ?thesis
    using trim by (auto simp: example_options_def example_externals_def item_a_def item_b_def)
qed

subsection \<open>What the service serves\<close>

text \<open>
  The pages that a service serves to a traversal. \<open>fetch\<close> is the client method of the
  collection, as a function of the requests issued so far and of the query, and \<open>req\<close>
  names the request of a query. \<open>served fetch req log nextURL pages log1 nextURL1\<close>:
  asked from \<open>log\<close> on, first with the query of \<open>nextURL\<close>, the service returns the
  pages \<open>pages\<close>, one after the other, each with a next-page link that is not blank and
  each requested at the link of the one before; \<open>log1\<close> holds the requests then issued
  and \<open>nextURL1\<close> is the last link.
\<close>

inductive served ::
  "(request list \<Rightarrow> page_query \<Rightarrow> go_error + 'a Page) \<Rightarrow> (page_query \<Rightarrow> request)
    \<Rightarrow> request list \<Rightarrow> string \<Rightarrow> 'a Page list \<Rightarrow> request list \<Rightarrow> string \<Rightarrow> bool"
  for fetch req where
  none: "served fetch req log nextURL [] log nextURL"
| page: "fetch log (next_query nextURL) = Inr first
    \<Longrightarrow> TrimSpace (Links_Next first) \<noteq> ''''
    \<Longrightarrow> served fetch req (log @ [req (next_query nextURL)]) (TrimSpace (Links_Next first))
          pages log1 nextURL1
    \<Longrightarrow> served fetch req log nextURL (first # pages) log1 nextURL1"

text \<open>
  A whole collection: from the first request on the service returns the pages \<open>pages\<close>,
  the last of them with a blank link, and \<open>log1\<close> holds the requests issued.
\<close>

definition traversed ::
  "(request list \<Rightarrow> page_query \<Rightarrow> go_error + 'a Page) \<Rightarrow> (page_query \<Rightarrow> request)
    \<Rightarrow> request list \<Rightarrow> 'a Page list \<Rightarrow> request list \<Rightarrow> bool" where
  "traversed fetch req log pages log1 \<longleftrightarrow>
     (\<exists>before final log0 nextURL.
        pages = before @ [final]
        \<and> served fetch req log '''' before log0 nextURL
        \<and> fetch log0 (next_query nextURL) = Inr final
        \<and> TrimSpace (Links_Next final) = ''''
        \<and> log1 = log0 @ [req (next_query nextURL)])"

text \<open>
  A failing fetch: from the first request on the service returns some pages, any number
  of them, and then fails with \<open>err\<close>; \<open>log1\<close> holds the requests issued, the failing
  one last.
\<close>

definition failed_after ::
  "(request list \<Rightarrow> page_query \<Rightarrow> go_error + 'a Page) \<Rightarrow> (page_query \<Rightarrow> request)
    \<Rightarrow> request list \<Rightarrow> go_error \<Rightarrow> request list \<Rightarrow> bool" where
  "failed_after fetch req log err log1 \<longleftrightarrow>
     (\<exists>pages log0 nextURL.
        served fetch req log '''' pages log0 nextURL
        \<and> fetch log0 (next_query nextURL) = Inl err
        \<and> log1 = log0 @ [req (next_query nextURL)])"

text \<open>
  The subscriptions of the groups \<open>groupIDs\<close>, each group's collection served whole, one
  group after the other: the subscriptions of all the pages, in the order fetched, each
  with the identifier of its group.
\<close>

inductive subs_traversed ::
  "validate_client \<Rightarrow> string list \<Rightarrow> request list \<Rightarrow> Subscription list \<Rightarrow> request list \<Rightarrow> bool"
  for client where
  none: "subs_traversed client [] log [] log"
| group: "traversed (\<lambda>log. GetSubscriptions client log groupID) (ReqSubscriptions groupID)
            log pages log1
    \<Longrightarrow> subs_traversed client rest log1 subs log2
    \<Longrightarrow> subs_traversed client (groupID # rest) log
          (map (\<lambda>sub. \<lparr>Subscription.ID = Resource.ID sub,
                        Subscription.Name = SubscriptionAttributes.Name (Attributes sub),
                        Subscription.ProductID = SubscriptionAttributes.ProductID (Attributes sub),
                        Subscription.State = SubscriptionAttributes.State (Attributes sub),
                        Subscription.GroupID = groupID\<rparr>)
             (concat (map Data pages)) @ subs)
          log2"

lemma served_snoc:
  assumes "served fetch req log nextURL pages log1 nextURL1"
    and "fetch log1 (next_query nextURL1) = Inr final"
    and "TrimSpace (Links_Next final) \<noteq> ''''"
  shows "served fetch req log nextURL (pages @ [final])
    (log1 @ [req (next_query nextURL1)]) (TrimSpace (Links_Next final))"
  using assms
proof (induction rule: served.induct)
  case (none log nextURL)
  then show ?case
    using served.page [OF _ _ served.none] by fastforce
next
  case (page log nextURL first pages log1 nextURL1)
  then show ?case
    using served.page by fastforce
qed

lemma toSubscription_eq:
  "toSubscription groupID
    = (\<lambda>sub. \<lparr>Subscription.ID = Resource.ID sub,
               Subscription.Name = SubscriptionAttributes.Name (Attributes sub),
               Subscription.ProductID = SubscriptionAttributes.ProductID (Attributes sub),
               Subscription.State = SubscriptionAttributes.State (Attributes sub),
               Subscription.GroupID = groupID\<rparr>)"
  by (rule ext) (simp add: toSubscription_def)

subsection \<open>The traversal of \<open>validate iap\<close> and the service\<close>

lemma iap_pages_served:
  assumes "(iap_page client appID)\<^sup>*\<^sup>* s s1"
  shows "\<exists>pages. served (\<lambda>log. GetInAppPurchasesV2 client log appID) (ReqInAppPurchasesV2 appID)
      (fst s) (fst (snd s)) pages (fst s1) (fst (snd s1))
    \<and> snd (snd s1) = snd (snd s) @ map toIAP (concat (map Data pages))"
  using assms
proof (induction rule: rtranclp_induct)
  case base
  have "served (\<lambda>log. GetInAppPurchasesV2 client log appID) (ReqInAppPurchasesV2 appID)
      (fst s) (fst (snd s)) [] (fst s) (fst (snd s))"
    by (rule served.none)
  then show ?case by fastforce
next
  case (step y z)
  from step.IH obtain pages where
    sv: "served (\<lambda>log. GetInAppPurchasesV2 client log appID) (ReqInAppPurchasesV2 appID)
      (fst s) (fst (snd s)) pages (fst y) (fst (snd y))"
    and acc: "snd (snd y) = snd (snd s) @ map toIAP (concat (map Data pages))"
    by blast
  from step.hyps(2) show ?case
  proof (cases rule: iap_page.cases)
    case (page log nextURL resp iaps)
    from sv page(1,3,4) have "served (\<lambda>log. GetInAppPurchasesV2 client log appID)
        (ReqInAppPurchasesV2 appID) (fst s) (fst (snd s)) (pages @ [resp])
        (log @ [ReqInAppPurchasesV2 appID (next_query nextURL)]) (TrimSpace (Links_Next resp))"
      using served_snoc [of "\<lambda>log. GetInAppPurchasesV2 client log appID"
          "ReqInAppPurchasesV2 appID" "fst s" "fst (snd s)" pages log nextURL resp]
      by simp
    moreover have "iaps @ map toIAP (Data resp)
        = snd (snd s) @ map toIAP (concat (map Data (pages @ [resp])))"
      using acc page(1) by simp
    ultimately show ?thesis
      using page(2) by fastforce
  qed
qed

lemma served_iap_pages:
  assumes "served (\<lambda>log. GetInAppPurchasesV2 client log appID) (ReqInAppPurchasesV2 appID)
      log nextURL pages log1 nextURL1"
  shows "(iap_page client appID)\<^sup>*\<^sup>* (log, nextURL, iaps)
      (log1, nextURL1, iaps @ map toIAP (concat (map Data pages)))"
  using assms
proof (induction arbitrary: iaps rule: served.induct)
  case (none log nextURL)
  show ?case by simp
next
  case (page log nextURL first pages log1 nextURL1)
  have "iap_page client appID (log, nextURL, iaps)
      (log @ [ReqInAppPurchasesV2 appID (next_query nextURL)],
       TrimSpace (Links_Next first), iaps @ map toIAP (Data first))"
    using page.hyps(1,2) by (rule iap_page.page)
  moreover have "(iap_page client appID)\<^sup>*\<^sup>*
      (log @ [ReqInAppPurchasesV2 appID (next_query nextURL)],
       TrimSpace (Links_Next first), iaps @ map toIAP (Data first))
      (log1, nextURL1,
       (iaps @ map toIAP (Data first)) @ map toIAP (concat (map Data pages)))"
    by (rule page.IH)
  ultimately show ?case
    by (simp add: converse_rtranclp_into_rtranclp)
qed

lemma iap_loop_failed:
  assumes "failed_after (\<lambda>log. GetInAppPurchasesV2 client log appID) (ReqInAppPurchasesV2 appID)
      log err log1"
  shows "runValidateIAP_loop client appID log '''' iaps
    = Some (log1, Inl (Wrapped ''validate iap: failed to fetch in-app purchases'' err))"
proof -
  from assms obtain pages log0 nextURL where
    sv: "served (\<lambda>log. GetInAppPurchasesV2 client log appID) (ReqInAppPurchasesV2 appID)
      log '''' pages log0 nextURL"
    and bad: "GetInAppPurchasesV2 client log0 appID (next_query nextURL) = Inl err"
    and log1: "log1 = log0 @ [ReqInAppPurchasesV2 appID (next_query nextURL)]"
    unfolding failed_after_def by blast
  from sv have "(iap_page client appID)\<^sup>*\<^sup>* (log, '''', iaps)
      (log0, nextURL, iaps @ map toIAP (concat (map Data pages)))"
    by (rule served_iap_pages)
  then have "iap_from client appID (log, '''', iaps)
      = iap_from client appID (log0, nextURL, iaps @ map toIAP (concat (map Data pages)))"
    by (rule iap_pages_from)
  with bad log1 show ?thesis
    by (simp add: iap_from_def iap_fail)
qed

lemma iap_loop_traversed:
  assumes "traversed (\<lambda>log. GetInAppPurchasesV2 client log appID) (ReqInAppPurchasesV2 appID)
      log pages log1"
  shows "runValidateIAP_loop client appID log '''' iaps
    = Some (log1, Inr (iaps @ map toIAP (concat (map Data pages))))"
proof -
  from assms obtain before final log0 nextURL where
    pages: "pages = before @ [final]"
    and sv: "served (\<lambda>log. GetInAppPurchasesV2 client log appID) (ReqInAppPurchasesV2 appID)
      log '''' before log0 nextURL"
    and ok: "GetInAppPurchasesV2 client log0 appID (next_query nextURL) = Inr final"
    and blank: "TrimSpace (Links_Next final) = ''''"
    and log1: "log1 = log0 @ [ReqInAppPurchasesV2 appID (next_query nextURL)]"
    unfolding traversed_def by blast
  from sv have "(iap_page client appID)\<^sup>*\<^sup>* (log, '''', iaps)
      (log0, nextURL, iaps @ map toIAP (concat (map Data before)))"
    by (rule served_iap_pages)
  then have "iap_from client appID (log, '''', iaps)
      = iap_from client appID (log0, nextURL, iaps @ map toIAP (concat (map Data before)))"
    by (rule iap_pages_from)
  with ok blank log1 pages show ?thesis
    by (simp add: iap_from_def iap_last)
qed

lemma iap_loop_returned:
  assumes "runValidateIAP_loop client appID log '''' iaps = Some (log1, r)"
  shows "(\<exists>err. failed_after (\<lambda>log. GetInAppPurchasesV2 client log appID)
              (ReqInAppPurchasesV2 appID) log err log1
            \<and> r = Inl (Wrapped ''validate iap: failed to fetch in-app purchases'' err))
    \<or> (\<exists>pages. traversed (\<lambda>log. GetInAppPurchasesV2 client log appID)
              (ReqInAppPurchasesV2 appID) log pages log1
            \<and> r = Inr (iaps @ map toIAP (concat (map Data pages))))"
proof -
  from assms obtain s where reach: "(iap_page client appID)\<^sup>*\<^sup>* (log, '''', iaps) s"
    and fin: "iap_ends client appID s (log1, r)"
    using iap_returns by blast
  obtain log0 nextURL iaps0 where s: "s = (log0, nextURL, iaps0)"
    by (cases s)
  from iap_pages_served [OF reach] s obtain pages where
    sv: "served (\<lambda>log. GetInAppPurchasesV2 client log appID) (ReqInAppPurchasesV2 appID)
      log '''' pages log0 nextURL"
    and acc: "iaps0 = iaps @ map toIAP (concat (map Data pages))"
    by auto
  show ?thesis
  proof (cases "GetInAppPurchasesV2 client log0 appID (next_query nextURL)")
    case (Inl err)
    with fin s have out: "log1 = log0 @ [ReqInAppPurchasesV2 appID (next_query nextURL)]"
      "r = Inl (Wrapped ''validate iap: failed to fetch in-app purchases'' err)"
      by (simp_all add: iap_ends_def)
    from sv Inl out(1) have "failed_after (\<lambda>log. GetInAppPurchasesV2 client log appID)
        (ReqInAppPurchasesV2 appID) log err log1"
      unfolding failed_after_def by blast
    with out(2) show ?thesis by blast
  next
    case (Inr final)
    with fin s have blank: "TrimSpace (Links_Next final) = ''''"
      and out: "log1 = log0 @ [ReqInAppPurchasesV2 appID (next_query nextURL)]"
      "r = Inr (iaps0 @ map toIAP (Data final))"
      by (simp_all add: iap_ends_def)
    from sv Inr blank out(1) have "traversed (\<lambda>log. GetInAppPurchasesV2 client log appID)
        (ReqInAppPurchasesV2 appID) log (pages @ [final]) log1"
      unfolding traversed_def by blast
    moreover have "r = Inr (iaps @ map toIAP (concat (map Data (pages @ [final]))))"
      using out(2) acc by simp
    ultimately show ?thesis by blast
  qed
qed

subsection \<open>The traversal of one group's subscriptions and the service\<close>

lemma sub_pages_served:
  assumes "(sub_page client groupID)\<^sup>*\<^sup>* s s1"
  shows "\<exists>pages. served (\<lambda>log. GetSubscriptions client log groupID) (ReqSubscriptions groupID)
      (fst s) (fst (snd s)) pages (fst s1) (fst (snd s1))
    \<and> snd (snd s1) = snd (snd s) @ map (toSubscription groupID) (concat (map Data pages))"
  using assms
proof (induction rule: rtranclp_induct)
  case base
  have "served (\<lambda>log. GetSubscriptions client log groupID) (ReqSubscriptions groupID)
      (fst s) (fst (snd s)) [] (fst s) (fst (snd s))"
    by (rule served.none)
  then show ?case by fastforce
next
  case (step y z)
  from step.IH obtain pages where
    sv: "served (\<lambda>log. GetSubscriptions client log groupID) (ReqSubscriptions groupID)
      (fst s) (fst (snd s)) pages (fst y) (fst (snd y))"
    and acc: "snd (snd y) = snd (snd s) @ map (toSubscription groupID) (concat (map Data pages))"
    by blast
  from step.hyps(2) show ?case
  proof (cases rule: sub_page.cases)
    case (page log nextURL resp subs)
    from sv page(1,3,4) have "served (\<lambda>log. GetSubscriptions client log groupID)
        (ReqSubscriptions groupID) (fst s) (fst (snd s)) (pages @ [resp])
        (log @ [ReqSubscriptions groupID (next_query nextURL)]) (TrimSpace (Links_Next resp))"
      using served_snoc [of "\<lambda>log. GetSubscriptions client log groupID"
          "ReqSubscriptions groupID" "fst s" "fst (snd s)" pages log nextURL resp]
      by simp
    moreover have "subs @ map (toSubscription groupID) (Data resp)
        = snd (snd s) @ map (toSubscription groupID) (concat (map Data (pages @ [resp])))"
      using acc page(1) by simp
    ultimately show ?thesis
      using page(2) by fastforce
  qed
qed

lemma served_sub_pages:
  assumes "served (\<lambda>log. GetSubscriptions client log groupID) (ReqSubscriptions groupID)
      log nextURL pages log1 nextURL1"
  shows "(sub_page client groupID)\<^sup>*\<^sup>* (log, nextURL, subs)
      (log1, nextURL1, subs @ map (toSubscription groupID) (concat (map Data pages)))"
  using assms
proof (induction arbitrary: subs rule: served.induct)
  case (none log nextURL)
  show ?case by simp
next
  case (page log nextURL first pages log1 nextURL1)
  have "sub_page client groupID (log, nextURL, subs)
      (log @ [ReqSubscriptions groupID (next_query nextURL)],
       TrimSpace (Links_Next first), subs @ map (toSubscription groupID) (Data first))"
    using page.hyps(1,2) by (rule sub_page.page)
  moreover have "(sub_page client groupID)\<^sup>*\<^sup>*
      (log @ [ReqSubscriptions groupID (next_query nextURL)],
       TrimSpace (Links_Next first), subs @ map (toSubscription groupID) (Data first))
      (log1, nextURL1,
       (subs @ map (toSubscription groupID) (Data first)) @ map (toSubscription groupID) (concat (map Data pages)))"
    by (rule page.IH)
  ultimately show ?case
    by (simp add: converse_rtranclp_into_rtranclp)
qed

lemma sub_loop_failed:
  assumes "failed_after (\<lambda>log. GetSubscriptions client log groupID) (ReqSubscriptions groupID)
      log err log1"
  shows "runValidateSubscriptions_subs client groupID log '''' subs
    = Some (log1, Inl (Wrapped (''validate subscriptions: failed to fetch subscriptions for group '' @ groupID) err))"
proof -
  from assms obtain pages log0 nextURL where
    sv: "served (\<lambda>log. GetSubscriptions client log groupID) (ReqSubscriptions groupID)
      log '''' pages log0 nextURL"
    and bad: "GetSubscriptions client log0 groupID (next_query nextURL) = Inl err"
    and log1: "log1 = log0 @ [ReqSubscriptions groupID (next_query nextURL)]"
    unfolding failed_after_def by blast
  from sv have "(sub_page client groupID)\<^sup>*\<^sup>* (log, '''', subs)
      (log0, nextURL, subs @ map (toSubscription groupID) (concat (map Data pages)))"
    by (rule served_sub_pages)
  then have "sub_from client groupID (log, '''', subs)
      = sub_from client groupID (log0, nextURL, subs @ map (toSubscription groupID) (concat (map Data pages)))"
    by (rule sub_pages_from)
  with bad log1 show ?thesis
    by (simp add: sub_from_def sub_fail)
qed

lemma sub_loop_traversed:
  assumes "traversed (\<lambda>log. GetSubscriptions client log groupID) (ReqSubscriptions groupID)
      log pages log1"
  shows "runValidateSubscriptions_subs client groupID log '''' subs
    = Some (log1, Inr (subs @ map (toSubscription groupID) (concat (map Data pages))))"
proof -
  from assms obtain before final log0 nextURL where
    pages: "pages = before @ [final]"
    and sv: "served (\<lambda>log. GetSubscriptions client log groupID) (ReqSubscriptions groupID)
      log '''' before log0 nextURL"
    and ok: "GetSubscriptions client log0 groupID (next_query nextURL) = Inr final"
    and blank: "TrimSpace (Links_Next final) = ''''"
    and log1: "log1 = log0 @ [ReqSubscriptions groupID (next_query nextURL)]"
    unfolding traversed_def by blast
  from sv have "(sub_page client groupID)\<^sup>*\<^sup>* (log, '''', subs)
      (log0, nextURL, subs @ map (toSubscription groupID) (concat (map Data before)))"
    by (rule served_sub_pages)
  then have "sub_from client groupID (log, '''', subs)
      = sub_from client groupID (log0, nextURL, subs @ map (toSubscription groupID) (concat (map Data before)))"
    by (rule sub_pages_from)
  with ok blank log1 pages show ?thesis
    by (simp add: sub_from_def sub_last)
qed

lemma sub_loop_returned:
  assumes "runValidateSubscriptions_subs client groupID log '''' subs = Some (log1, r)"
  shows "(\<exists>err. failed_after (\<lambda>log. GetSubscriptions client log groupID)
              (ReqSubscriptions groupID) log err log1
            \<and> r = Inl (Wrapped (''validate subscriptions: failed to fetch subscriptions for group '' @ groupID) err))
    \<or> (\<exists>pages. traversed (\<lambda>log. GetSubscriptions client log groupID)
              (ReqSubscriptions groupID) log pages log1
            \<and> r = Inr (subs @ map (toSubscription groupID) (concat (map Data pages))))"
proof -
  from assms obtain s where reach: "(sub_page client groupID)\<^sup>*\<^sup>* (log, '''', subs) s"
    and fin: "sub_ends client groupID s (log1, r)"
    using sub_returns by blast
  obtain log0 nextURL subs0 where s: "s = (log0, nextURL, subs0)"
    by (cases s)
  from sub_pages_served [OF reach] s obtain pages where
    sv: "served (\<lambda>log. GetSubscriptions client log groupID) (ReqSubscriptions groupID)
      log '''' pages log0 nextURL"
    and acc: "subs0 = subs @ map (toSubscription groupID) (concat (map Data pages))"
    by auto
  show ?thesis
  proof (cases "GetSubscriptions client log0 groupID (next_query nextURL)")
    case (Inl err)
    with fin s have out: "log1 = log0 @ [ReqSubscriptions groupID (next_query nextURL)]"
      "r = Inl (Wrapped (''validate subscriptions: failed to fetch subscriptions for group '' @ groupID) err)"
      by (simp_all add: sub_ends_def)
    from sv Inl out(1) have "failed_after (\<lambda>log. GetSubscriptions client log groupID)
        (ReqSubscriptions groupID) log err log1"
      unfolding failed_after_def by blast
    with out(2) show ?thesis by blast
  next
    case (Inr final)
    with fin s have blank: "TrimSpace (Links_Next final) = ''''"
      and out: "log1 = log0 @ [ReqSubscriptions groupID (next_query nextURL)]"
      "r = Inr (subs0 @ map (toSubscription groupID) (Data final))"
      by (simp_all add: sub_ends_def)
    from sv Inr blank out(1) have "traversed (\<lambda>log. GetSubscriptions client log groupID)
        (ReqSubscriptions groupID) log (pages @ [final]) log1"
      unfolding traversed_def by blast
    moreover have "r = Inr (subs @ map (toSubscription groupID) (concat (map Data (pages @ [final]))))"
      using out(2) acc by simp
    ultimately show ?thesis by blast
  qed
qed

subsection \<open>The traversal of the subscription groups and the service\<close>

lemma group_pages_served:
  assumes "(group_page client appID)\<^sup>*\<^sup>* s s1"
  shows "\<exists>pages. served (\<lambda>log. GetSubscriptionGroups client log appID) (ReqSubscriptionGroups appID)
      (fst s) (fst (snd s)) pages (fst s1) (fst (snd s1))
    \<and> snd (snd s1) = snd (snd s) @ map Resource.ID (filter (\<lambda>group. TrimSpace (Resource.ID group) \<noteq> '''') (concat (map Data pages)))"
  using assms
proof (induction rule: rtranclp_induct)
  case base
  have "served (\<lambda>log. GetSubscriptionGroups client log appID) (ReqSubscriptionGroups appID)
      (fst s) (fst (snd s)) [] (fst s) (fst (snd s))"
    by (rule served.none)
  then show ?case by fastforce
next
  case (step y z)
  from step.IH obtain pages where
    sv: "served (\<lambda>log. GetSubscriptionGroups client log appID) (ReqSubscriptionGroups appID)
      (fst s) (fst (snd s)) pages (fst y) (fst (snd y))"
    and acc: "snd (snd y) = snd (snd s) @ map Resource.ID (filter (\<lambda>group. TrimSpace (Resource.ID group) \<noteq> '''') (concat (map Data pages)))"
    by blast
  from step.hyps(2) show ?case
  proof (cases rule: group_page.cases)
    case (page log nextURL resp groupIDs)
    from sv page(1,3,4) have "served (\<lambda>log. GetSubscriptionGroups client log appID)
        (ReqSubscriptionGroups appID) (fst s) (fst (snd s)) (pages @ [resp])
        (log @ [ReqSubscriptionGroups appID (next_query nextURL)]) (TrimSpace (Links_Next resp))"
      using served_snoc [of "\<lambda>log. GetSubscriptionGroups client log appID"
          "ReqSubscriptionGroups appID" "fst s" "fst (snd s)" pages log nextURL resp]
      by simp
    moreover have "groupIDs @ map Resource.ID (filter (\<lambda>group. TrimSpace (Resource.ID group) \<noteq> '''') (Data resp))
        = snd (snd s) @ map Resource.ID (filter (\<lambda>group. TrimSpace (Resource.ID group) \<noteq> '''') (concat (map Data (pages @ [resp]))))"
      using acc page(1) by simp
    ultimately show ?thesis
      using page(2) by fastforce
  qed
qed

lemma served_group_pages:
  assumes "served (\<lambda>log. GetSubscriptionGroups client log appID) (ReqSubscriptionGroups appID)
      log nextURL pages log1 nextURL1"
  shows "(group_page client appID)\<^sup>*\<^sup>* (log, nextURL, groupIDs)
      (log1, nextURL1, groupIDs @ map Resource.ID (filter (\<lambda>group. TrimSpace (Resource.ID group) \<noteq> '''') (concat (map Data pages))))"
  using assms
proof (induction arbitrary: groupIDs rule: served.induct)
  case (none log nextURL)
  show ?case by simp
next
  case (page log nextURL first pages log1 nextURL1)
  have "group_page client appID (log, nextURL, groupIDs)
      (log @ [ReqSubscriptionGroups appID (next_query nextURL)],
       TrimSpace (Links_Next first), groupIDs @ map Resource.ID (filter (\<lambda>group. TrimSpace (Resource.ID group) \<noteq> '''') (Data first)))"
    using page.hyps(1,2) by (rule group_page.page)
  moreover have "(group_page client appID)\<^sup>*\<^sup>*
      (log @ [ReqSubscriptionGroups appID (next_query nextURL)],
       TrimSpace (Links_Next first), groupIDs @ map Resource.ID (filter (\<lambda>group. TrimSpace (Resource.ID group) \<noteq> '''') (Data first)))
      (log1, nextURL1,
       (groupIDs @ map Resource.ID (filter (\<lambda>group. TrimSpace (Resource.ID group) \<noteq> '''') (Data first))) @ map Resource.ID (filter (\<lambda>group. TrimSpace (Resource.ID group) \<noteq> '''') (concat (map Data pages))))"
    by (rule page.IH)
  ultimately show ?case
    by (simp add: converse_rtranclp_into_rtranclp)
qed

lemma group_loop_failed:
  assumes "failed_after (\<lambda>log. GetSubscriptionGroups client log appID) (ReqSubscriptionGroups appID)
      log err log1"
  shows "runValidateSubscriptions_groups client appID log '''' groupIDs
    = Some (log1, Inl (Wrapped ''validate subscriptions: failed to fetch subscription groups'' err))"
proof -
  from assms obtain pages log0 nextURL where
    sv: "served (\<lambda>log. GetSubscriptionGroups client log appID) (ReqSubscriptionGroups appID)
      log '''' pages log0 nextURL"
    and bad: "GetSubscriptionGroups client log0 appID (next_query nextURL) = Inl err"
    and log1: "log1 = log0 @ [ReqSubscriptionGroups appID (next_query nextURL)]"
    unfolding failed_after_def by blast
  from sv have "(group_page client appID)\<^sup>*\<^sup>* (log, '''', groupIDs)
      (log0, nextURL, groupIDs @ map Resource.ID (filter (\<lambda>group. TrimSpace (Resource.ID group) \<noteq> '''') (concat (map Data pages))))"
    by (rule served_group_pages)
  then have "group_from client appID (log, '''', groupIDs)
      = group_from client appID (log0, nextURL, groupIDs @ map Resource.ID (filter (\<lambda>group. TrimSpace (Resource.ID group) \<noteq> '''') (concat (map Data pages))))"
    by (rule group_pages_from)
  with bad log1 show ?thesis
    by (simp add: group_from_def group_fail)
qed

lemma group_loop_traversed:
  assumes "traversed (\<lambda>log. GetSubscriptionGroups client log appID) (ReqSubscriptionGroups appID)
      log pages log1"
  shows "runValidateSubscriptions_groups client appID log '''' groupIDs
    = Some (log1, Inr (groupIDs @ map Resource.ID (filter (\<lambda>group. TrimSpace (Resource.ID group) \<noteq> '''') (concat (map Data pages)))))"
proof -
  from assms obtain before final log0 nextURL where
    pages: "pages = before @ [final]"
    and sv: "served (\<lambda>log. GetSubscriptionGroups client log appID) (ReqSubscriptionGroups appID)
      log '''' before log0 nextURL"
    and ok: "GetSubscriptionGroups client log0 appID (next_query nextURL) = Inr final"
    and blank: "TrimSpace (Links_Next final) = ''''"
    and log1: "log1 = log0 @ [ReqSubscriptionGroups appID (next_query nextURL)]"
    unfolding traversed_def by blast
  from sv have "(group_page client appID)\<^sup>*\<^sup>* (log, '''', groupIDs)
      (log0, nextURL, groupIDs @ map Resource.ID (filter (\<lambda>group. TrimSpace (Resource.ID group) \<noteq> '''') (concat (map Data before))))"
    by (rule served_group_pages)
  then have "group_from client appID (log, '''', groupIDs)
      = group_from client appID (log0, nextURL, groupIDs @ map Resource.ID (filter (\<lambda>group. TrimSpace (Resource.ID group) \<noteq> '''') (concat (map Data before))))"
    by (rule group_pages_from)
  with ok blank log1 pages show ?thesis
    by (simp add: group_from_def group_last)
qed

lemma group_loop_returned:
  assumes "runValidateSubscriptions_groups client appID log '''' groupIDs = Some (log1, r)"
  shows "(\<exists>err. failed_after (\<lambda>log. GetSubscriptionGroups client log appID)
              (ReqSubscriptionGroups appID) log err log1
            \<and> r = Inl (Wrapped ''validate subscriptions: failed to fetch subscription groups'' err))
    \<or> (\<exists>pages. traversed (\<lambda>log. GetSubscriptionGroups client log appID)
              (ReqSubscriptionGroups appID) log pages log1
            \<and> r = Inr (groupIDs @ map Resource.ID (filter (\<lambda>group. TrimSpace (Resource.ID group) \<noteq> '''') (concat (map Data pages)))))"
proof -
  from assms obtain s where reach: "(group_page client appID)\<^sup>*\<^sup>* (log, '''', groupIDs) s"
    and fin: "group_ends client appID s (log1, r)"
    using group_returns by blast
  obtain log0 nextURL groupIDs0 where s: "s = (log0, nextURL, groupIDs0)"
    by (cases s)
  from group_pages_served [OF reach] s obtain pages where
    sv: "served (\<lambda>log. GetSubscriptionGroups client log appID) (ReqSubscriptionGroups appID)
      log '''' pages log0 nextURL"
    and acc: "groupIDs0 = groupIDs @ map Resource.ID (filter (\<lambda>group. TrimSpace (Resource.ID group) \<noteq> '''') (concat (map Data pages)))"
    by auto
  show ?thesis
  proof (cases "GetSubscriptionGroups client log0 appID (next_query nextURL)")
    case (Inl err)
    with fin s have out: "log1 = log0 @ [ReqSubscriptionGroups appID (next_query nextURL)]"
      "r = Inl (Wrapped ''validate subscriptions: failed to fetch subscription groups'' err)"
      by (simp_all add: group_ends_def)
    from sv Inl out(1) have "failed_after (\<lambda>log. GetSubscriptionGroups client log appID)
        (ReqSubscriptionGroups appID) log err log1"
      unfolding failed_after_def by blast
    with out(2) show ?thesis by blast
  next
    case (Inr final)
    with fin s have blank: "TrimSpace (Links_Next final) = ''''"
      and out: "log1 = log0 @ [ReqSubscriptionGroups appID (next_query nextURL)]"
      "r = Inr (groupIDs0 @ map Resource.ID (filter (\<lambda>group. TrimSpace (Resource.ID group) \<noteq> '''') (Data final)))"
      by (simp_all add: group_ends_def)
    from sv Inr blank out(1) have "traversed (\<lambda>log. GetSubscriptionGroups client log appID)
        (ReqSubscriptionGroups appID) log (pages @ [final]) log1"
      unfolding traversed_def by blast
    moreover have "r = Inr (groupIDs @ map Resource.ID (filter (\<lambda>group. TrimSpace (Resource.ID group) \<noteq> '''') (concat (map Data (pages @ [final])))))"
      using out(2) acc by simp
    ultimately show ?thesis by blast
  qed
qed

subsection \<open>The loop over the groups and the service\<close>

lemma traversedI:
  assumes "served fetch req log '''' before log0 nextURL"
    and "fetch log0 (next_query nextURL) = Inr final"
    and "TrimSpace (Links_Next final) = ''''"
  shows "traversed fetch req log (before @ [final]) (log0 @ [req (next_query nextURL)])"
  using assms unfolding traversed_def by blast

lemma failed_afterI:
  assumes "served fetch req log '''' pages log0 nextURL"
    and "fetch log0 (next_query nextURL) = Inl err"
  shows "failed_after fetch req log err (log0 @ [req (next_query nextURL)])"
  using assms unfolding failed_after_def by blast

lemma each_traversed:
  assumes "subs_traversed client before log subs log2"
  shows "runValidateSubscriptions_each client (before @ rest) log acc
    = runValidateSubscriptions_each client rest log2 (acc @ subs)"
  using assms
proof (induction arbitrary: acc rule: subs_traversed.induct)
  case (none log)
  show ?case by simp
next
  case (group groupID log pages log1 others subs log2)
  have "runValidateSubscriptions_subs client groupID log '''' acc
      = Some (log1, Inr (acc @ map (toSubscription groupID) (concat (map Data pages))))"
    using group.hyps(1) by (rule sub_loop_traversed)
  then have "runValidateSubscriptions_each client ((groupID # others) @ rest) log acc
      = runValidateSubscriptions_each client (others @ rest) log1
          (acc @ map (toSubscription groupID) (concat (map Data pages)))"
    by simp
  also have "\<dots> = runValidateSubscriptions_each client rest log2
      ((acc @ map (toSubscription groupID) (concat (map Data pages))) @ subs)"
    by (rule group.IH)
  finally show ?case
    by (simp add: toSubscription_eq)
qed

lemma each_failed:
  assumes "failed_after (\<lambda>log. GetSubscriptions client log groupID) (ReqSubscriptions groupID)
      log err log1"
  shows "runValidateSubscriptions_each client (groupID # rest) log acc
    = Some (log1, Inl (Wrapped (''validate subscriptions: failed to fetch subscriptions for group ''
                                 @ groupID) err))"
proof -
  have "runValidateSubscriptions_subs client groupID log '''' acc
      = Some (log1, Inl (Wrapped (''validate subscriptions: failed to fetch subscriptions for group ''
                                   @ groupID) err))"
    using assms by (rule sub_loop_failed)
  then show ?thesis by simp
qed

lemma each_returned:
  assumes "runValidateSubscriptions_each client ids log acc = Some (log3, r)"
  shows "(\<exists>before groupID rest subs log2 err.
            ids = before @ groupID # rest
            \<and> subs_traversed client before log subs log2
            \<and> failed_after (\<lambda>log. GetSubscriptions client log groupID)
                  (ReqSubscriptions groupID) log2 err log3
            \<and> r = Inl (Wrapped (''validate subscriptions: failed to fetch subscriptions for group ''
                                  @ groupID) err))
    \<or> (\<exists>subs. subs_traversed client ids log subs log3 \<and> r = Inr (acc @ subs))"
  using assms
proof (induction ids arbitrary: log acc)
  case Nil
  then have "log3 = log" and "r = Inr acc" by simp_all
  moreover have "subs_traversed client [] log [] log"
    by (rule subs_traversed.none)
  ultimately show ?case by auto
next
  case (Cons g ids)
  from Cons.prems obtain log1 r1 where
    loop: "runValidateSubscriptions_subs client g log '''' acc = Some (log1, r1)"
    by (cases "runValidateSubscriptions_subs client g log '''' acc") auto
  from sub_loop_returned [OF loop] show ?case
  proof (elim disjE exE conjE)
    fix err
    assume bad: "failed_after (\<lambda>log. GetSubscriptions client log g) (ReqSubscriptions g)
        log err log1"
      and r1: "r1 = Inl (Wrapped (''validate subscriptions: failed to fetch subscriptions for group ''
                                   @ g) err)"
    from Cons.prems loop r1 have "log3 = log1" and "r = r1" by simp_all
    moreover have "subs_traversed client [] log [] log"
      by (rule subs_traversed.none)
    moreover have "g # ids = [] @ g # ids" by simp
    ultimately show ?thesis
      using bad r1 by blast
  next
    fix pages
    assume ok: "traversed (\<lambda>log. GetSubscriptions client log g) (ReqSubscriptions g)
        log pages log1"
      and r1: "r1 = Inr (acc @ map (toSubscription g) (concat (map Data pages)))"
    from Cons.prems loop r1 have rest: "runValidateSubscriptions_each client ids log1
        (acc @ map (toSubscription g) (concat (map Data pages))) = Some (log3, r)"
      by simp
    from Cons.IH [OF rest] show ?thesis
    proof (elim disjE exE conjE)
      fix before groupID others subs log2 err
      assume ids: "ids = before @ groupID # others"
        and tr: "subs_traversed client before log1 subs log2"
        and bad: "failed_after (\<lambda>log. GetSubscriptions client log groupID)
            (ReqSubscriptions groupID) log2 err log3"
        and r: "r = Inl (Wrapped
            (''validate subscriptions: failed to fetch subscriptions for group '' @ groupID) err)"
      from ok tr have "subs_traversed client (g # before) log
          (map (\<lambda>sub. \<lparr>Subscription.ID = Resource.ID sub,
                        Subscription.Name = SubscriptionAttributes.Name (Attributes sub),
                        Subscription.ProductID = SubscriptionAttributes.ProductID (Attributes sub),
                        Subscription.State = SubscriptionAttributes.State (Attributes sub),
                        Subscription.GroupID = g\<rparr>)
             (concat (map Data pages)) @ subs) log2"
        by (rule subs_traversed.group)
      moreover from ids have "g # ids = (g # before) @ groupID # others" by simp
      ultimately show ?thesis
        using bad r by blast
    next
      fix subs
      assume tr: "subs_traversed client ids log1 subs log3"
        and r: "r = Inr ((acc @ map (toSubscription g) (concat (map Data pages))) @ subs)"
      from ok tr have "subs_traversed client (g # ids) log
          (map (\<lambda>sub. \<lparr>Subscription.ID = Resource.ID sub,
                        Subscription.Name = SubscriptionAttributes.Name (Attributes sub),
                        Subscription.ProductID = SubscriptionAttributes.ProductID (Attributes sub),
                        Subscription.State = SubscriptionAttributes.State (Attributes sub),
                        Subscription.GroupID = g\<rparr>)
             (concat (map Data pages)) @ subs) log3"
        by (rule subs_traversed.group)
      moreover from r have "r = Inr (acc @
          (map (\<lambda>sub. \<lparr>Subscription.ID = Resource.ID sub,
                        Subscription.Name = SubscriptionAttributes.Name (Attributes sub),
                        Subscription.ProductID = SubscriptionAttributes.ProductID (Attributes sub),
                        Subscription.State = SubscriptionAttributes.State (Attributes sub),
                        Subscription.GroupID = g\<rparr>)
             (concat (map Data pages)) @ subs))"
        by (simp add: toSubscription_eq)
      ultimately show ?thesis by blast
    qed
  qed
qed

subsection \<open>The commands and the service\<close>

lemma runValidateIAP_of_loop:
  assumes "clientFactory ext = Inr client"
    and "runValidateIAP_loop client (validateIAPOptions.AppID opts) log '''' [] = Some (log1, r)"
  shows "\<exists>out. runValidateIAP ext log opts = Some out \<and> Requests out = log1
    \<and> (case r of
          Inl e \<Rightarrow> Reports out = [] \<and> Returned out = Some e
        | Inr fetched \<Rightarrow> Reports out = [ValidateIAP ext
            \<lparr>IAPInput.AppID = validateIAPOptions.AppID opts, IAPs = fetched\<rparr>
            (validateIAPOptions.Strict opts)])"
  using assms by (cases r) (simp_all add: runValidateIAP_def Let_def split: option.splits)

lemma runValidateIAP_loop_returns:
  assumes "clientFactory ext = Inr client"
    and "runValidateIAP ext log opts = Some out"
  shows "\<exists>log1 r. runValidateIAP_loop client (validateIAPOptions.AppID opts) log '''' []
    = Some (log1, r)"
  using assms by (auto simp: runValidateIAP_def split: option.splits)

lemma runValidateSubscriptions_of_loops:
  assumes "clientFactory ext = Inr client"
    and "runValidateSubscriptions_groups client (validateSubscriptionsOptions.AppID opts)
           log '''' [] = Some (log1, Inr groupIDs)"
    and "runValidateSubscriptions_each client groupIDs log1 [] = Some (log2, r)"
  shows "\<exists>out. runValidateSubscriptions ext log opts = Some out \<and> Requests out = log2
    \<and> (case r of
          Inl e \<Rightarrow> Reports out = [] \<and> Returned out = Some e
        | Inr fetched \<Rightarrow> Reports out = [ValidateSubscriptions ext
            \<lparr>SubscriptionsInput.AppID = validateSubscriptionsOptions.AppID opts,
             Subscriptions = fetched\<rparr>
            (validateSubscriptionsOptions.Strict opts)])"
  using assms
  by (cases r) (simp_all add: runValidateSubscriptions_def Let_def split: option.splits)

lemma runValidateSubscriptions_of_groups:
  assumes "clientFactory ext = Inr client"
    and "runValidateSubscriptions_groups client (validateSubscriptionsOptions.AppID opts)
           log '''' [] = Some (log1, Inl e)"
  shows "runValidateSubscriptions ext log opts
    = Some \<lparr>Requests = log1, Reports = [], Returned = Some e\<rparr>"
  using assms by (simp add: runValidateSubscriptions_def)

lemma runValidateSubscriptions_loops_return:
  assumes "clientFactory ext = Inr client"
    and "runValidateSubscriptions ext log opts = Some out"
  shows "(\<exists>log1 e. runValidateSubscriptions_groups client
              (validateSubscriptionsOptions.AppID opts) log '''' [] = Some (log1, Inl e))
    \<or> (\<exists>log1 groupIDs log2 r.
          runValidateSubscriptions_groups client (validateSubscriptionsOptions.AppID opts)
            log '''' [] = Some (log1, Inr groupIDs)
          \<and> runValidateSubscriptions_each client groupIDs log1 [] = Some (log2, r))"
  using assms
  by (auto simp: runValidateSubscriptions_def split: option.splits sum.splits)

subsection \<open>A failing fetch\<close>

text \<open>
  Claim C6. Whenever a page fetch fails, the traversal ends at once and the command
  returns the fetch error wrapped with its message: the failing request is the last one
  issued, nothing is handed to the validator and nothing is printed, whatever the pages
  fetched before held. For \<open>validate iap\<close>: a fetch that fails after any number of pages
  makes the command return in this way; and whenever the command returns, either a fetch
  failed and it returned in this way, or the service served the whole collection and the
  one report is the validation of the items of all its pages, in the order fetched. For
  \<open>validate subscriptions\<close>: a fetch of a page of groups that fails after any number
  of pages makes the command return in this way; so does a fetch of a page of
  subscriptions of any group that fails after any number of pages, all the groups before
  it having been traversed whole; and whenever the command returns, either one of these
  two failures occurred and it returned in this way, or the service served all the pages
  of groups and all the pages of subscriptions of every group and the one report is the
  validation of all these subscriptions. No run returns a report of a part of a
  collection.
\<close>

theorem failed_fetch_discards_traversal:
  "(clientFactory ext = Inr client
      \<and> failed_after (\<lambda>log. GetInAppPurchasesV2 client log (validateIAPOptions.AppID opts))
            (ReqInAppPurchasesV2 (validateIAPOptions.AppID opts)) log err log1
     \<longrightarrow> runValidateIAP ext log opts
          = Some \<lparr>Requests = log1, Reports = [],
                  Returned = Some (Wrapped ''validate iap: failed to fetch in-app purchases'' err)\<rparr>)
   \<and> (clientFactory ext = Inr client \<and> runValidateIAP ext log opts = Some out
     \<longrightarrow> (Reports out = []
            \<and> (\<exists>e. failed_after (\<lambda>log. GetInAppPurchasesV2 client log (validateIAPOptions.AppID opts))
                       (ReqInAppPurchasesV2 (validateIAPOptions.AppID opts)) log e (Requests out)
                 \<and> Returned out
                     = Some (Wrapped ''validate iap: failed to fetch in-app purchases'' e)))
          \<or> (\<exists>pages.
                traversed (\<lambda>log. GetInAppPurchasesV2 client log (validateIAPOptions.AppID opts))
                  (ReqInAppPurchasesV2 (validateIAPOptions.AppID opts)) log pages (Requests out)
                \<and> Reports out = [ValidateIAP ext
                     \<lparr>IAPInput.AppID = validateIAPOptions.AppID opts,
                      IAPs = map (\<lambda>item.
                        \<lparr>IAP.ID = Resource.ID item,
                         IAP.Name = InAppPurchaseV2Attributes.Name (Attributes item),
                         IAP.ProductID = InAppPurchaseV2Attributes.ProductID (Attributes item),
                         IAP.Type = InAppPurchaseType (Attributes item),
                         IAP.State = InAppPurchaseV2Attributes.State (Attributes item)\<rparr>)
                        (concat (map Data pages))\<rparr>
                     (validateIAPOptions.Strict opts)]))
   \<and> (clientFactory ext = Inr client
      \<and> failed_after (\<lambda>log. GetSubscriptionGroups client log (validateSubscriptionsOptions.AppID sopts))
            (ReqSubscriptionGroups (validateSubscriptionsOptions.AppID sopts)) log err log1
     \<longrightarrow> runValidateSubscriptions ext log sopts
          = Some \<lparr>Requests = log1, Reports = [],
                  Returned = Some (Wrapped
                    ''validate subscriptions: failed to fetch subscription groups'' err)\<rparr>)
   \<and> (clientFactory ext = Inr client
      \<and> traversed (\<lambda>log. GetSubscriptionGroups client log (validateSubscriptionsOptions.AppID sopts))
            (ReqSubscriptionGroups (validateSubscriptionsOptions.AppID sopts)) log groupPages log1
      \<and> map Resource.ID (filter (\<lambda>group. TrimSpace (Resource.ID group) \<noteq> '''')
            (concat (map Data groupPages))) = before @ groupID # rest
      \<and> subs_traversed client before log1 subs log2
      \<and> failed_after (\<lambda>log. GetSubscriptions client log groupID) (ReqSubscriptions groupID)
            log2 err log3
     \<longrightarrow> runValidateSubscriptions ext log sopts
          = Some \<lparr>Requests = log3, Reports = [],
                  Returned = Some (Wrapped
                    (''validate subscriptions: failed to fetch subscriptions for group ''
                       @ groupID) err)\<rparr>)
   \<and> (clientFactory ext = Inr client \<and> runValidateSubscriptions ext log sopts = Some sout
     \<longrightarrow> (Reports sout = []
            \<and> (\<exists>e. failed_after
                       (\<lambda>log. GetSubscriptionGroups client log
                                (validateSubscriptionsOptions.AppID sopts))
                       (ReqSubscriptionGroups (validateSubscriptionsOptions.AppID sopts))
                       log e (Requests sout)
                 \<and> Returned sout = Some (Wrapped
                      ''validate subscriptions: failed to fetch subscription groups'' e)))
          \<or> (Reports sout = []
            \<and> (\<exists>pages logA earlier g todo fetched logB e.
                 traversed
                   (\<lambda>log. GetSubscriptionGroups client log
                            (validateSubscriptionsOptions.AppID sopts))
                   (ReqSubscriptionGroups (validateSubscriptionsOptions.AppID sopts))
                   log pages logA
                 \<and> map Resource.ID (filter (\<lambda>group. TrimSpace (Resource.ID group) \<noteq> '''')
                       (concat (map Data pages))) = earlier @ g # todo
                 \<and> subs_traversed client earlier logA fetched logB
                 \<and> failed_after (\<lambda>log. GetSubscriptions client log g) (ReqSubscriptions g)
                       logB e (Requests sout)
                 \<and> Returned sout = Some (Wrapped
                      (''validate subscriptions: failed to fetch subscriptions for group '' @ g)
                      e)))
          \<or> (\<exists>pages logA fetched.
                traversed
                  (\<lambda>log. GetSubscriptionGroups client log
                           (validateSubscriptionsOptions.AppID sopts))
                  (ReqSubscriptionGroups (validateSubscriptionsOptions.AppID sopts))
                  log pages logA
                \<and> subs_traversed client
                     (map Resource.ID (filter (\<lambda>group. TrimSpace (Resource.ID group) \<noteq> '''')
                        (concat (map Data pages))))
                     logA fetched (Requests sout)
                \<and> Reports sout = [ValidateSubscriptions ext
                     \<lparr>SubscriptionsInput.AppID = validateSubscriptionsOptions.AppID sopts,
                      Subscriptions = fetched\<rparr>
                     (validateSubscriptionsOptions.Strict sopts)]))"
proof (intro conjI impI)
  assume a: "clientFactory ext = Inr client
      \<and> failed_after (\<lambda>log. GetInAppPurchasesV2 client log (validateIAPOptions.AppID opts))
            (ReqInAppPurchasesV2 (validateIAPOptions.AppID opts)) log err log1"
  then have "runValidateIAP_loop client (validateIAPOptions.AppID opts) log '''' []
      = Some (log1, Inl (Wrapped ''validate iap: failed to fetch in-app purchases'' err))"
    using iap_loop_failed by blast
  with a show "runValidateIAP ext log opts
      = Some \<lparr>Requests = log1, Reports = [],
              Returned = Some (Wrapped ''validate iap: failed to fetch in-app purchases'' err)\<rparr>"
    by (simp add: runValidateIAP_def)
next
  assume a: "clientFactory ext = Inr client \<and> runValidateIAP ext log opts = Some out"
  then obtain logA r where loop:
    "runValidateIAP_loop client (validateIAPOptions.AppID opts) log '''' [] = Some (logA, r)"
    using runValidateIAP_loop_returns by blast
  with a obtain out1 where "runValidateIAP ext log opts = Some out1"
    and req1: "Requests out1 = logA"
    and rep1: "case r of
          Inl e \<Rightarrow> Reports out1 = [] \<and> Returned out1 = Some e
        | Inr fetched \<Rightarrow> Reports out1 = [ValidateIAP ext
            \<lparr>IAPInput.AppID = validateIAPOptions.AppID opts, IAPs = fetched\<rparr>
            (validateIAPOptions.Strict opts)]"
    using runValidateIAP_of_loop by blast
  with a have out1: "out1 = out" by simp
  from iap_loop_returned [OF loop]
  show "(Reports out = []
            \<and> (\<exists>e. failed_after (\<lambda>log. GetInAppPurchasesV2 client log (validateIAPOptions.AppID opts))
                       (ReqInAppPurchasesV2 (validateIAPOptions.AppID opts)) log e (Requests out)
                 \<and> Returned out
                     = Some (Wrapped ''validate iap: failed to fetch in-app purchases'' e)))
          \<or> (\<exists>pages.
                traversed (\<lambda>log. GetInAppPurchasesV2 client log (validateIAPOptions.AppID opts))
                  (ReqInAppPurchasesV2 (validateIAPOptions.AppID opts)) log pages (Requests out)
                \<and> Reports out = [ValidateIAP ext
                     \<lparr>IAPInput.AppID = validateIAPOptions.AppID opts,
                      IAPs = map (\<lambda>item.
                        \<lparr>IAP.ID = Resource.ID item,
                         IAP.Name = InAppPurchaseV2Attributes.Name (Attributes item),
                         IAP.ProductID = InAppPurchaseV2Attributes.ProductID (Attributes item),
                         IAP.Type = InAppPurchaseType (Attributes item),
                         IAP.State = InAppPurchaseV2Attributes.State (Attributes item)\<rparr>)
                        (concat (map Data pages))\<rparr>
                     (validateIAPOptions.Strict opts)])"
  proof (elim disjE exE conjE)
    fix e
    assume "failed_after (\<lambda>log. GetInAppPurchasesV2 client log (validateIAPOptions.AppID opts))
        (ReqInAppPurchasesV2 (validateIAPOptions.AppID opts)) log e logA"
      and "r = Inl (Wrapped ''validate iap: failed to fetch in-app purchases'' e)"
    with req1 rep1 out1 show ?thesis by auto
  next
    fix pages
    assume "traversed (\<lambda>log. GetInAppPurchasesV2 client log (validateIAPOptions.AppID opts))
        (ReqInAppPurchasesV2 (validateIAPOptions.AppID opts)) log pages logA"
      and "r = Inr ([] @ map toIAP (concat (map Data pages)))"
    with req1 rep1 out1 show ?thesis
      by (auto simp: toIAP_eq)
  qed
next
  assume a: "clientFactory ext = Inr client
      \<and> failed_after (\<lambda>log. GetSubscriptionGroups client log (validateSubscriptionsOptions.AppID sopts))
            (ReqSubscriptionGroups (validateSubscriptionsOptions.AppID sopts)) log err log1"
  then have "runValidateSubscriptions_groups client (validateSubscriptionsOptions.AppID sopts)
      log '''' []
      = Some (log1, Inl (Wrapped ''validate subscriptions: failed to fetch subscription groups'' err))"
    using group_loop_failed by blast
  with a show "runValidateSubscriptions ext log sopts
      = Some \<lparr>Requests = log1, Reports = [],
              Returned = Some (Wrapped
                ''validate subscriptions: failed to fetch subscription groups'' err)\<rparr>"
    using runValidateSubscriptions_of_groups by blast
next
  assume a: "clientFactory ext = Inr client
      \<and> traversed (\<lambda>log. GetSubscriptionGroups client log (validateSubscriptionsOptions.AppID sopts))
            (ReqSubscriptionGroups (validateSubscriptionsOptions.AppID sopts)) log groupPages log1
      \<and> map Resource.ID (filter (\<lambda>group. TrimSpace (Resource.ID group) \<noteq> '''')
            (concat (map Data groupPages))) = before @ groupID # rest
      \<and> subs_traversed client before log1 subs log2
      \<and> failed_after (\<lambda>log. GetSubscriptions client log groupID) (ReqSubscriptions groupID)
            log2 err log3"
  then have "runValidateSubscriptions_groups client (validateSubscriptionsOptions.AppID sopts)
      log '''' []
      = Some (log1, Inr ([] @ map Resource.ID
          (filter (\<lambda>group. TrimSpace (Resource.ID group) \<noteq> '''') (concat (map Data groupPages)))))"
    using group_loop_traversed by blast
  with a have groups: "runValidateSubscriptions_groups client
      (validateSubscriptionsOptions.AppID sopts) log '''' []
      = Some (log1, Inr (before @ groupID # rest))"
    by simp
  from a have "runValidateSubscriptions_each client (before @ groupID # rest) log1 []
      = runValidateSubscriptions_each client (groupID # rest) log2 ([] @ subs)"
    using each_traversed by blast
  also from a have "\<dots> = Some (log3, Inl (Wrapped
      (''validate subscriptions: failed to fetch subscriptions for group '' @ groupID) err))"
    using each_failed by blast
  finally have "runValidateSubscriptions_each client (before @ groupID # rest) log1 []
      = Some (log3, Inl (Wrapped
          (''validate subscriptions: failed to fetch subscriptions for group '' @ groupID) err))" .
  with a groups show "runValidateSubscriptions ext log sopts
      = Some \<lparr>Requests = log3, Reports = [],
              Returned = Some (Wrapped
                (''validate subscriptions: failed to fetch subscriptions for group ''
                   @ groupID) err)\<rparr>"
    by (simp add: runValidateSubscriptions_def)
next
  assume a: "clientFactory ext = Inr client \<and> runValidateSubscriptions ext log sopts = Some sout"
  let ?G = "\<lambda>log. GetSubscriptionGroups client log (validateSubscriptionsOptions.AppID sopts)"
  let ?R = "ReqSubscriptionGroups (validateSubscriptionsOptions.AppID sopts)"
  let ?first = "Reports sout = []
      \<and> (\<exists>e. failed_after ?G ?R log e (Requests sout)
           \<and> Returned sout = Some (Wrapped
                ''validate subscriptions: failed to fetch subscription groups'' e))"
  let ?second = "Reports sout = []
      \<and> (\<exists>pages logA earlier g todo fetched logB e.
           traversed ?G ?R log pages logA
           \<and> map Resource.ID (filter (\<lambda>group. TrimSpace (Resource.ID group) \<noteq> '''')
                 (concat (map Data pages))) = earlier @ g # todo
           \<and> subs_traversed client earlier logA fetched logB
           \<and> failed_after (\<lambda>log. GetSubscriptions client log g) (ReqSubscriptions g)
                 logB e (Requests sout)
           \<and> Returned sout = Some (Wrapped
                (''validate subscriptions: failed to fetch subscriptions for group '' @ g) e))"
  let ?third = "\<exists>pages logA fetched.
      traversed ?G ?R log pages logA
      \<and> subs_traversed client
           (map Resource.ID (filter (\<lambda>group. TrimSpace (Resource.ID group) \<noteq> '''')
              (concat (map Data pages))))
           logA fetched (Requests sout)
      \<and> Reports sout = [ValidateSubscriptions ext
           \<lparr>SubscriptionsInput.AppID = validateSubscriptionsOptions.AppID sopts,
            Subscriptions = fetched\<rparr>
           (validateSubscriptionsOptions.Strict sopts)]"
  from a runValidateSubscriptions_loops_return [of ext client log sopts sout]
  consider (groups) logA e0 where
      "runValidateSubscriptions_groups client (validateSubscriptionsOptions.AppID sopts)
         log '''' [] = Some (logA, Inl e0)"
    | (each) logA groupIDs logB r where
      "runValidateSubscriptions_groups client (validateSubscriptionsOptions.AppID sopts)
         log '''' [] = Some (logA, Inr groupIDs)"
      "runValidateSubscriptions_each client groupIDs logA [] = Some (logB, r)"
    by blast
  then show "?first \<or> ?second \<or> ?third"
  proof cases
    case groups
    from group_loop_returned [OF groups] obtain e where
      bad: "failed_after ?G ?R log e logA"
      and e0: "e0 = Wrapped ''validate subscriptions: failed to fetch subscription groups'' e"
      by auto
    from a groups have "sout = \<lparr>Requests = logA, Reports = [], Returned = Some e0\<rparr>"
      using runValidateSubscriptions_of_groups by fastforce
    with bad e0 have ?first by auto
    then show ?thesis by blast
  next
    case each
    from group_loop_returned [OF each(1)] obtain pages where
      tr: "traversed ?G ?R log pages logA"
      and ids: "groupIDs = map Resource.ID
          (filter (\<lambda>group. TrimSpace (Resource.ID group) \<noteq> '''') (concat (map Data pages)))"
      by auto
    from a each obtain out1 where "runValidateSubscriptions ext log sopts = Some out1"
      and req1: "Requests out1 = logB"
      and rep1: "case r of
          Inl e \<Rightarrow> Reports out1 = [] \<and> Returned out1 = Some e
        | Inr fetched \<Rightarrow> Reports out1 = [ValidateSubscriptions ext
            \<lparr>SubscriptionsInput.AppID = validateSubscriptionsOptions.AppID sopts,
             Subscriptions = fetched\<rparr>
            (validateSubscriptionsOptions.Strict sopts)]"
      using runValidateSubscriptions_of_loops by blast
    with a have out1: "out1 = sout" by simp
    from each_returned [OF each(2)] show ?thesis
    proof (elim disjE exE conjE)
      fix earlier g todo fetched logC e
      assume ids2: "groupIDs = earlier @ g # todo"
        and tr2: "subs_traversed client earlier logA fetched logC"
        and bad: "failed_after (\<lambda>log. GetSubscriptions client log g) (ReqSubscriptions g)
            logC e logB"
        and r: "r = Inl (Wrapped
            (''validate subscriptions: failed to fetch subscriptions for group '' @ g) e)"
      from rep1 r out1 have rep: "Reports sout = []"
        and ret: "Returned sout = Some (Wrapped
            (''validate subscriptions: failed to fetch subscriptions for group '' @ g) e)"
        by simp_all
      from ids ids2 have split: "map Resource.ID
          (filter (\<lambda>group. TrimSpace (Resource.ID group) \<noteq> '''') (concat (map Data pages)))
          = earlier @ g # todo"
        by simp
      from bad req1 out1 have "failed_after (\<lambda>log. GetSubscriptions client log g)
          (ReqSubscriptions g) logC e (Requests sout)"
        by simp
      with tr split tr2 ret have "\<exists>pages logA earlier g todo fetched logB e.
           traversed ?G ?R log pages logA
           \<and> map Resource.ID (filter (\<lambda>group. TrimSpace (Resource.ID group) \<noteq> '''')
                 (concat (map Data pages))) = earlier @ g # todo
           \<and> subs_traversed client earlier logA fetched logB
           \<and> failed_after (\<lambda>log. GetSubscriptions client log g) (ReqSubscriptions g)
                 logB e (Requests sout)
           \<and> Returned sout = Some (Wrapped
                (''validate subscriptions: failed to fetch subscriptions for group '' @ g) e)"
        by blast
      with rep have ?second by (rule conjI)
      then show ?thesis by blast
    next
      fix fetched
      assume "subs_traversed client groupIDs logA fetched logB" and "r = Inr ([] @ fetched)"
      with tr ids req1 rep1 out1 have ?third by auto
      then show ?thesis by blast
    qed
  qed
qed

text \<open>
  Services for the subscriptions command: one with two groups whose subscriptions are one
  page each; the same with the subscriptions of the second group unreachable; and one
  whose groups cannot be fetched.
\<close>

definition sub_a :: "SubscriptionAttributes Resource" where
  "sub_a = \<lparr>ID = ''sub-a'', Attributes =
     \<lparr>SubscriptionAttributes.Name = ''Monthly'',
      SubscriptionAttributes.ProductID = ''com.example.monthly'',
      SubscriptionAttributes.State = ''APPROVED''\<rparr>\<rparr>"

definition sub_b :: "SubscriptionAttributes Resource" where
  "sub_b = \<lparr>ID = ''sub-b'', Attributes =
     \<lparr>SubscriptionAttributes.Name = ''Yearly'',
      SubscriptionAttributes.ProductID = ''com.example.yearly'',
      SubscriptionAttributes.State = ''MISSING_METADATA''\<rparr>\<rparr>"

definition groups_page :: "unit Resource Page" where
  "groups_page = \<lparr>Data = [\<lparr>ID = ''group-1'', Attributes = ()\<rparr>,
                           \<lparr>ID = ''group-2'', Attributes = ()\<rparr>], Links_Next = ''''\<rparr>"

definition two_group_client :: validate_client where
  "two_group_client = \<lparr>
     GetInAppPurchasesV2 = (\<lambda>log appID query. Inr \<lparr>Data = [], Links_Next = ''''\<rparr>),
     GetSubscriptionGroups = (\<lambda>log appID query. Inr groups_page),
     GetSubscriptions = (\<lambda>log groupID query.
        if groupID = ''group-1'' then Inr \<lparr>Data = [sub_a], Links_Next = ''''\<rparr>
        else Inr \<lparr>Data = [sub_b], Links_Next = ''''\<rparr>)\<rparr>"

definition later_group_client :: validate_client where
  "later_group_client = two_group_client\<lparr>
     GetSubscriptions := (\<lambda>log groupID query.
        if groupID = ''group-1'' then Inr \<lparr>Data = [sub_a], Links_Next = ''''\<rparr>
        else Inl (ApiError False ''timeout''))\<rparr>"

definition no_groups_client :: validate_client where
  "no_groups_client = two_group_client\<lparr>
     GetSubscriptionGroups := (\<lambda>log appID query. Inl (ApiError False ''timeout''))\<rparr>"

text \<open>For these examples the report of the subscriptions validator is its input.\<close>

definition example_sub_externals :: "validate_client \<Rightarrow> SubscriptionsInput externals" where
  "example_sub_externals client = \<lparr>
     clientFactory = Inr client,
     ValidateIAP = (\<lambda>input strict.
        \<lparr>SubscriptionsInput.AppID = IAPInput.AppID input, Subscriptions = []\<rparr>),
     ValidateSubscriptions = (\<lambda>input strict. input),
     SummaryBlocking = (\<lambda>report. 0),
     PrintOutput = (\<lambda>report output pretty. None)\<rparr>"

definition example_sub_options :: validateSubscriptionsOptions where
  "example_sub_options = \<lparr>validateSubscriptionsOptions.AppID = ''app-1'',
     validateSubscriptionsOptions.Strict = False,
     validateSubscriptionsOptions.Output = ''json'',
     validateSubscriptionsOptions.Pretty = False\<rparr>"

lemma second_url_trimmed: "TrimSpace second_url = second_url"
  unfolding second_url_def by code_simp

lemma second_url_query: "next_query second_url = WithNextURL second_url"
  by (simp add: next_query_def second_url_trimmed) (simp add: second_url_def)

lemma group_ids_kept:
  "map Resource.ID (filter (\<lambda>group. TrimSpace (Resource.ID group) \<noteq> '''')
      (concat (map Data ([] @ [groups_page])))) = [''group-1'', ''group-2'']"
proof -
  have "TrimSpace ''group-1'' \<noteq> ''''" by code_simp
  moreover have "TrimSpace ''group-2'' \<noteq> ''''" by code_simp
  ultimately show ?thesis by (simp add: groups_page_def)
qed

theorem failed_fetch_discards_traversal_witness:
  "runValidateIAP (example_externals broken_page_client) [] example_options
      = Some \<lparr>Requests = [ReqInAppPurchasesV2 ''app-1'' (WithLimit 200),
                           ReqInAppPurchasesV2 ''app-1'' (WithNextURL second_url)],
              Reports = [],
              Returned = Some (Wrapped ''validate iap: failed to fetch in-app purchases''
                                (ApiError False ''unexpected end of JSON input''))\<rparr>
   \<and> (\<exists>pages. traversed (\<lambda>log. GetInAppPurchasesV2 two_page_client log ''app-1'')
          (ReqInAppPurchasesV2 ''app-1'') [] pages
          [ReqInAppPurchasesV2 ''app-1'' (WithLimit 200),
           ReqInAppPurchasesV2 ''app-1'' (WithNextURL second_url)]
        \<and> map (\<lambda>item.
             \<lparr>IAP.ID = Resource.ID item,
              IAP.Name = InAppPurchaseV2Attributes.Name (Attributes item),
              IAP.ProductID = InAppPurchaseV2Attributes.ProductID (Attributes item),
              IAP.Type = InAppPurchaseType (Attributes item),
              IAP.State = InAppPurchaseV2Attributes.State (Attributes item)\<rparr>)
             (concat (map Data pages))
           = [\<lparr>IAP.ID = ''iap-a'', IAP.Name = ''Coins'', IAP.ProductID = ''com.example.coins'',
                IAP.Type = ''CONSUMABLE'', IAP.State = ''APPROVED''\<rparr>,
               \<lparr>IAP.ID = ''iap-b'', IAP.Name = ''Armor'', IAP.ProductID = ''com.example.armor'',
                IAP.Type = ''NON_CONSUMABLE'', IAP.State = ''MISSING_METADATA''\<rparr>,
               \<lparr>IAP.ID = ''iap-a'', IAP.Name = ''Coins'', IAP.ProductID = ''com.example.coins'',
                IAP.Type = ''CONSUMABLE'', IAP.State = ''APPROVED''\<rparr>])
   \<and> runValidateSubscriptions (example_sub_externals no_groups_client) [] example_sub_options
      = Some \<lparr>Requests = [ReqSubscriptionGroups ''app-1'' (WithLimit 200)],
              Reports = [],
              Returned = Some (Wrapped
                ''validate subscriptions: failed to fetch subscription groups''
                (ApiError False ''timeout''))\<rparr>
   \<and> runValidateSubscriptions (example_sub_externals later_group_client) [] example_sub_options
      = Some \<lparr>Requests = [ReqSubscriptionGroups ''app-1'' (WithLimit 200),
                           ReqSubscriptions ''group-1'' (WithLimit 200),
                           ReqSubscriptions ''group-2'' (WithLimit 200)],
              Reports = [],
              Returned = Some (Wrapped
                ''validate subscriptions: failed to fetch subscriptions for group group-2''
                (ApiError False ''timeout''))\<rparr>
   \<and> (\<exists>pages logA.
        traversed (\<lambda>log. GetSubscriptionGroups two_group_client log ''app-1'')
          (ReqSubscriptionGroups ''app-1'') [] pages logA
        \<and> subs_traversed two_group_client
          (map Resource.ID (filter (\<lambda>group. TrimSpace (Resource.ID group) \<noteq> '''')
             (concat (map Data pages))))
          logA
          [\<lparr>Subscription.ID = ''sub-a'', Subscription.Name = ''Monthly'',
            Subscription.ProductID = ''com.example.monthly'',
            Subscription.State = ''APPROVED'', Subscription.GroupID = ''group-1''\<rparr>,
           \<lparr>Subscription.ID = ''sub-b'', Subscription.Name = ''Yearly'',
            Subscription.ProductID = ''com.example.yearly'',
            Subscription.State = ''MISSING_METADATA'', Subscription.GroupID = ''group-2''\<rparr>]
          [ReqSubscriptionGroups ''app-1'' (WithLimit 200),
           ReqSubscriptions ''group-1'' (WithLimit 200),
           ReqSubscriptions ''group-2'' (WithLimit 200)])"
proof -
  have app: "validateIAPOptions.AppID example_options = ''app-1''"
    by (simp add: example_options_def)
  have sapp: "validateSubscriptionsOptions.AppID example_sub_options = ''app-1''"
    by (simp add: example_sub_options_def)
  \<comment> \<open>one page of in-app purchases, then a failing fetch\<close>
  have f1: "clientFactory (example_externals broken_page_client) = Inr broken_page_client"
    by (simp add: example_externals_def)
  have "served (\<lambda>log. GetInAppPurchasesV2 broken_page_client log ''app-1'')
      (ReqInAppPurchasesV2 ''app-1'') [] ''''
      [\<lparr>Data = [item_a], Links_Next = second_url\<rparr>]
      ([] @ [ReqInAppPurchasesV2 ''app-1'' (next_query '''')])
      (TrimSpace (Links_Next \<lparr>Data = [item_a], Links_Next = second_url\<rparr>))"
    by (rule served.page [OF _ _ served.none])
      (simp_all add: broken_page_client_def two_page_client_def second_url_trimmed,
       simp add: second_url_def)
  then have s1: "served (\<lambda>log. GetInAppPurchasesV2 broken_page_client log ''app-1'')
      (ReqInAppPurchasesV2 ''app-1'') [] ''''
      [\<lparr>Data = [item_a], Links_Next = second_url\<rparr>]
      [ReqInAppPurchasesV2 ''app-1'' (WithLimit 200)] second_url"
    by (simp add: next_query_empty second_url_trimmed)
  have e1: "GetInAppPurchasesV2 broken_page_client [ReqInAppPurchasesV2 ''app-1'' (WithLimit 200)]
      ''app-1'' (next_query second_url) = Inl (ApiError False ''unexpected end of JSON input'')"
    by (simp add: broken_page_client_def)
  have "failed_after (\<lambda>log. GetInAppPurchasesV2 broken_page_client log ''app-1'')
      (ReqInAppPurchasesV2 ''app-1'') [] (ApiError False ''unexpected end of JSON input'')
      ([ReqInAppPurchasesV2 ''app-1'' (WithLimit 200)]
         @ [ReqInAppPurchasesV2 ''app-1'' (next_query second_url)])"
    using s1 e1 by (rule failed_afterI)
  then have b1: "failed_after
      (\<lambda>log. GetInAppPurchasesV2 broken_page_client log (validateIAPOptions.AppID example_options))
      (ReqInAppPurchasesV2 (validateIAPOptions.AppID example_options)) []
      (ApiError False ''unexpected end of JSON input'')
      [ReqInAppPurchasesV2 ''app-1'' (WithLimit 200),
       ReqInAppPurchasesV2 ''app-1'' (WithNextURL second_url)]"
    by (simp add: app second_url_query)
  from failed_fetch_discards_traversal
    [where ext = "example_externals broken_page_client" and client = broken_page_client
       and opts = example_options and log = "[]"
       and err = "ApiError False ''unexpected end of JSON input''"
       and ?log1.0 = "[ReqInAppPurchasesV2 ''app-1'' (WithLimit 200),
                       ReqInAppPurchasesV2 ''app-1'' (WithNextURL second_url)]",
     THEN conjunct1] f1 b1
  have c1: "runValidateIAP (example_externals broken_page_client) [] example_options
      = Some \<lparr>Requests = [ReqInAppPurchasesV2 ''app-1'' (WithLimit 200),
                           ReqInAppPurchasesV2 ''app-1'' (WithNextURL second_url)],
              Reports = [],
              Returned = Some (Wrapped ''validate iap: failed to fetch in-app purchases''
                                (ApiError False ''unexpected end of JSON input''))\<rparr>"
    by blast
  \<comment> \<open>a run of \<open>validate iap\<close> that returns a report\<close>
  have f2: "clientFactory (example_externals two_page_client) = Inr two_page_client"
    by (simp add: example_externals_def)
  have run2: "runValidateIAP (example_externals two_page_client) [] example_options
      = Some \<lparr>Requests = [ReqInAppPurchasesV2 ''app-1'' (WithLimit 200),
           ReqInAppPurchasesV2 ''app-1'' (WithNextURL second_url)],
              Reports = [\<lparr>IAPInput.AppID = ''app-1'',
                          IAPs = [\<lparr>IAP.ID = ''iap-a'', IAP.Name = ''Coins'', IAP.ProductID = ''com.example.coins'',
                IAP.Type = ''CONSUMABLE'', IAP.State = ''APPROVED''\<rparr>,
               \<lparr>IAP.ID = ''iap-b'', IAP.Name = ''Armor'', IAP.ProductID = ''com.example.armor'',
                IAP.Type = ''NON_CONSUMABLE'', IAP.State = ''MISSING_METADATA''\<rparr>,
               \<lparr>IAP.ID = ''iap-a'', IAP.Name = ''Coins'', IAP.ProductID = ''com.example.coins'',
                IAP.Type = ''CONSUMABLE'', IAP.State = ''APPROVED''\<rparr>]\<rparr>],
              Returned = None\<rparr>"
    by code_simp
  from failed_fetch_discards_traversal
    [where ext = "example_externals two_page_client" and client = two_page_client
       and opts = example_options and log = "[]"
       and out = "\<lparr>Requests = [ReqInAppPurchasesV2 ''app-1'' (WithLimit 200),
           ReqInAppPurchasesV2 ''app-1'' (WithNextURL second_url)],
              Reports = [\<lparr>IAPInput.AppID = ''app-1'',
                          IAPs = [\<lparr>IAP.ID = ''iap-a'', IAP.Name = ''Coins'', IAP.ProductID = ''com.example.coins'',
                IAP.Type = ''CONSUMABLE'', IAP.State = ''APPROVED''\<rparr>,
               \<lparr>IAP.ID = ''iap-b'', IAP.Name = ''Armor'', IAP.ProductID = ''com.example.armor'',
                IAP.Type = ''NON_CONSUMABLE'', IAP.State = ''MISSING_METADATA''\<rparr>,
               \<lparr>IAP.ID = ''iap-a'', IAP.Name = ''Coins'', IAP.ProductID = ''com.example.coins'',
                IAP.Type = ''CONSUMABLE'', IAP.State = ''APPROVED''\<rparr>]\<rparr>],
              Returned = None\<rparr>",
     THEN conjunct2, THEN conjunct1] f2 run2
  have c2: "\<exists>pages. traversed (\<lambda>log. GetInAppPurchasesV2 two_page_client log ''app-1'')
          (ReqInAppPurchasesV2 ''app-1'') [] pages
          [ReqInAppPurchasesV2 ''app-1'' (WithLimit 200),
           ReqInAppPurchasesV2 ''app-1'' (WithNextURL second_url)]
        \<and> map (\<lambda>item.
             \<lparr>IAP.ID = Resource.ID item,
              IAP.Name = InAppPurchaseV2Attributes.Name (Attributes item),
              IAP.ProductID = InAppPurchaseV2Attributes.ProductID (Attributes item),
              IAP.Type = InAppPurchaseType (Attributes item),
              IAP.State = InAppPurchaseV2Attributes.State (Attributes item)\<rparr>)
             (concat (map Data pages))
           = [\<lparr>IAP.ID = ''iap-a'', IAP.Name = ''Coins'', IAP.ProductID = ''com.example.coins'',
                IAP.Type = ''CONSUMABLE'', IAP.State = ''APPROVED''\<rparr>,
               \<lparr>IAP.ID = ''iap-b'', IAP.Name = ''Armor'', IAP.ProductID = ''com.example.armor'',
                IAP.Type = ''NON_CONSUMABLE'', IAP.State = ''MISSING_METADATA''\<rparr>,
               \<lparr>IAP.ID = ''iap-a'', IAP.Name = ''Coins'', IAP.ProductID = ''com.example.coins'',
                IAP.Type = ''CONSUMABLE'', IAP.State = ''APPROVED''\<rparr>]"
    by (auto simp: app example_externals_def)
  \<comment> \<open>the groups cannot be fetched\<close>
  have f3: "clientFactory (example_sub_externals no_groups_client) = Inr no_groups_client"
    by (simp add: example_sub_externals_def)
  have "failed_after (\<lambda>log. GetSubscriptionGroups no_groups_client log ''app-1'')
      (ReqSubscriptionGroups ''app-1'') [] (ApiError False ''timeout'')
      ([] @ [ReqSubscriptionGroups ''app-1'' (next_query '''')])"
    by (rule failed_afterI [OF served.none]) (simp add: no_groups_client_def)
  then have b3: "failed_after
      (\<lambda>log. GetSubscriptionGroups no_groups_client log
               (validateSubscriptionsOptions.AppID example_sub_options))
      (ReqSubscriptionGroups (validateSubscriptionsOptions.AppID example_sub_options)) []
      (ApiError False ''timeout'') [ReqSubscriptionGroups ''app-1'' (WithLimit 200)]"
    by (simp add: sapp next_query_empty)
  from failed_fetch_discards_traversal
    [where ext = "example_sub_externals no_groups_client" and client = no_groups_client
       and sopts = example_sub_options and log = "[]" and err = "ApiError False ''timeout''"
       and ?log1.0 = "[ReqSubscriptionGroups ''app-1'' (WithLimit 200)]",
     THEN conjunct2, THEN conjunct2, THEN conjunct1] f3 b3
  have c3: "runValidateSubscriptions (example_sub_externals no_groups_client) []
      example_sub_options
      = Some \<lparr>Requests = [ReqSubscriptionGroups ''app-1'' (WithLimit 200)],
              Reports = [],
              Returned = Some (Wrapped
                ''validate subscriptions: failed to fetch subscription groups''
                (ApiError False ''timeout''))\<rparr>"
    by blast
  \<comment> \<open>the subscriptions of the second group cannot be fetched\<close>
  have f4: "clientFactory (example_sub_externals later_group_client) = Inr later_group_client"
    by (simp add: example_sub_externals_def)
  have "traversed (\<lambda>log. GetSubscriptionGroups later_group_client log ''app-1'')
      (ReqSubscriptionGroups ''app-1'') [] ([] @ [groups_page])
      ([] @ [ReqSubscriptionGroups ''app-1'' (next_query '''')])"
    by (rule traversedI [OF served.none])
      (simp_all add: later_group_client_def two_group_client_def groups_page_def TrimSpace_Nil)
  then have g4: "traversed
      (\<lambda>log. GetSubscriptionGroups later_group_client log
               (validateSubscriptionsOptions.AppID example_sub_options))
      (ReqSubscriptionGroups (validateSubscriptionsOptions.AppID example_sub_options)) []
      ([] @ [groups_page]) [ReqSubscriptionGroups ''app-1'' (WithLimit 200)]"
    by (simp add: sapp next_query_empty)
  have ids4: "map Resource.ID (filter (\<lambda>group. TrimSpace (Resource.ID group) \<noteq> '''')
      (concat (map Data ([] @ [groups_page])))) = [''group-1''] @ ''group-2'' # []"
    using group_ids_kept by simp
  have "traversed (\<lambda>log. GetSubscriptions later_group_client log ''group-1'')
      (ReqSubscriptions ''group-1'') [ReqSubscriptionGroups ''app-1'' (WithLimit 200)]
      ([] @ [\<lparr>Data = [sub_a], Links_Next = ''''\<rparr>])
      ([ReqSubscriptionGroups ''app-1'' (WithLimit 200)]
         @ [ReqSubscriptions ''group-1'' (next_query '''')])"
    by (rule traversedI [OF served.none])
      (simp_all add: later_group_client_def two_group_client_def TrimSpace_Nil)
  from subs_traversed.group [OF this subs_traversed.none]
  have t4: "subs_traversed later_group_client [''group-1'']
      [ReqSubscriptionGroups ''app-1'' (WithLimit 200)]
      (map (\<lambda>sub. \<lparr>Subscription.ID = Resource.ID sub,
                    Subscription.Name = SubscriptionAttributes.Name (Attributes sub),
                    Subscription.ProductID = SubscriptionAttributes.ProductID (Attributes sub),
                    Subscription.State = SubscriptionAttributes.State (Attributes sub),
                    Subscription.GroupID = ''group-1''\<rparr>) [sub_a])
      [ReqSubscriptionGroups ''app-1'' (WithLimit 200),
       ReqSubscriptions ''group-1'' (WithLimit 200)]"
    by (simp add: next_query_empty)
  have "failed_after (\<lambda>log. GetSubscriptions later_group_client log ''group-2'')
      (ReqSubscriptions ''group-2'')
      [ReqSubscriptionGroups ''app-1'' (WithLimit 200),
       ReqSubscriptions ''group-1'' (WithLimit 200)]
      (ApiError False ''timeout'')
      ([ReqSubscriptionGroups ''app-1'' (WithLimit 200),
        ReqSubscriptions ''group-1'' (WithLimit 200)]
         @ [ReqSubscriptions ''group-2'' (next_query '''')])"
    by (rule failed_afterI [OF served.none]) (simp add: later_group_client_def)
  then have b4: "failed_after (\<lambda>log. GetSubscriptions later_group_client log ''group-2'')
      (ReqSubscriptions ''group-2'')
      [ReqSubscriptionGroups ''app-1'' (WithLimit 200),
       ReqSubscriptions ''group-1'' (WithLimit 200)]
      (ApiError False ''timeout'')
      [ReqSubscriptionGroups ''app-1'' (WithLimit 200),
       ReqSubscriptions ''group-1'' (WithLimit 200),
       ReqSubscriptions ''group-2'' (WithLimit 200)]"
    by (simp add: next_query_empty)
  from failed_fetch_discards_traversal
    [where ext = "example_sub_externals later_group_client" and client = later_group_client
       and sopts = example_sub_options and log = "[]" and err = "ApiError False ''timeout''"
       and groupPages = "[] @ [groups_page]"
       and ?log1.0 = "[ReqSubscriptionGroups ''app-1'' (WithLimit 200)]"
       and before = "[''group-1'']" and groupID = "''group-2''" and rest = "[]"
       and ?log2.0 = "[ReqSubscriptionGroups ''app-1'' (WithLimit 200),
                       ReqSubscriptions ''group-1'' (WithLimit 200)]"
       and ?log3.0 = "[ReqSubscriptionGroups ''app-1'' (WithLimit 200),
                       ReqSubscriptions ''group-1'' (WithLimit 200),
                       ReqSubscriptions ''group-2'' (WithLimit 200)]",
     THEN conjunct2, THEN conjunct2, THEN conjunct2, THEN conjunct1]
    f4 g4 ids4 t4 b4
  have c4: "runValidateSubscriptions (example_sub_externals later_group_client) []
      example_sub_options
      = Some \<lparr>Requests = [ReqSubscriptionGroups ''app-1'' (WithLimit 200),
                           ReqSubscriptions ''group-1'' (WithLimit 200),
                           ReqSubscriptions ''group-2'' (WithLimit 200)],
              Reports = [],
              Returned = Some (Wrapped
                ''validate subscriptions: failed to fetch subscriptions for group group-2''
                (ApiError False ''timeout''))\<rparr>"
    by simp
  \<comment> \<open>a run of \<open>validate subscriptions\<close> that returns a report\<close>
  have f5: "clientFactory (example_sub_externals two_group_client) = Inr two_group_client"
    by (simp add: example_sub_externals_def)
  have run5: "runValidateSubscriptions (example_sub_externals two_group_client) []
      example_sub_options
      = Some \<lparr>Requests = [ReqSubscriptionGroups ''app-1'' (WithLimit 200),
           ReqSubscriptions ''group-1'' (WithLimit 200),
           ReqSubscriptions ''group-2'' (WithLimit 200)],
              Reports = [\<lparr>SubscriptionsInput.AppID = ''app-1'',
                          Subscriptions = [\<lparr>Subscription.ID = ''sub-a'', Subscription.Name = ''Monthly'',
            Subscription.ProductID = ''com.example.monthly'',
            Subscription.State = ''APPROVED'', Subscription.GroupID = ''group-1''\<rparr>,
           \<lparr>Subscription.ID = ''sub-b'', Subscription.Name = ''Yearly'',
            Subscription.ProductID = ''com.example.yearly'',
            Subscription.State = ''MISSING_METADATA'', Subscription.GroupID = ''group-2''\<rparr>]\<rparr>],
              Returned = None\<rparr>"
    by code_simp
  from failed_fetch_discards_traversal
    [where ext = "example_sub_externals two_group_client" and client = two_group_client
       and sopts = example_sub_options and log = "[]"
       and sout = "\<lparr>Requests = [ReqSubscriptionGroups ''app-1'' (WithLimit 200),
           ReqSubscriptions ''group-1'' (WithLimit 200),
           ReqSubscriptions ''group-2'' (WithLimit 200)],
              Reports = [\<lparr>SubscriptionsInput.AppID = ''app-1'',
                          Subscriptions = [\<lparr>Subscription.ID = ''sub-a'', Subscription.Name = ''Monthly'',
            Subscription.ProductID = ''com.example.monthly'',
            Subscription.State = ''APPROVED'', Subscription.GroupID = ''group-1''\<rparr>,
           \<lparr>Subscription.ID = ''sub-b'', Subscription.Name = ''Yearly'',
            Subscription.ProductID = ''com.example.yearly'',
            Subscription.State = ''MISSING_METADATA'', Subscription.GroupID = ''group-2''\<rparr>]\<rparr>],
              Returned = None\<rparr>",
     THEN conjunct2, THEN conjunct2, THEN conjunct2, THEN conjunct2] f5 run5
  have c5: "\<exists>pages logA.
        traversed (\<lambda>log. GetSubscriptionGroups two_group_client log ''app-1'')
          (ReqSubscriptionGroups ''app-1'') [] pages logA
        \<and> subs_traversed two_group_client
          (map Resource.ID (filter (\<lambda>group. TrimSpace (Resource.ID group) \<noteq> '''')
             (concat (map Data pages))))
          logA
          [\<lparr>Subscription.ID = ''sub-a'', Subscription.Name = ''Monthly'',
            Subscription.ProductID = ''com.example.monthly'',
            Subscription.State = ''APPROVED'', Subscription.GroupID = ''group-1''\<rparr>,
           \<lparr>Subscription.ID = ''sub-b'', Subscription.Name = ''Yearly'',
            Subscription.ProductID = ''com.example.yearly'',
            Subscription.State = ''MISSING_METADATA'', Subscription.GroupID = ''group-2''\<rparr>]
          [ReqSubscriptionGroups ''app-1'' (WithLimit 200),
           ReqSubscriptions ''group-1'' (WithLimit 200),
           ReqSubscriptions ''group-2'' (WithLimit 200)]"
    by (auto simp: sapp example_sub_externals_def)
  from c1 c2 c3 c4 c5 show ?thesis by blast
qed

subsection \<open>A blank next-page link\<close>

text \<open>
  Claim C10. In each of the three traversals, at any iteration: when the page fetched
  carries a next-page link made of white space only, the traversal ends with that page. It
  returns the items accumulated so far followed by the items of that page, and the request
  of that page is the last one issued. The link is trimmed before it is compared with the
  empty string, and white space trims to nothing.
\<close>

theorem blank_link_ends_traversal:
  "(GetInAppPurchasesV2 client log appID (next_query nextURL) = Inr page
      \<and> whitespace_only (Links_Next page)
     \<longrightarrow> runValidateIAP_loop client appID log nextURL iaps
          = Some (log @ [ReqInAppPurchasesV2 appID (next_query nextURL)],
                  Inr (iaps @ map toIAP (Data page))))
   \<and> (GetSubscriptionGroups client log appID (next_query nextURL) = Inr groups
      \<and> whitespace_only (Links_Next groups)
     \<longrightarrow> runValidateSubscriptions_groups client appID log nextURL groupIDs
          = Some (log @ [ReqSubscriptionGroups appID (next_query nextURL)],
                  Inr (groupIDs @ map Resource.ID
                         (filter (\<lambda>group. TrimSpace (Resource.ID group) \<noteq> '''') (Data groups)))))
   \<and> (GetSubscriptions client log groupID (next_query nextURL) = Inr subsPage
      \<and> whitespace_only (Links_Next subsPage)
     \<longrightarrow> runValidateSubscriptions_subs client groupID log nextURL subs
          = Some (log @ [ReqSubscriptions groupID (next_query nextURL)],
                  Inr (subs @ map (toSubscription groupID) (Data subsPage))))"
  by (simp add: iap_last group_last sub_last whitespace_only_TrimSpace)

theorem blank_link_ends_traversal_witness:
  "whitespace_only blank_link \<and> blank_link \<noteq> ''''
   \<and> runValidateIAP_loop blank_link_client ''app-1'' [] '''' []
      = Some ([ReqInAppPurchasesV2 ''app-1'' (WithLimit 200)], Inr [toIAP item_a])
   \<and> runValidateSubscriptions_groups blank_link_client ''app-1'' [] '''' []
      = Some ([ReqSubscriptionGroups ''app-1'' (WithLimit 200)], Inr [''group-1''])
   \<and> runValidateSubscriptions_subs blank_link_client ''group-1'' [] '''' []
      = Some ([ReqSubscriptions ''group-1'' (WithLimit 200)], Inr [])"
proof -
  have "blank_link = [CHR 0x20] @ [CHR 0x09] @ [CHR 0xC2, CHR 0xA0] @ [CHR 0x0A] @ []"
    by (simp add: blank_link_def)
  moreover have "whitespace_only ([CHR 0x20] @ [CHR 0x09] @ [CHR 0xC2, CHR 0xA0] @ [CHR 0x0A] @ [])"
    by (intro whitespace_only.intros) (simp_all add: spaceRunes_def)
  ultimately have w: "whitespace_only blank_link"
    by simp
  have ne: "blank_link \<noteq> ''''"
    by (simp add: blank_link_def)
  have g: "TrimSpace ''group-1'' \<noteq> ''''"
    by code_simp
  have p1: "GetInAppPurchasesV2 blank_link_client [] ''app-1'' (next_query '''')
      = Inr \<lparr>Data = [item_a], Links_Next = blank_link\<rparr>"
    by (simp add: blank_link_client_def)
  have p2: "GetSubscriptionGroups blank_link_client [] ''app-1'' (next_query '''')
      = Inr \<lparr>Data = [\<lparr>ID = ''group-1'', Attributes = ()\<rparr>], Links_Next = blank_link\<rparr>"
    by (simp add: blank_link_client_def)
  have p3: "GetSubscriptions blank_link_client [] ''group-1'' (next_query '''')
      = Inr \<lparr>Data = [], Links_Next = blank_link\<rparr>"
    by (simp add: blank_link_client_def)
  from blank_link_ends_traversal
    [of blank_link_client "[]" "''app-1''" "''''"
        "\<lparr>Data = [item_a], Links_Next = blank_link\<rparr>" "[]"
        "\<lparr>Data = [\<lparr>ID = ''group-1'', Attributes = ()\<rparr>], Links_Next = blank_link\<rparr>" "[]"
        "''group-1''" "\<lparr>Data = [], Links_Next = blank_link\<rparr>" "[]"]
    p1 p2 p3 w g
  have "runValidateIAP_loop blank_link_client ''app-1'' [] '''' []
      = Some ([ReqInAppPurchasesV2 ''app-1'' (WithLimit 200)], Inr [toIAP item_a])
   \<and> runValidateSubscriptions_groups blank_link_client ''app-1'' [] '''' []
      = Some ([ReqSubscriptionGroups ''app-1'' (WithLimit 200)], Inr [''group-1''])
   \<and> runValidateSubscriptions_subs blank_link_client ''group-1'' [] '''' []
      = Some ([ReqSubscriptions ''group-1'' (WithLimit 200)], Inr [])"
    by (simp add: next_query_empty)
  with w ne show ?thesis by blast
qed

section \<open>The section aggregator fails together\<close>

text \<open>
  What each task returns when the tasks complete in the given order, first completed
  first; the snapshot the tasks leave; and the errors sent to \<open>errCh\<close>, in order.
\<close>

fun outcomes :: "'w sectionTask list \<Rightarrow> nat list \<Rightarrow> 'w \<Rightarrow> (nat \<times> go_error option) list" where
  "outcomes tasks [] w = []"
| "outcomes tasks (i # rest) w =
     (i, fst (run (tasks ! i) w)) # outcomes tasks rest (snd (run (tasks ! i) w))"

fun aftermath :: "'w sectionTask list \<Rightarrow> nat list \<Rightarrow> 'w \<Rightarrow> 'w" where
  "aftermath tasks [] w = w"
| "aftermath tasks (i # rest) w = aftermath tasks rest (snd (run (tasks ! i) w))"

fun failures :: "'w sectionTask list \<Rightarrow> (nat \<times> go_error option) list \<Rightarrow> go_error list" where
  "failures tasks [] = []"
| "failures tasks ((i, None) # rest) = failures tasks rest"
| "failures tasks ((i, Some err) # rest) = Wrapped (name (tasks ! i)) err # failures tasks rest"

lemma fold_runTasks_goroutine:
  "fold (runTasks_goroutine tasks) order (errCh, w)
    = (errCh @ failures tasks (outcomes tasks order w), aftermath tasks order w)"
proof (induction order arbitrary: errCh w)
  case Nil
  show ?case by simp
next
  case (Cons i rest)
  obtain r w1 where r: "run (tasks ! i) w = (r, w1)"
    by (cases "run (tasks ! i) w")
  show ?case
  proof (cases r)
    case None
    with r Cons show ?thesis by (simp add: runTasks_goroutine_def)
  next
    case (Some err)
    with r Cons show ?thesis by (simp add: runTasks_goroutine_def)
  qed
qed

lemma outcomes_indices: "map fst (outcomes tasks order w) = order"
  by (induction order arbitrary: w) simp_all

lemma failures_Nil:
  "(\<forall>x \<in> set os. snd x = None) \<Longrightarrow> failures tasks os = []"
  by (induction tasks os rule: failures.induct) simp_all

lemma failures_first:
  "failures tasks os = err # others
    \<Longrightarrow> \<exists>pre j e post. os = pre @ (j, Some e) # post \<and> (\<forall>x \<in> set pre. snd x = None)
          \<and> err = Wrapped (name (tasks ! j)) e"
proof (induction tasks os rule: failures.induct)
  case (1 tasks)
  then show ?case by simp
next
  case (2 tasks i rest)
  then obtain pre j e post where
    "rest = pre @ (j, Some e) # post" "\<forall>x \<in> set pre. snd x = None"
    "err = Wrapped (name (tasks ! j)) e"
    by auto
  then have "(i, None) # rest = ((i, None) # pre) @ (j, Some e) # post
      \<and> (\<forall>x \<in> set ((i, None) # pre). snd x = None) \<and> err = Wrapped (name (tasks ! j)) e"
    by simp
  then show ?case by blast
next
  case (3 tasks i e rest)
  then have "(i, Some e) # rest = [] @ (i, Some e) # rest
      \<and> (\<forall>x \<in> set []. snd x = None) \<and> err = Wrapped (name (tasks ! i)) e"
    by simp
  then show ?case by blast
qed

lemma failures_exists:
  "(j, Some e) \<in> set os \<Longrightarrow> failures tasks os \<noteq> []"
  by (induction tasks os rule: failures.induct) auto

lemma runTasks_result:
  assumes "sort order = [0..<length tasks]"
  shows "runTasks tasks limit order w
    = Some (case failures tasks (outcomes tasks order w) of [] \<Rightarrow> None | err # _ \<Rightarrow> Some err,
            aftermath tasks order w)"
proof (cases "length tasks = 0")
  case True
  with assms have "sort order = []" by simp
  then have "order = []"
    by (metis length_0_conv length_sort)
  with True show ?thesis by (simp add: runTasks_def)
next
  case False
  with assms show ?thesis
    by (simp add: runTasks_def fold_runTasks_goroutine split: list.splits)
qed

lemma order_indices:
  assumes "sort order = [0..<n]" and "j \<in> set order"
  shows "j < n"
proof -
  have "set order = set (sort order)" by simp
  with assms show ?thesis by simp
qed

lemma runTasks_first_failure:
  assumes ord: "sort order = [0..<length tasks]"
    and bad: "(i, Some e) \<in> set (outcomes tasks order w)"
  shows "\<exists>pre j err post.
            outcomes tasks order w = pre @ (j, Some err) # post
            \<and> (\<forall>x \<in> set pre. snd x = None)
            \<and> j < length tasks
            \<and> runTasks tasks limit order w
                = Some (Some (Wrapped (name (tasks ! j)) err), aftermath tasks order w)"
proof -
  from bad have "failures tasks (outcomes tasks order w) \<noteq> []"
    by (rule failures_exists)
  then obtain first others where f: "failures tasks (outcomes tasks order w) = first # others"
    by (cases "failures tasks (outcomes tasks order w)") auto
  then obtain pre j err post where
    split: "outcomes tasks order w = pre @ (j, Some err) # post"
    and quiet: "\<forall>x \<in> set pre. snd x = None"
    and first: "first = Wrapped (name (tasks ! j)) err"
    using failures_first by blast
  have "j \<in> set (map fst (outcomes tasks order w))"
    unfolding split by simp
  then have "j \<in> set order"
    by (simp add: outcomes_indices)
  with ord have j: "j < length tasks"
    by (rule order_indices)
  have "runTasks tasks limit order w
      = Some (Some (Wrapped (name (tasks ! j)) err), aftermath tasks order w)"
    using runTasks_result [OF ord, of limit w] f first by simp
  with split quiet j show ?thesis by blast
qed

text \<open>
  Claim C2. Let the tasks complete in any order. If any task fails, \<open>runTasks\<close> returns
  the error of the first task that failed in completion order, wrapped with that task's
  name, and \<open>collectDashboard\<close> returns that error and no snapshot: the value \<open>Inl\<close>
  holds an error only, so nothing that the other tasks wrote to the snapshot is returned.
  If no task fails, the snapshot the tasks leave is returned. This holds for the tasks of
  \<open>collectDashboard\<close> and for every list of tasks given to \<open>runTasks\<close>.
\<close>

theorem collectDashboard_fails_together:
  "(sort order = [0..<length tasks] \<and> (i, Some e) \<in> set (outcomes tasks order w)
     \<longrightarrow> (\<exists>pre j err post.
            outcomes tasks order w = pre @ (j, Some err) # post
            \<and> (\<forall>x \<in> set pre. snd x = None)
            \<and> j < length tasks
            \<and> runTasks tasks limit order w
                = Some (Some (Wrapped (name (tasks ! j)) err), aftermath tasks order w)))
   \<and> (GetApp client appID = Inr appResp
      \<and> sort order = [0..<length (collectDashboard_tasks client ext appID includes)]
      \<and> (i, Some e) \<in> set (outcomes (collectDashboard_tasks client ext appID includes) order
                             (collectDashboard_init appResp appID includes))
     \<longrightarrow> (\<exists>pre j err post.
            outcomes (collectDashboard_tasks client ext appID includes) order
                (collectDashboard_init appResp appID includes) = pre @ (j, Some err) # post
            \<and> (\<forall>x \<in> set pre. snd x = None)
            \<and> j < length (collectDashboard_tasks client ext appID includes)
            \<and> collectDashboard client ext appID includes order
                = Some (Inl (Wrapped (name (collectDashboard_tasks client ext appID includes ! j))
                               err))))
   \<and> (GetApp client appID = Inr appResp
      \<and> sort order = [0..<length (collectDashboard_tasks client ext appID includes)]
      \<and> (\<forall>x \<in> set (outcomes (collectDashboard_tasks client ext appID includes) order
                       (collectDashboard_init appResp appID includes)). snd x = None)
     \<longrightarrow> collectDashboard client ext appID includes order
          = Some (Inr (aftermath (collectDashboard_tasks client ext appID includes) order
                         (collectDashboard_init appResp appID includes))))"
proof -
  have dash: "\<exists>pre j err post.
            outcomes (collectDashboard_tasks client ext appID includes) order
                (collectDashboard_init appResp appID includes) = pre @ (j, Some err) # post
            \<and> (\<forall>x \<in> set pre. snd x = None)
            \<and> j < length (collectDashboard_tasks client ext appID includes)
            \<and> collectDashboard client ext appID includes order
                = Some (Inl (Wrapped (name (collectDashboard_tasks client ext appID includes ! j))
                               err))"
    if app: "GetApp client appID = Inr appResp"
      and ord: "sort order = [0..<length (collectDashboard_tasks client ext appID includes)]"
      and bad: "(i, Some e) \<in> set (outcomes (collectDashboard_tasks client ext appID includes) order
                             (collectDashboard_init appResp appID includes))"
  proof -
    from runTasks_first_failure [OF ord bad, of 3] obtain pre j err post where
      a: "outcomes (collectDashboard_tasks client ext appID includes) order
            (collectDashboard_init appResp appID includes) = pre @ (j, Some err) # post"
      and b: "\<forall>x \<in> set pre. snd x = None"
      and c: "j < length (collectDashboard_tasks client ext appID includes)"
      and d: "runTasks (collectDashboard_tasks client ext appID includes) 3 order
                (collectDashboard_init appResp appID includes)
              = Some (Some (Wrapped (name (collectDashboard_tasks client ext appID includes ! j)) err),
                      aftermath (collectDashboard_tasks client ext appID includes) order
                        (collectDashboard_init appResp appID includes))"
      by blast
    have "collectDashboard client ext appID includes order
        = Some (Inl (Wrapped (name (collectDashboard_tasks client ext appID includes ! j)) err))"
      using app d by (simp add: collectDashboard_def)
    with a b c show ?thesis by blast
  qed
  have fine: "collectDashboard client ext appID includes order
          = Some (Inr (aftermath (collectDashboard_tasks client ext appID includes) order
                         (collectDashboard_init appResp appID includes)))"
    if app: "GetApp client appID = Inr appResp"
      and ord: "sort order = [0..<length (collectDashboard_tasks client ext appID includes)]"
      and good: "\<forall>x \<in> set (outcomes (collectDashboard_tasks client ext appID includes) order
                       (collectDashboard_init appResp appID includes)). snd x = None"
  proof -
    from good have "failures (collectDashboard_tasks client ext appID includes)
        (outcomes (collectDashboard_tasks client ext appID includes) order
           (collectDashboard_init appResp appID includes)) = []"
      by (rule failures_Nil)
    then show ?thesis
      using app runTasks_result [OF ord, of 3 "collectDashboard_init appResp appID includes"]
      by (simp add: collectDashboard_def)
  qed
  have general: "sort order = [0..<length tasks] \<and> (i, Some e) \<in> set (outcomes tasks order w)
     \<longrightarrow> (\<exists>pre j err post.
            outcomes tasks order w = pre @ (j, Some err) # post
            \<and> (\<forall>x \<in> set pre. snd x = None)
            \<and> j < length tasks
            \<and> runTasks tasks limit order w
                = Some (Some (Wrapped (name (tasks ! j)) err), aftermath tasks order w))"
    using runTasks_first_failure [of order tasks i e w limit] by blast
  from general dash fine show ?thesis by blast
qed


subsection \<open>An example dashboard\<close>

definition all_sections :: includeSet where
  "all_sections = \<lparr>builds = True, testflight = True, appstore = True, submission = True,
     review = True, phasedRelease = True, links = True\<rparr>"

definition dashboard_app :: "AppAttributes Resource Response" where
  "dashboard_app = \<lparr>Data = \<lparr>Resource.ID = ''app-1'', Attributes =
     \<lparr>AppAttributes.BundleID = ''com.example.app'', AppAttributes.Name = ''Example''\<rparr>\<rparr>\<rparr>"

definition dashboard_client :: status_client where
  "dashboard_client = \<lparr>
     GetApp = (\<lambda>appID. Inr dashboard_app),
     GetAppStoreVersions = (\<lambda>appID limit. Inr \<lparr>Data =
        [\<lparr>Resource.ID = ''ver-1'', Attributes =
            \<lparr>AppStoreVersionAttributes.Platform = ''IOS'', VersionString = ''1.0'',
             AppStoreVersionAttributes.CreatedDate = ''2026-01-01T00:00:00Z'',
             AppVersionState = ''READY_FOR_SALE''\<rparr>\<rparr>]\<rparr>),
     GetAppStoreVersionPhasedRelease = (\<lambda>versionID. Inl (ApiError True ''not found''))\<rparr>"

definition timeout_error :: go_error where
  "timeout_error = ApiError False ''context deadline exceeded''"

definition failing_externals :: status_externals where
  "failing_externals = \<lparr>
     ResolveState = AppVersionState,
     fillBuildsAndTestFlight = (\<lambda>appID includes resp.
        (None, resp\<lparr>Builds := Some \<lparr>Latest = None\<rparr>\<rparr>)),
     fillSubmissionAndReview = (\<lambda>appID includes resp. (Some timeout_error, resp))\<rparr>"

definition passing_externals :: status_externals where
  "passing_externals = failing_externals\<lparr>
     fillSubmissionAndReview := (\<lambda>appID includes resp.
        (None, resp\<lparr>Submission := Some \<lparr>InFlight = False, BlockingIssues = []\<rparr>\<rparr>))\<rparr>"


lemma dashboard_tasks_failing:
  "collectDashboard_tasks dashboard_client failing_externals ''app-1'' all_sections
    = [\<lparr>name = ''builds/testflight'',
         run = fillBuildsAndTestFlight failing_externals ''app-1'' all_sections\<rparr>,
       \<lparr>name = ''appstore/phased-release'',
         run = fillAppStoreAndPhasedRelease dashboard_client failing_externals ''app-1'' all_sections\<rparr>,
       \<lparr>name = ''submission/review'',
         run = fillSubmissionAndReview failing_externals ''app-1'' all_sections\<rparr>]"
  by (simp add: collectDashboard_tasks_def all_sections_def)

lemma dashboard_tasks_passing:
  "collectDashboard_tasks dashboard_client passing_externals ''app-1'' all_sections
    = [\<lparr>name = ''builds/testflight'',
         run = fillBuildsAndTestFlight passing_externals ''app-1'' all_sections\<rparr>,
       \<lparr>name = ''appstore/phased-release'',
         run = fillAppStoreAndPhasedRelease dashboard_client passing_externals ''app-1'' all_sections\<rparr>,
       \<lparr>name = ''submission/review'',
         run = fillSubmissionAndReview passing_externals ''app-1'' all_sections\<rparr>]"
  by (simp add: collectDashboard_tasks_def all_sections_def)

lemma dashboard_appstore:
  "fst (fillAppStoreAndPhasedRelease dashboard_client ext ''app-1'' all_sections resp) = None
   \<and> AppStore (snd (fillAppStoreAndPhasedRelease dashboard_client ext ''app-1'' all_sections resp))
       \<noteq> None
   \<and> Builds (snd (fillAppStoreAndPhasedRelease dashboard_client ext ''app-1'' all_sections resp))
       = Builds resp
   \<and> Submission (snd (fillAppStoreAndPhasedRelease dashboard_client ext ''app-1'' all_sections resp))
       = Submission resp"
  by (simp add: fillAppStoreAndPhasedRelease_def all_sections_def dashboard_client_def
        selectLatestAppStoreVersion_def Let_def)

lemma failing_externals_run:
  "fillBuildsAndTestFlight failing_externals appID includes resp
     = (None, resp\<lparr>Builds := Some \<lparr>Latest = None\<rparr>\<rparr>)"
  "fillSubmissionAndReview failing_externals appID includes resp = (Some timeout_error, resp)"
  by (simp_all add: failing_externals_def)

lemma passing_externals_run:
  "fillBuildsAndTestFlight passing_externals appID includes resp
     = (None, resp\<lparr>Builds := Some \<lparr>Latest = None\<rparr>\<rparr>)"
  "fillSubmissionAndReview passing_externals appID includes resp
     = (None, resp\<lparr>Submission := Some \<lparr>InFlight = False, BlockingIssues = []\<rparr>\<rparr>)"
  by (simp_all add: passing_externals_def failing_externals_def)

lemma dashboard_order: "sort [1, 2, 0::nat] = [0..<3]"
  by code_simp

theorem collectDashboard_fails_together_witness:
  "collectDashboard dashboard_client failing_externals ''app-1'' all_sections [1, 2, 0]
      = Some (Inl (Wrapped ''submission/review'' timeout_error))
   \<and> AppStore (aftermath
        (collectDashboard_tasks dashboard_client failing_externals ''app-1'' all_sections)
        [1, 2, 0] (collectDashboard_init dashboard_app ''app-1'' all_sections)) \<noteq> None
   \<and> Builds (aftermath
        (collectDashboard_tasks dashboard_client failing_externals ''app-1'' all_sections)
        [1, 2, 0] (collectDashboard_init dashboard_app ''app-1'' all_sections)) \<noteq> None
   \<and> collectDashboard dashboard_client passing_externals ''app-1'' all_sections [1, 2, 0]
      = Some (Inr (aftermath
          (collectDashboard_tasks dashboard_client passing_externals ''app-1'' all_sections)
          [1, 2, 0] (collectDashboard_init dashboard_app ''app-1'' all_sections)))
   \<and> AppStore (aftermath
        (collectDashboard_tasks dashboard_client passing_externals ''app-1'' all_sections)
        [1, 2, 0] (collectDashboard_init dashboard_app ''app-1'' all_sections)) \<noteq> None"
proof -
  define init where "init = collectDashboard_init dashboard_app ''app-1'' all_sections"
  define failing where
    "failing = collectDashboard_tasks dashboard_client failing_externals ''app-1'' all_sections"
  define passing where
    "passing = collectDashboard_tasks dashboard_client passing_externals ''app-1'' all_sections"
  have app: "GetApp dashboard_client ''app-1'' = Inr dashboard_app"
    by (simp add: dashboard_client_def)
  have len1: "length failing = 3"
    unfolding failing_def dashboard_tasks_failing by simp
  have len2: "length passing = 3"
    unfolding passing_def dashboard_tasks_passing by simp
  have ord1: "sort [1, 2, 0] = [0..<length failing]"
    unfolding len1 by (rule dashboard_order)
  have ord2: "sort [1, 2, 0] = [0..<length passing]"
    unfolding len2 by (rule dashboard_order)
  have out1: "outcomes failing [1, 2, 0] init = [(1, None), (2, Some timeout_error), (0, None)]"
    unfolding failing_def dashboard_tasks_failing
    by (simp add: dashboard_appstore failing_externals_run)
  have out2: "outcomes passing [1, 2, 0] init = [(1, None), (2, None), (0, None)]"
    unfolding passing_def dashboard_tasks_passing
    by (simp add: dashboard_appstore passing_externals_run)
  have bad: "(2, Some timeout_error) \<in> set (outcomes failing [1, 2, 0] init)"
    unfolding out1 by simp
  have good: "\<forall>x \<in> set (outcomes passing [1, 2, 0] init). snd x = None"
    unfolding out2 by simp
  have third: "name (failing ! 2) = ''submission/review''"
    unfolding failing_def dashboard_tasks_failing by simp
  note failing_run = collectDashboard_fails_together
    [where order = "[1, 2, 0]" and client = dashboard_client and appID = "''app-1''"
       and appResp = dashboard_app and ext = failing_externals
       and i = 2 and e = timeout_error, of _ _ _ all_sections, THEN conjunct2, THEN conjunct1]
  from failing_run app ord1 bad
  obtain pre j err post where
    split: "outcomes failing [1, 2, 0] init = pre @ (j, Some err) # post"
    and res: "collectDashboard dashboard_client failing_externals ''app-1'' all_sections [1, 2, 0]
        = Some (Inl (Wrapped (name (failing ! j)) err))"
    unfolding failing_def init_def by blast
  have "(j, Some err) \<in> set (outcomes failing [1, 2, 0] init)"
    unfolding split by simp
  then have "j = 2 \<and> err = timeout_error"
    unfolding out1 by simp
  with res third have a: "collectDashboard dashboard_client failing_externals ''app-1''
      all_sections [1, 2, 0] = Some (Inl (Wrapped ''submission/review'' timeout_error))"
    by simp
  have b: "AppStore (aftermath failing [1, 2, 0] init) \<noteq> None
      \<and> Builds (aftermath failing [1, 2, 0] init) \<noteq> None"
    unfolding failing_def dashboard_tasks_failing
    by (simp add: dashboard_appstore failing_externals_run)
  note passing_run = collectDashboard_fails_together
    [where order = "[1, 2, 0]" and client = dashboard_client and appID = "''app-1''"
       and appResp = dashboard_app and ext = passing_externals,
     of _ _ _ _ _ all_sections, THEN conjunct2, THEN conjunct2]
  from passing_run app ord2 good
  have c: "collectDashboard dashboard_client passing_externals ''app-1'' all_sections [1, 2, 0]
      = Some (Inr (aftermath passing [1, 2, 0] init))"
    unfolding passing_def init_def by blast
  have d: "AppStore (aftermath passing [1, 2, 0] init) \<noteq> None"
    unfolding passing_def dashboard_tasks_passing
    by (simp add: dashboard_appstore passing_externals_run)
  from a b c d show ?thesis
    unfolding failing_def passing_def init_def by blast
qed

end
